theory Spec2Isabelle
  imports Complex_Main
begin

section \<open>Hyperparameters\<close>

text \<open>
  The module-level constants of \<^verbatim>\<open>attention.py\<close> (lines 8 to 15). The components read
  them as globals, so they are constants here as well. Tensor entries are modelled as
  real numbers: rounding, overflow and NaN of 32-bit floats are outside the model, apart
  from the value \<^verbatim>\<open>float('-inf')\<close> that the causal mask writes, which is explicit.
\<close>

definition batch_size :: nat where "batch_size = 32"
definition block_size :: nat where "block_size = 8"
definition max_iters :: nat where "max_iters = 5000"
definition eval_interval :: nat where "eval_interval = 300"
definition eval_iters :: nat where "eval_iters = 200"
definition n_embd :: nat where "n_embd = 32"

section \<open>Tensors and the primitive operations of the tensor engine\<close>

text \<open>
  A tensor is a nested list, outermost dimension first. The engine's operations are not
  code of the repository; each is modelled by its documented meaning, and every shape
  check of the engine that the code can trip is a guard returning an error value. A
  nested list with no rows does not record the sizes of its inner dimensions, so a
  guard on an inner size reads the rows that are present; the statements below fix the
  shape of their inputs with \<open>is_mat\<close> and \<open>shape3\<close>.
\<close>

type_synonym vec = "real list"
type_synonym mat = "real list list"
type_synonym tensor3 = "real list list list"

datatype error = RuntimeError | IndexError | ZeroDivisionError | ValueError | AttributeError

text \<open>\<open>is_mat r c m\<close>: \<open>m\<close> has shape \<open>(r, c)\<close>; \<open>shape3 B T D x\<close>: \<open>x\<close> has shape \<open>(B, T, D)\<close>.\<close>

definition is_mat :: "nat \<Rightarrow> nat \<Rightarrow> 'a list list \<Rightarrow> bool" where
  "is_mat r c m = (length m = r \<and> list_all (\<lambda>v. length v = c) m)"

definition shape3 :: "nat \<Rightarrow> nat \<Rightarrow> nat \<Rightarrow> 'a list list list \<Rightarrow> bool" where
  "shape3 B T D x = (length x = B \<and> list_all (is_mat T D) x)"

text \<open>The size of the last dimension is \<open>n\<close> on every row present.\<close>

definition last_dim_is :: "nat \<Rightarrow> 'a list list list \<Rightarrow> bool" where
  "last_dim_is n x = list_all (list_all (\<lambda>v. length v = n)) x"

definition dot :: "vec \<Rightarrow> vec \<Rightarrow> real" where
  "dot u v = sum_list (map2 (*) u v)"

text \<open>
  \<^verbatim>\<open>a @ b.transpose(-2, -1)\<close> on one batch element: entry \<open>(t, s)\<close> is the inner product
  of row \<open>t\<close> of \<open>a\<close> with row \<open>s\<close> of \<open>b\<close>.
\<close>

definition matmul_transposed :: "mat \<Rightarrow> mat \<Rightarrow> mat" where
  "matmul_transposed a b = map (\<lambda>u. map (\<lambda>v. dot u v) b) a"

text \<open>
  \<^verbatim>\<open>w @ v\<close> on one batch element, \<open>v\<close> with \<open>c\<close> columns: entry \<open>(t, j)\<close> is
  \<open>\<Sum>s. w[t][s] * v[s][j]\<close>.
\<close>

definition matmul :: "nat \<Rightarrow> mat \<Rightarrow> mat \<Rightarrow> mat" where
  "matmul c w v =
     map (\<lambda>wt. map (\<lambda>j. \<Sum>s\<leftarrow>[0..<length v]. wt ! s * v ! s ! j) [0..<c]) w"

text \<open>Scores after \<^verbatim>\<open>masked_fill(..., float('-inf'))\<close>: a real number or minus infinity.\<close>

datatype xreal = NegInf | Fin real

fun exp_x :: "xreal \<Rightarrow> real" where
  "exp_x NegInf = 0"
| "exp_x (Fin r) = exp r"

text \<open>
  \<^verbatim>\<open>wei.masked_fill(mask == 0, float('-inf'))\<close> on one batch element, for a mask of the
  same shape.
\<close>

definition masked_fill :: "mat \<Rightarrow> mat \<Rightarrow> xreal list list" where
  "masked_fill wei msk =
     map2 (\<lambda>wrow mrow. map2 (\<lambda>w m. if m = 0 then NegInf else Fin w) wrow mrow) wei msk"

text \<open>
  \<^verbatim>\<open>F.softmax(..., dim=-1)\<close> on one row. A row of minus infinities only, where the
  engine returns NaN, does not occur under the causal mask, which keeps the diagonal.
\<close>

definition softmax_x :: "xreal list \<Rightarrow> real list" where
  "softmax_x row = map (\<lambda>e. exp_x e / sum_list (map exp_x row)) row"

definition softmax :: "vec \<Rightarrow> vec" where
  "softmax row = map (\<lambda>e. exp e / sum_list (map exp row)) row"

text \<open>\<^verbatim>\<open>torch.tril(torch.ones(n, n))\<close>.\<close>

definition tril_ones :: "nat \<Rightarrow> mat" where
  "tril_ones n = map (\<lambda>i. map (\<lambda>j. if j \<le> i then 1 else 0) [0..<n]) [0..<n]"

section \<open>Linear layers\<close>

text \<open>
  \<^verbatim>\<open>nn.Linear(in_features, out_features, bias)\<close>: the weight has shape
  \<open>(out_features, in_features)\<close>. The initial parameter values are drawn at random by
  the framework; \<open>vals\<close> is the sequence of drawn values in creation order, and every
  constructor returns the rest of the sequence.
\<close>

record Linear =
  in_features :: nat
  out_features :: nat
  weight :: mat
  bias :: "vec option"

definition take_mat :: "nat \<Rightarrow> nat \<Rightarrow> (nat \<Rightarrow> real) \<Rightarrow> mat" where
  "take_mat r c vals = map (\<lambda>i. map (\<lambda>j. vals (i * c + j)) [0..<c]) [0..<r]"

definition skip :: "nat \<Rightarrow> (nat \<Rightarrow> real) \<Rightarrow> (nat \<Rightarrow> real)" where
  "skip n vals = (\<lambda>k. vals (k + n))"

definition Linear_init :: "nat \<Rightarrow> nat \<Rightarrow> bool \<Rightarrow> (nat \<Rightarrow> real) \<Rightarrow> Linear \<times> (nat \<Rightarrow> real)" where
  "Linear_init n_in n_out with_bias vals =
     (if with_bias
      then (\<lparr>in_features = n_in, out_features = n_out,
             weight = take_mat n_out n_in vals,
             bias = Some (map (skip (n_out * n_in) vals) [0..<n_out])\<rparr>,
            skip (n_out * n_in + n_out) vals)
      else (\<lparr>in_features = n_in, out_features = n_out,
             weight = take_mat n_out n_in vals, bias = None\<rparr>,
            skip (n_out * n_in) vals))"

definition wf_Linear :: "nat \<Rightarrow> nat \<Rightarrow> bool \<Rightarrow> Linear \<Rightarrow> bool" where
  "wf_Linear n_in n_out with_bias L =
     (in_features L = n_in \<and> out_features L = n_out \<and> is_mat n_out n_in (weight L) \<and>
      (case bias L of None \<Rightarrow> \<not> with_bias | Some b \<Rightarrow> with_bias \<and> length b = n_out))"

text \<open>The layer on one vector of the last dimension (whose size the caller has checked).\<close>

definition Linear_vec :: "Linear \<Rightarrow> vec \<Rightarrow> vec" where
  "Linear_vec L v =
     (case bias L of
        None \<Rightarrow> map (\<lambda>w. dot w v) (weight L)
      | Some b \<Rightarrow> map2 (\<lambda>w c. dot w v + c) (weight L) b)"

text \<open>
  The layer on a \<open>(B, T, in_features)\<close> tensor; the engine raises a RuntimeError when the
  last dimension is not \<open>in_features\<close>.
\<close>

definition Linear_forward :: "Linear \<Rightarrow> tensor3 \<Rightarrow> error + tensor3" where
  "Linear_forward L x =
     (if last_dim_is (in_features L) x then Inr (map (map (Linear_vec L)) x)
      else Inl RuntimeError)"

section \<open>One head of self-attention\<close>

text \<open>\<^verbatim>\<open>class Head\<close>, lines 65 to 86. The field \<open>valu\<close> is the source's \<^verbatim>\<open>value\<close>.\<close>

record Head =
  key :: Linear
  query :: Linear
  valu :: Linear
  tril :: mat

definition Head_init :: "nat \<Rightarrow> (nat \<Rightarrow> real) \<Rightarrow> Head \<times> (nat \<Rightarrow> real)" where
  "Head_init head_size vals =
     (let (k, vals1) = Linear_init n_embd head_size False vals;
          (q, vals2) = Linear_init n_embd head_size False vals1;
          (v, vals3) = Linear_init n_embd head_size False vals2
      in (\<lparr>key = k, query = q, valu = v, tril = tril_ones block_size\<rparr>, vals3))"

definition wf_Head :: "nat \<Rightarrow> Head \<Rightarrow> bool" where
  "wf_Head head_size h =
     (wf_Linear n_embd head_size False (key h) \<and>
      wf_Linear n_embd head_size False (query h) \<and>
      wf_Linear n_embd head_size False (valu h) \<and>
      tril h = tril_ones block_size)"

text \<open>
  \<^verbatim>\<open>self.tril[:T, :T]\<close>: the first \<open>T\<close> rows, and of each the first \<open>T\<close> entries.
\<close>

definition tril_slice :: "Head \<Rightarrow> nat \<Rightarrow> mat" where
  "tril_slice h T = map (take T) (take T (tril h))"

text \<open>
  Lines 77 to 82 on one batch element \<open>xb\<close> of shape \<open>(T, C)\<close>: the attention weights
  after the softmax. \<^verbatim>\<open>k.size(-1)\<close> is the output width of the key projection.
\<close>

definition attention_scores :: "Head \<Rightarrow> mat \<Rightarrow> mat" where
  "attention_scores h xb =
     (let k = map (Linear_vec (key h)) xb;
          q = map (Linear_vec (query h)) xb
      in map (map (\<lambda>w. w * real (out_features (key h)) powr (- (1 / 2))))
           (matmul_transposed q k))"

definition attention_weights :: "Head \<Rightarrow> mat \<Rightarrow> mat" where
  "attention_weights h xb =
     map softmax_x (masked_fill (attention_scores h xb) (tril_slice h (length xb)))"

text \<open>
  \<^verbatim>\<open>Head.forward\<close>. The guards follow the order of the statements that can raise: the
  key and query projections (last dimension), the product \<^verbatim>\<open>q @ k.transpose(-2, -1)\<close>
  (equal widths), \<^verbatim>\<open>k.size(-1)**-0.5\<close> (Python raises ZeroDivisionError for
  \<^verbatim>\<open>0 ** -0.5\<close>), \<^verbatim>\<open>masked_fill\<close> (for \<open>T\<close> above \<open>block_size = 8\<close> the sliced mask stays
  \<open>(8, 8)\<close> and does not broadcast to \<open>(B, T, T)\<close>), and the value projection.
\<close>

definition Head_forward :: "Head \<Rightarrow> tensor3 \<Rightarrow> error + tensor3" where
  "Head_forward h x =
     (if \<not> last_dim_is (in_features (key h)) x then Inl RuntimeError
      else if \<not> last_dim_is (in_features (query h)) x then Inl RuntimeError
      else if out_features (query h) \<noteq> out_features (key h) then Inl RuntimeError
      else if out_features (key h) = 0 then Inl ZeroDivisionError
      else if \<not> list_all (\<lambda>xb. length xb \<le> length (tril h)) x then Inl RuntimeError
      else if \<not> last_dim_is (in_features (valu h)) x then Inl RuntimeError
      else Inr (map (\<lambda>xb. matmul (out_features (valu h)) (attention_weights h xb)
                            (map (Linear_vec (valu h)) xb)) x))"

text \<open>
  Abbreviations used in the statements below: the scaled score of query position \<open>t\<close>
  against key position \<open>s\<close>, and the softmax denominator of row \<open>t\<close> under the causal
  mask.
\<close>

definition sc :: "Head \<Rightarrow> mat \<Rightarrow> nat \<Rightarrow> nat \<Rightarrow> real" where
  "sc h xb t s = dot (Linear_vec (query h) (xb ! t)) (Linear_vec (key h) (xb ! s)) *
                 real (out_features (key h)) powr (- (1 / 2))"

definition Z :: "Head \<Rightarrow> mat \<Rightarrow> nat \<Rightarrow> real" where
  "Z h xb t = (\<Sum>s\<leftarrow>[0..<Suc t]. exp (sc h xb t s))"

section \<open>Multi-head attention\<close>

text \<open>
  \<^verbatim>\<open>class MultiHeadAttention\<close>, lines 88 to 99. \<open>bind_e\<close> sequences two steps, the first
  error raised ending the computation.
\<close>

definition bind_e :: "error + 'a \<Rightarrow> ('a \<Rightarrow> error + 'b) \<Rightarrow> error + 'b" where
  "bind_e r f = (case r of Inl e \<Rightarrow> Inl e | Inr v \<Rightarrow> f v)"

record MultiHeadAttention =
  heads :: "Head list"
  proj :: Linear

fun Heads_init :: "nat \<Rightarrow> nat \<Rightarrow> (nat \<Rightarrow> real) \<Rightarrow> Head list \<times> (nat \<Rightarrow> real)" where
  "Heads_init 0 head_size vals = ([], vals)"
| "Heads_init (Suc n) head_size vals =
     (let (h, vals1) = Head_init head_size vals;
          (hs, vals2) = Heads_init n head_size vals1
      in (h # hs, vals2))"

definition MultiHeadAttention_init ::
  "nat \<Rightarrow> nat \<Rightarrow> (nat \<Rightarrow> real) \<Rightarrow> MultiHeadAttention \<times> (nat \<Rightarrow> real)" where
  "MultiHeadAttention_init num_heads head_size vals =
     (let (hs, vals1) = Heads_init num_heads head_size vals;
          (p, vals2) = Linear_init n_embd n_embd True vals1
      in (\<lparr>heads = hs, proj = p\<rparr>, vals2))"

definition wf_MultiHeadAttention :: "nat \<Rightarrow> nat \<Rightarrow> MultiHeadAttention \<Rightarrow> bool" where
  "wf_MultiHeadAttention num_heads head_size m =
     (length (heads m) = num_heads \<and> list_all (wf_Head head_size) (heads m) \<and>
      wf_Linear n_embd n_embd True (proj m))"

text \<open>\<^verbatim>\<open>[h(x) for h in self.heads]\<close>: the heads in list order, stopping at the first error.\<close>

fun heads_forward :: "Head list \<Rightarrow> tensor3 \<Rightarrow> error + tensor3 list" where
  "heads_forward [] x = Inr []"
| "heads_forward (h # hs) x =
     bind_e (Head_forward h x) (\<lambda>out. bind_e (heads_forward hs x) (\<lambda>outs. Inr (out # outs)))"

text \<open>
  \<^verbatim>\<open>torch.cat(outs, dim=-1)\<close> for tensors that agree on the first two dimensions: at
  every batch element and position the feature vectors are joined in list order.
\<close>

fun cat_last :: "tensor3 list \<Rightarrow> tensor3" where
  "cat_last [] = []"
| "cat_last [out] = out"
| "cat_last (out # outs) = map2 (map2 (@)) out (cat_last outs)"

text \<open>
  \<^verbatim>\<open>MultiHeadAttention.forward\<close>; \<^verbatim>\<open>torch.cat\<close> raises a RuntimeError on an empty
  list of tensors.
\<close>

definition MultiHeadAttention_forward :: "MultiHeadAttention \<Rightarrow> tensor3 \<Rightarrow> error + tensor3" where
  "MultiHeadAttention_forward m x =
     bind_e (heads_forward (heads m) x)
       (\<lambda>outs. if outs = [] then Inl RuntimeError
               else Linear_forward (proj m) (cat_last outs))"

section \<open>Feed-forward block, layer normalisation\<close>

text \<open>
  \<^verbatim>\<open>class FeedForward\<close>, lines 101 to 114: \<open>lin1\<close> and \<open>lin2\<close> are the two linear layers
  of \<^verbatim>\<open>self.net\<close>, with the ReLU between them.
\<close>

record FeedForward =
  lin1 :: Linear
  lin2 :: Linear

definition FeedForward_init :: "nat \<Rightarrow> (nat \<Rightarrow> real) \<Rightarrow> FeedForward \<times> (nat \<Rightarrow> real)" where
  "FeedForward_init n vals =
     (let (a, vals1) = Linear_init n (4 * n) True vals;
          (b, vals2) = Linear_init (4 * n) n True vals1
      in (\<lparr>lin1 = a, lin2 = b\<rparr>, vals2))"

definition wf_FeedForward :: "FeedForward \<Rightarrow> bool" where
  "wf_FeedForward f =
     (wf_Linear n_embd (4 * n_embd) True (lin1 f) \<and> wf_Linear (4 * n_embd) n_embd True (lin2 f))"

definition relu :: "real \<Rightarrow> real" where
  "relu r = max 0 r"

definition FeedForward_forward :: "FeedForward \<Rightarrow> tensor3 \<Rightarrow> error + tensor3" where
  "FeedForward_forward f x =
     bind_e (Linear_forward (lin1 f) x)
       (\<lambda>a. Linear_forward (lin2 f) (map (map (map relu)) a))"

text \<open>
  \<^verbatim>\<open>nn.LayerNorm(n)\<close>: over the last dimension, with the biased variance, a weight
  initialised to ones, a bias initialised to zeros and \<open>eps = 1e-5\<close>.
\<close>

record LayerNorm =
  normalized_shape :: nat
  ln_weight :: vec
  ln_bias :: vec
  eps :: real

definition LayerNorm_init :: "nat \<Rightarrow> LayerNorm" where
  "LayerNorm_init n =
     \<lparr>normalized_shape = n, ln_weight = replicate n 1, ln_bias = replicate n 0,
      eps = 1 / 100000\<rparr>"

definition wf_LayerNorm :: "LayerNorm \<Rightarrow> bool" where
  "wf_LayerNorm l =
     (normalized_shape l = n_embd \<and> length (ln_weight l) = n_embd \<and>
      length (ln_bias l) = n_embd)"

definition mean :: "vec \<Rightarrow> real" where
  "mean v = sum_list v / real (length v)"

definition LayerNorm_vec :: "LayerNorm \<Rightarrow> vec \<Rightarrow> vec" where
  "LayerNorm_vec l v =
     (let mu = mean v;
          var = mean (map (\<lambda>a. (a - mu)\<^sup>2) v)
      in map2 (\<lambda>a (w, b). (a - mu) / sqrt (var + eps l) * w + b) v
           (zip (ln_weight l) (ln_bias l)))"

definition LayerNorm_forward :: "LayerNorm \<Rightarrow> tensor3 \<Rightarrow> error + tensor3" where
  "LayerNorm_forward l x =
     (if last_dim_is (normalized_shape l) x then Inr (map (map (LayerNorm_vec l)) x)
      else Inl RuntimeError)"

section \<open>Transformer block\<close>

text \<open>
  \<^verbatim>\<open>class Block\<close>, lines 116 to 131. The constructor's first parameter is spelled
  \<^verbatim>\<open>n_emd\<close> and is not used: the body reads the global \<^verbatim>\<open>n_embd\<close>. The integer
  division \<^verbatim>\<open>n_embd // n_head\<close> raises ZeroDivisionError for \<open>n_head = 0\<close>; the head
  count is a natural number here.
\<close>

record Block =
  sa :: MultiHeadAttention
  ffwd :: FeedForward
  ln1 :: LayerNorm
  ln2 :: LayerNorm

definition Block_init :: "nat \<Rightarrow> nat \<Rightarrow> (nat \<Rightarrow> real) \<Rightarrow> error + Block \<times> (nat \<Rightarrow> real)" where
  "Block_init n_emd n_head vals =
     (if n_head = 0 then Inl ZeroDivisionError
      else let head_size = n_embd div n_head;
               (a, vals1) = MultiHeadAttention_init n_head head_size vals;
               (f, vals2) = FeedForward_init n_embd vals1
           in Inr (\<lparr>sa = a, ffwd = f, ln1 = LayerNorm_init n_embd, ln2 = LayerNorm_init n_embd\<rparr>,
                   vals2))"

definition wf_Block :: "nat \<Rightarrow> Block \<Rightarrow> bool" where
  "wf_Block n_head b =
     (wf_MultiHeadAttention n_head (n_embd div n_head) (sa b) \<and> wf_FeedForward (ffwd b) \<and>
      wf_LayerNorm (ln1 b) \<and> wf_LayerNorm (ln2 b))"

text \<open>Elementwise \<^verbatim>\<open>x + y\<close> of two tensors of the same shape.\<close>

definition tadd :: "tensor3 \<Rightarrow> tensor3 \<Rightarrow> tensor3" where
  "tadd x y = map2 (map2 (map2 (+))) x y"

definition Block_forward :: "Block \<Rightarrow> tensor3 \<Rightarrow> error + tensor3" where
  "Block_forward b x =
     bind_e (LayerNorm_forward (ln1 b) x) (\<lambda>n1.
     bind_e (MultiHeadAttention_forward (sa b) n1) (\<lambda>a.
     let x1 = tadd x a in
     bind_e (LayerNorm_forward (ln2 b) x1) (\<lambda>n2.
     bind_e (FeedForward_forward (ffwd b) n2) (\<lambda>f.
     Inr (tadd x1 f)))))"

section \<open>The language model\<close>

text \<open>
  \<^verbatim>\<open>nn.Embedding(num_embeddings, embedding_dim)\<close>: a lookup table; an index outside
  \<open>[0, num_embeddings)\<close> raises an IndexError. Indices are natural numbers.
\<close>

record Embedding =
  num_embeddings :: nat
  embedding_dim :: nat
  emb_weight :: mat

definition Embedding_init :: "nat \<Rightarrow> nat \<Rightarrow> (nat \<Rightarrow> real) \<Rightarrow> Embedding \<times> (nat \<Rightarrow> real)" where
  "Embedding_init n d vals =
     (\<lparr>num_embeddings = n, embedding_dim = d, emb_weight = take_mat n d vals\<rparr>,
      skip (n * d) vals)"

definition wf_Embedding :: "nat \<Rightarrow> nat \<Rightarrow> Embedding \<Rightarrow> bool" where
  "wf_Embedding n d e =
     (num_embeddings e = n \<and> embedding_dim e = d \<and> is_mat n d (emb_weight e))"

text \<open>The table on an index tensor of one dimension, and of two.\<close>

definition Embedding_forward1 :: "Embedding \<Rightarrow> nat list \<Rightarrow> error + mat" where
  "Embedding_forward1 e ids =
     (if list_all (\<lambda>i. i < num_embeddings e) ids then Inr (map (\<lambda>i. emb_weight e ! i) ids)
      else Inl IndexError)"

definition Embedding_forward2 :: "Embedding \<Rightarrow> nat list list \<Rightarrow> error + tensor3" where
  "Embedding_forward2 e idx =
     (if list_all (list_all (\<lambda>i. i < num_embeddings e)) idx
      then Inr (map (map (\<lambda>i. emb_weight e ! i)) idx)
      else Inl IndexError)"

text \<open>
  \<^verbatim>\<open>class BigramLanguageModel\<close>, lines 134 to 186. \<^verbatim>\<open>self.blocks\<close> is a sequence of
  three blocks and a final layer normalisation: \<open>blocks\<close> holds the blocks and
  \<open>blocks_ln\<close> the normalisation. \<open>training\<close> is the mode flag that \<^verbatim>\<open>model.eval()\<close> and
  \<^verbatim>\<open>model.train()\<close> set. The vocabulary size comes from the input text and is a
  parameter of the constructor.
\<close>

record BigramLanguageModel =
  token_embedding_table :: Embedding
  position_embedding_table :: Embedding
  blocks :: "Block list"
  blocks_ln :: LayerNorm
  lm_head :: Linear
  training :: bool

definition BigramLanguageModel_init ::
  "nat \<Rightarrow> (nat \<Rightarrow> real) \<Rightarrow> error + BigramLanguageModel \<times> (nat \<Rightarrow> real)" where
  "BigramLanguageModel_init vocab_size vals =
     (let (te, vals1) = Embedding_init vocab_size n_embd vals;
          (pe, vals2) = Embedding_init block_size n_embd vals1
      in bind_e (Block_init n_embd 4 vals2) (\<lambda>(b1, vals3).
         bind_e (Block_init n_embd 4 vals3) (\<lambda>(b2, vals4).
         bind_e (Block_init n_embd 4 vals4) (\<lambda>(b3, vals5).
         let (lh, vals6) = Linear_init n_embd vocab_size True vals5
         in Inr (\<lparr>token_embedding_table = te, position_embedding_table = pe,
                  blocks = [b1, b2, b3], blocks_ln = LayerNorm_init n_embd,
                  lm_head = lh, training = True\<rparr>, vals6)))))"

definition wf_model :: "nat \<Rightarrow> BigramLanguageModel \<Rightarrow> bool" where
  "wf_model vocab_size m =
     (wf_Embedding vocab_size n_embd (token_embedding_table m) \<and>
      wf_Embedding block_size n_embd (position_embedding_table m) \<and>
      length (blocks m) = 3 \<and> list_all (wf_Block 4) (blocks m) \<and>
      wf_LayerNorm (blocks_ln m) \<and> wf_Linear n_embd vocab_size True (lm_head m))"

fun blocks_forward :: "Block list \<Rightarrow> tensor3 \<Rightarrow> error + tensor3" where
  "blocks_forward [] x = Inr x"
| "blocks_forward (b # bs) x = bind_e (Block_forward b x) (blocks_forward bs)"

text \<open>
  A scalar result of the engine: a number, or NaN where the engine divides zero by
  zero (the mean of no values).
\<close>

datatype scalar = Nan | Val real

text \<open>
  \<^verbatim>\<open>F.cross_entropy(logits, targets)\<close> for logits of shape \<open>(N, C)\<close> and \<open>N\<close> class
  indices, with the default mean reduction: the mean over the \<open>N\<close> rows of minus the
  logarithm of the softmax probability of the row's target. A target outside \<open>[0, C)\<close>
  raises an IndexError, different batch sizes a ValueError.
\<close>

definition cross_entropy :: "mat \<Rightarrow> nat list \<Rightarrow> error + scalar" where
  "cross_entropy logits targets =
     (if length logits \<noteq> length targets then Inl ValueError
      else if \<not> list_all2 (\<lambda>row t. t < length row) logits targets then Inl IndexError
      else if logits = [] then Inr Nan
      else Inr (Val (sum_list (map2 (\<lambda>row t. - ln (softmax row ! t)) logits targets) /
                     real (length logits))))"

text \<open>
  The logits a forward pass returns: of shape \<open>(B, T, vocab_size)\<close> without targets, and
  the view of shape \<open>(B*T, vocab_size)\<close> with targets (line 165 rebinds \<^verbatim>\<open>logits\<close>).
\<close>

datatype logits_t = Logits3 tensor3 | Logits2 mat

text \<open>
  \<^verbatim>\<open>BigramLanguageModel.forward\<close>, lines 151 to 169. \<^verbatim>\<open>B, T = idx.shape\<close>: in the
  nested-list model an empty batch carries no \<open>T\<close>, which is then 0.
  \<^verbatim>\<open>targets.view(B*T)\<close> raises a RuntimeError unless the targets have \<open>B*T\<close> entries.
\<close>

definition forward ::
  "BigramLanguageModel \<Rightarrow> nat list list \<Rightarrow> nat list list option \<Rightarrow>
   error + logits_t \<times> scalar option" where
  "forward m idx targets =
     (let B = length idx;
          T = (case idx of [] \<Rightarrow> 0 | row # _ \<Rightarrow> length row)
      in bind_e (Embedding_forward2 (token_embedding_table m) idx) (\<lambda>tok_emb.
         bind_e (Embedding_forward1 (position_embedding_table m) [0..<T]) (\<lambda>pos_emb.
         let x = map (\<lambda>tb. map2 (map2 (+)) tb pos_emb) tok_emb in
         bind_e (blocks_forward (blocks m) x) (\<lambda>x1.
         bind_e (LayerNorm_forward (blocks_ln m) x1) (\<lambda>x2.
         bind_e (Linear_forward (lm_head m) x2) (\<lambda>logits.
         case targets of
           None \<Rightarrow> Inr (Logits3 logits, None)
         | Some tg \<Rightarrow>
             if length (concat tg) \<noteq> B * T then Inl RuntimeError
             else bind_e (cross_entropy (concat logits) (concat tg)) (\<lambda>loss.
                  Inr (Logits2 (concat logits), Some loss))))))))"

section \<open>Random sampling\<close>

text \<open>
  The engine's random generator is a stream of raw draws; an operation that draws \<open>n\<close>
  values returns the stream advanced by \<open>n\<close>. \<^verbatim>\<open>torch.randint(high, (n,))\<close> returns \<open>n\<close>
  integers of \<open>[0, high)\<close>, and raises a RuntimeError unless \<open>0 < high\<close>.
  \<^verbatim>\<open>torch.multinomial(probs, num_samples=1)\<close> draws for every row one index, index \<open>i\<close>
  with probability \<open>probs[i]\<close>: here by inverting the cumulative distribution at a
  uniform draw of \<open>[0, 1)\<close>. It raises a RuntimeError on a row with no category.
\<close>

type_synonym rng = "nat \<Rightarrow> nat"

definition advance :: "nat \<Rightarrow> rng \<Rightarrow> rng" where
  "advance n g = (\<lambda>k. g (k + n))"

definition randint :: "int \<Rightarrow> nat \<Rightarrow> rng \<Rightarrow> error + nat list \<times> rng" where
  "randint high n g =
     (if high \<le> 0 then Inl RuntimeError
      else Inr (map (\<lambda>k. g k mod nat high) [0..<n], advance n g))"

definition uniform01 :: "nat \<Rightarrow> real" where
  "uniform01 r = real (r mod 2 ^ 24) / 2 ^ 24"

fun sample_index :: "real \<Rightarrow> real list \<Rightarrow> nat" where
  "sample_index u [] = 0"
| "sample_index u [p] = 0"
| "sample_index u (p # ps) = (if u < p then 0 else Suc (sample_index (u - p) ps))"

definition multinomial :: "mat \<Rightarrow> rng \<Rightarrow> error + nat list \<times> rng" where
  "multinomial probs g =
     (if \<not> list_all (\<lambda>p. p \<noteq> []) probs then Inl RuntimeError
      else Inr (map (\<lambda>b. sample_index (uniform01 (g b)) (probs ! b)) [0..<length probs],
                advance (length probs) g))"

section \<open>Generation\<close>

text \<open>
  \<^verbatim>\<open>idx[:, -block_size:]\<close> on one row: the last \<open>block_size\<close> entries, the whole row when
  it is shorter (and for \<open>block_size = 0\<close>, where \<^verbatim>\<open>-0\<close> is \<^verbatim>\<open>0\<close>).
\<close>

definition crop :: "nat list \<Rightarrow> nat list" where
  "crop row = (if block_size = 0 then row else drop (length row - block_size) row)"

text \<open>
  \<^verbatim>\<open>BigramLanguageModel.generate\<close>, lines 171 to 186: one equation per state of the
  loop counter. \<^verbatim>\<open>logits[:, -1, :]\<close> raises an IndexError when there is no time step.
\<close>

fun generate ::
  "BigramLanguageModel \<Rightarrow> nat list list \<Rightarrow> nat \<Rightarrow> rng \<Rightarrow> error + nat list list \<times> rng" where
  "generate m idx 0 g = Inr (idx, g)"
| "generate m idx (Suc n) g =
     bind_e (forward m (map crop idx) None) (\<lambda>(logits, loss).
       case logits of
         Logits2 l \<Rightarrow> Inl IndexError
       | Logits3 l \<Rightarrow>
           if \<not> list_all (\<lambda>lb. lb \<noteq> []) l then Inl IndexError
           else bind_e (multinomial (map (\<lambda>lb. softmax (last lb)) l) g) (\<lambda>(idx_next, g').
                generate m (map2 (\<lambda>row nxt. row @ [nxt]) idx idx_next) n g'))"

section \<open>Batches\<close>

text \<open>
  The two splits of the encoded text (lines 36 to 39) are inputs. \<open>slice i j\<close> is the
  Python slice \<^verbatim>\<open>data[i:j]\<close> for \<open>0 \<le> i \<le> j\<close>, which stops at the end of the data
  without an error. \<^verbatim>\<open>torch.stack\<close> raises a RuntimeError on an empty list of tensors and
  on tensors of different sizes.
\<close>

record corpus =
  train_data :: "nat list"
  val_data :: "nat list"

definition slice :: "nat \<Rightarrow> nat \<Rightarrow> 'a list \<Rightarrow> 'a list" where
  "slice i j xs = take (j - i) (drop i xs)"

definition stack :: "'a list list \<Rightarrow> error + 'a list list" where
  "stack ts =
     (case ts of
        [] \<Rightarrow> Inl RuntimeError
      | t # _ \<Rightarrow> if list_all (\<lambda>u. length u = length t) ts then Inr ts else Inl RuntimeError)"

text \<open>\<^verbatim>\<open>get_batch\<close>, lines 42 to 49.\<close>

definition get_batch ::
  "corpus \<Rightarrow> string \<Rightarrow> rng \<Rightarrow> error + (nat list list \<times> nat list list) \<times> rng" where
  "get_batch c split g =
     (let data = (if split = ''train'' then train_data c else val_data c)
      in bind_e (randint (int (length data) - int block_size) batch_size g) (\<lambda>(ix, g').
         bind_e (stack (map (\<lambda>i. slice i (i + block_size) data) ix)) (\<lambda>x.
         bind_e (stack (map (\<lambda>i. slice (i + 1) (i + block_size + 1) data) ix)) (\<lambda>y.
         Inr ((x, y), g')))))"

section \<open>Loss estimation and the training loop\<close>

text \<open>
  The state the script threads through its statements: the model (parameters and
  mode flag), the random generator, the optimizer's own state, and the records
  printed so far, each the iteration with the two entries of the dictionary of losses.
\<close>

record 'o train_state =
  model :: BigramLanguageModel
  gen :: rng
  opt :: 'o
  printed :: "(nat \<times> scalar option \<times> scalar option) list"

fun the_val :: "scalar \<Rightarrow> real" where
  "the_val (Val r) = r"
| "the_val Nan = 0"

text \<open>\<^verbatim>\<open>losses.mean()\<close>: NaN for no values and when a value is NaN.\<close>

definition scalar_mean :: "scalar list \<Rightarrow> scalar" where
  "scalar_mean ls =
     (if ls = [] \<or> Nan \<in> set ls then Nan
      else Val (sum_list (map the_val ls) / real (length ls)))"

text \<open>
  The first \<open>k\<close> rounds of the inner loop of \<^verbatim>\<open>estimate_loss\<close> (lines 57 to 60) for one
  split: the losses stored so far, and the state. \<^verbatim>\<open>loss.item()\<close> on \<^verbatim>\<open>None\<close> raises an
  AttributeError.
\<close>

fun eval_iterations ::
  "corpus \<Rightarrow> string \<Rightarrow> nat \<Rightarrow> 'o train_state \<Rightarrow> error + scalar list \<times> 'o train_state" where
  "eval_iterations c split 0 st = Inr ([], st)"
| "eval_iterations c split (Suc k) st =
     bind_e (eval_iterations c split k st) (\<lambda>(losses, st1).
     bind_e (get_batch c split (gen st1)) (\<lambda>((X, Y), g').
     bind_e (forward (model st1) X (Some Y)) (\<lambda>(logits, loss).
       case loss of
         None \<Rightarrow> Inl AttributeError
       | Some l \<Rightarrow> Inr (losses @ [l], st1\<lparr>gen := g'\<rparr>))))"

text \<open>The outer loop (lines 55 to 61) over the list of split names, filling \<^verbatim>\<open>out\<close>.\<close>

fun eval_splits ::
  "corpus \<Rightarrow> string list \<Rightarrow> (string \<rightharpoonup> scalar) \<Rightarrow> 'o train_state \<Rightarrow>
   error + (string \<rightharpoonup> scalar) \<times> 'o train_state" where
  "eval_splits c [] out st = Inr (out, st)"
| "eval_splits c (split # rest) out st =
     bind_e (eval_iterations c split eval_iters st) (\<lambda>(losses, st1).
     eval_splits c rest (out(split \<mapsto> scalar_mean losses)) st1)"

text \<open>
  \<^verbatim>\<open>estimate_loss\<close>, lines 51 to 63. Gradients are not part of the state, so
  \<^verbatim>\<open>@torch.no_grad()\<close> has nothing to switch off here.
\<close>

definition estimate_loss ::
  "corpus \<Rightarrow> 'o train_state \<Rightarrow> error + (string \<rightharpoonup> scalar) \<times> 'o train_state" where
  "estimate_loss c st =
     (let st0 = st\<lparr>model := (model st)\<lparr>training := False\<rparr>\<rparr>
      in bind_e (eval_splits c [''train'', ''val''] Map.empty st0) (\<lambda>(out, st1).
         Inr (out, st1\<lparr>model := (model st1)\<lparr>training := True\<rparr>\<rparr>)))"

text \<open>
  One round of the training loop (lines 194 to 208) at iteration \<open>iter\<close>. The backward
  pass and the optimizer step belong to the engine: \<open>step\<close> stands for both, mapping
  the optimizer state, the model and the batch to the new optimizer state and model.
\<close>

definition train_iteration ::
  "('o \<Rightarrow> BigramLanguageModel \<Rightarrow> nat list list \<Rightarrow> nat list list \<Rightarrow> 'o \<times> BigramLanguageModel) \<Rightarrow>
   corpus \<Rightarrow> nat \<Rightarrow> 'o train_state \<Rightarrow> error + 'o train_state" where
  "train_iteration step c iter st =
     bind_e (if eval_interval = 0 then Inl ZeroDivisionError
             else if iter mod eval_interval = 0
             then bind_e (estimate_loss c st) (\<lambda>(losses, st1).
                  Inr (st1\<lparr>printed := printed st1 @ [(iter, losses ''train'', losses ''val'')]\<rparr>))
             else Inr st) (\<lambda>st1.
     bind_e (get_batch c ''train'' (gen st1)) (\<lambda>((xb, yb), g').
     bind_e (forward (model st1) xb (Some yb)) (\<lambda>(logits, loss).
       case loss of
         None \<Rightarrow> Inl AttributeError
       | Some l \<Rightarrow>
           let (o', m') = step (opt st1) (model st1) xb yb
           in Inr (st1\<lparr>model := m', gen := g', opt := o'\<rparr>))))"

text \<open>The first \<open>n\<close> rounds of the loop, iterations \<open>0\<close> to \<open>n - 1\<close>.\<close>

fun train_iterations ::
  "('o \<Rightarrow> BigramLanguageModel \<Rightarrow> nat list list \<Rightarrow> nat list list \<Rightarrow> 'o \<times> BigramLanguageModel) \<Rightarrow>
   corpus \<Rightarrow> nat \<Rightarrow> 'o train_state \<Rightarrow> error + 'o train_state" where
  "train_iterations step c 0 st = Inr st"
| "train_iterations step c (Suc n) st =
     bind_e (train_iterations step c n st) (train_iteration step c n)"

section \<open>The values of the layers on inputs that pass their checks\<close>

text \<open>
  The result each forward function returns when none of its guards fires, named so
  that the statements below can speak of it.
\<close>

definition Head_out :: "Head \<Rightarrow> tensor3 \<Rightarrow> tensor3" where
  "Head_out h x =
     map (\<lambda>xb. matmul (out_features (valu h)) (attention_weights h xb)
                  (map (Linear_vec (valu h)) xb)) x"

definition MultiHeadAttention_out :: "MultiHeadAttention \<Rightarrow> tensor3 \<Rightarrow> tensor3" where
  "MultiHeadAttention_out m x =
     map (map (Linear_vec (proj m))) (cat_last (map (\<lambda>h. Head_out h x) (heads m)))"

definition FeedForward_out :: "FeedForward \<Rightarrow> tensor3 \<Rightarrow> tensor3" where
  "FeedForward_out f x =
     map (map (Linear_vec (lin2 f))) (map (map (map relu)) (map (map (Linear_vec (lin1 f))) x))"

definition LayerNorm_out :: "LayerNorm \<Rightarrow> tensor3 \<Rightarrow> tensor3" where
  "LayerNorm_out l x = map (map (LayerNorm_vec l)) x"

definition Block_out :: "Block \<Rightarrow> tensor3 \<Rightarrow> tensor3" where
  "Block_out b x =
     (let x1 = tadd x (MultiHeadAttention_out (sa b) (LayerNorm_out (ln1 b) x))
      in tadd x1 (FeedForward_out (ffwd b) (LayerNorm_out (ln2 b) x1)))"

text \<open>
  \<open>residual\<close> and \<open>Block_spec\<close> follow the wording of the specification of the block, not
  the code: a sub-layer behind a normalisation, its output added to the input of the
  pair; the attention pair first, then the feed-forward pair.
\<close>

definition residual ::
  "(tensor3 \<Rightarrow> error + tensor3) \<Rightarrow> (tensor3 \<Rightarrow> error + tensor3) \<Rightarrow> tensor3 \<Rightarrow> error + tensor3" where
  "residual nrm sublayer x = bind_e (nrm x) (\<lambda>n. bind_e (sublayer n) (\<lambda>s. Inr (tadd x s)))"

definition Block_spec :: "Block \<Rightarrow> tensor3 \<Rightarrow> error + tensor3" where
  "Block_spec b x =
     bind_e (residual (LayerNorm_forward (ln1 b)) (MultiHeadAttention_forward (sa b)) x)
            (residual (LayerNorm_forward (ln2 b)) (FeedForward_forward (ffwd b)))"

text \<open>
  For the language model: \<open>tokens_below V idx\<close> says that every index is a symbol code of
  a vocabulary of size \<open>V\<close>; \<open>idx_T\<close> is the \<open>T\<close> the forward pass reads off the indices;
  \<open>embed\<close> is the sum of token and position embeddings, \<open>blocks_out\<close> the stack of blocks
  and \<open>logits_out\<close> the logits.
\<close>

definition tokens_below :: "nat \<Rightarrow> nat list list \<Rightarrow> bool" where
  "tokens_below V idx = list_all (list_all (\<lambda>i. i < V)) idx"

definition idx_T :: "nat list list \<Rightarrow> nat" where
  "idx_T idx = (case idx of [] \<Rightarrow> 0 | row # _ \<Rightarrow> length row)"

definition blocks_out :: "Block list \<Rightarrow> tensor3 \<Rightarrow> tensor3" where
  "blocks_out bs x = fold Block_out bs x"

definition embed :: "BigramLanguageModel \<Rightarrow> nat list list \<Rightarrow> tensor3" where
  "embed m idx =
     map (\<lambda>tb. map2 (map2 (+)) tb
                  (map (\<lambda>i. emb_weight (position_embedding_table m) ! i) [0..<idx_T idx]))
         (map (map (\<lambda>i. emb_weight (token_embedding_table m) ! i)) idx)"

definition logits_out :: "BigramLanguageModel \<Rightarrow> nat list list \<Rightarrow> tensor3" where
  "logits_out m idx =
     map (map (Linear_vec (lm_head m)))
       (LayerNorm_out (blocks_ln m) (blocks_out (blocks m) (embed m idx)))"

text \<open>
  For generation: the symbol one step appends to row \<open>b\<close> of the context \<open>ctx\<close> at
  generator state \<open>g\<close>, and the context with one symbol appended to every row.
\<close>

definition next_symbol :: "BigramLanguageModel \<Rightarrow> nat list list \<Rightarrow> rng \<Rightarrow> nat \<Rightarrow> nat" where
  "next_symbol m ctx g b =
     sample_index (uniform01 (g b)) (softmax (last (logits_out m (map crop ctx) ! b)))"

definition extend :: "nat list list \<Rightarrow> nat list \<Rightarrow> nat list list" where
  "extend idx nxt = map2 (\<lambda>row n. row @ [n]) idx nxt"

text \<open>
  For the batch sampler: the split a name selects, and the offsets
  \<^verbatim>\<open>torch.randint\<close> returns at generator state \<open>g\<close> for data longer than \<open>block_size\<close>.
\<close>

definition split_data :: "corpus \<Rightarrow> string \<Rightarrow> nat list" where
  "split_data c split = (if split = ''train'' then train_data c else val_data c)"

definition offsets :: "nat list \<Rightarrow> rng \<Rightarrow> nat list" where
  "offsets data g = map (\<lambda>k. g k mod (length data - block_size)) [0..<batch_size]"

text \<open>
  For loss estimation: both splits are longer than \<open>block_size\<close> and hold symbols below
  \<open>V\<close>; the loss of one round (one batch, one forward pass with targets) at generator
  state \<open>g\<close>; and the two mode switches \<^verbatim>\<open>model.eval()\<close> and \<^verbatim>\<open>model.train()\<close> on the state.
\<close>

definition corpus_ok :: "nat \<Rightarrow> corpus \<Rightarrow> bool" where
  "corpus_ok V c =
     (block_size < length (train_data c) \<and> block_size < length (val_data c) \<and>
      list_all (\<lambda>i. i < V) (train_data c) \<and> list_all (\<lambda>i. i < V) (val_data c))"

definition batch_loss :: "BigramLanguageModel \<Rightarrow> corpus \<Rightarrow> string \<Rightarrow> rng \<Rightarrow> scalar" where
  "batch_loss m c split g =
     (case get_batch c split g of
        Inl e \<Rightarrow> Nan
      | Inr ((X, Y), g') \<Rightarrow>
          (case forward m X (Some Y) of
             Inl e \<Rightarrow> Nan
           | Inr (logits, loss) \<Rightarrow> (case loss of None \<Rightarrow> Nan | Some l \<Rightarrow> l)))"

definition eval_mode :: "'o train_state \<Rightarrow> 'o train_state" where
  "eval_mode st = st\<lparr>model := (model st)\<lparr>training := False\<rparr>\<rparr>"

definition train_mode :: "'o train_state \<Rightarrow> 'o train_state" where
  "train_mode st = st\<lparr>model := (model st)\<lparr>training := True\<rparr>\<rparr>"

text \<open>
  Concrete inputs for the examples: a sequence of parameter values, a generator, a
  corpus of thirty symbols, a state around a model of vocabulary size 30, and an
  optimizer step that leaves the model as it is.
\<close>

definition example_vals :: "nat \<Rightarrow> real" where
  "example_vals k = real (k mod 7) / 10"

definition example_rng :: rng where
  "example_rng k = 7 * k + 3"

definition example_corpus :: corpus where
  "example_corpus = \<lparr>train_data = [0..<20], val_data = [20..<30]\<rparr>"

definition example_state :: "unit train_state" where
  "example_state =
     \<lparr>model = fst (projr (BigramLanguageModel_init 30 example_vals)), gen = example_rng,
      opt = (), printed = []\<rparr>"

definition example_step ::
  "unit \<Rightarrow> BigramLanguageModel \<Rightarrow> nat list list \<Rightarrow> nat list list \<Rightarrow> unit \<times> BigramLanguageModel" where
  "example_step os m x y = (os, m)"

section \<open>Properties of the attention head\<close>

lemma take_mat_is_mat: "is_mat r c (take_mat r c vals)"
  by (simp add: is_mat_def take_mat_def list_all_iff)

lemma Linear_init_wf: "wf_Linear n_in n_out b (fst (Linear_init n_in n_out b vals))"
  by (simp add: wf_Linear_def Linear_init_def take_mat_is_mat)

lemma Head_init_wf: "wf_Head hs (fst (Head_init hs vals))"
proof -
  obtain k v1 where k: "Linear_init n_embd hs False vals = (k, v1)"
    by (cases "Linear_init n_embd hs False vals")
  obtain q v2 where q: "Linear_init n_embd hs False v1 = (q, v2)"
    by (cases "Linear_init n_embd hs False v1")
  obtain v v3 where v: "Linear_init n_embd hs False v2 = (v, v3)"
    by (cases "Linear_init n_embd hs False v2")
  have "wf_Linear n_embd hs False k" using Linear_init_wf[of n_embd hs False vals] k by simp
  moreover have "wf_Linear n_embd hs False q" using Linear_init_wf[of n_embd hs False v1] q by simp
  moreover have "wf_Linear n_embd hs False v" using Linear_init_wf[of n_embd hs False v2] v by simp
  ultimately show ?thesis by (simp add: wf_Head_def Head_init_def k q v)
qed

lemma tril_slice_wf:
  assumes "tril h = tril_ones n" "T \<le> n"
  shows "tril_slice h T = tril_ones T"
  using assms by (simp add: tril_slice_def tril_ones_def take_map min_def)

lemma length_Linear_vec: "wf_Linear n_in n_out b L \<Longrightarrow> length (Linear_vec L v) = n_out"
  by (auto simp: wf_Linear_def Linear_vec_def is_mat_def split: option.splits)

lemma attention_scores_nth:
  "t < length xb \<Longrightarrow> s < length xb \<Longrightarrow> attention_scores h xb ! t ! s = sc h xb t s"
  by (simp add: attention_scores_def matmul_transposed_def sc_def Let_def)

lemma attention_scores_shape:
  "length (attention_scores h xb) = length xb"
  "t < length xb \<Longrightarrow> length (attention_scores h xb ! t) = length xb"
  by (simp_all add: attention_scores_def matmul_transposed_def Let_def)

lemma masked_row:
  assumes "tril h = tril_ones n" "length xb \<le> n" "t < length xb"
  shows "masked_fill (attention_scores h xb) (tril_slice h (length xb)) ! t =
         map (\<lambda>s. if s \<le> t then Fin (sc h xb t s) else NegInf) [0..<length xb]"
proof -
  have ts: "tril_slice h (length xb) = tril_ones (length xb)"
    using assms tril_slice_wf by blast
  show ?thesis
    unfolding ts masked_fill_def
    using assms(3)
    by (auto intro!: nth_equalityI simp: attention_scores_shape tril_ones_def attention_scores_nth)
qed

lemma length_masked:
  assumes "tril h = tril_ones n" "length xb \<le> n"
  shows "length (masked_fill (attention_scores h xb) (tril_slice h (length xb))) = length xb"
  using assms tril_slice_wf[OF assms]
  by (simp add: masked_fill_def attention_scores_shape tril_ones_def)

lemma sum_list_upt_if_le:
  fixes g :: "nat \<Rightarrow> real"
  assumes "t < T"
  shows "(\<Sum>s\<leftarrow>[0..<T]. if s \<le> t then g s else 0) = (\<Sum>s\<leftarrow>[0..<Suc t]. g s)"
proof -
  have e: "[0..<T] = [0..<Suc t] @ [Suc t..<T]"
    using upt_add_eq_append[of 0 "Suc t" "T - Suc t"] assms by simp
  have a: "(\<Sum>s\<leftarrow>[0..<Suc t]. if s \<le> t then g s else 0) = (\<Sum>s\<leftarrow>[0..<Suc t]. g s)"
    by (rule arg_cong[where f=sum_list], rule map_cong) auto
  have b: "(\<Sum>s\<leftarrow>[Suc t..<T]. if s \<le> t then g s else 0) = (\<Sum>s\<leftarrow>[Suc t..<T]. 0::real)"
    by (rule arg_cong[where f=sum_list], rule map_cong) auto
  have "(\<Sum>s\<leftarrow>[0..<T]. if s \<le> t then g s else 0) =
      (\<Sum>s\<leftarrow>[0..<Suc t]. if s \<le> t then g s else 0) + (\<Sum>s\<leftarrow>[Suc t..<T]. if s \<le> t then g s else 0)"
    by (subst e) (simp only: map_append sum_list_append)
  then show ?thesis unfolding a b by simp
qed

lemma exp_x_masked:
  "exp_x (if s \<le> t then Fin (f s) else NegInf) = (if s \<le> t then exp (f s) else 0)"
  by simp

lemma masked_denominator:
  assumes "t < T"
  shows "sum_list (map exp_x (map (\<lambda>s. if s \<le> t then Fin (f s) else NegInf) [0..<T])) =
         (\<Sum>s\<leftarrow>[0..<Suc t]. exp (f s))"
proof -
  have "sum_list (map exp_x (map (\<lambda>s. if s \<le> t then Fin (f s) else NegInf) [0..<T])) =
        (\<Sum>s\<leftarrow>[0..<T]. if s \<le> t then exp (f s) else 0)"
    by (simp add: comp_def exp_x_masked cong: if_cong)
  then show ?thesis using sum_list_upt_if_le[OF assms, of "\<lambda>s. exp (f s)"] by simp
qed

lemma sum_list_exp_pos:
  "xs \<noteq> [] \<Longrightarrow> 0 < (\<Sum>s\<leftarrow>xs. exp (f s :: real))"
proof (induction xs)
  case Nil
  then show ?case by simp
next
  case (Cons a xs)
  have "0 \<le> (\<Sum>s\<leftarrow>xs. exp (f s))"
    by (rule sum_list_nonneg) auto
  then show ?case
    by (simp add: add_pos_nonneg)
qed

lemma Z_pos: "0 < Z h xb t"
  unfolding Z_def by (rule sum_list_exp_pos) simp

lemma attention_weights_row:
  assumes "tril h = tril_ones n" "length xb \<le> n" "t < length xb"
  shows "attention_weights h xb ! t =
         map (\<lambda>s. if s \<le> t then exp (sc h xb t s) / Z h xb t else 0) [0..<length xb]"
proof -
  let ?row = "map (\<lambda>s. if s \<le> t then Fin (sc h xb t s) else NegInf) [0..<length xb]"
  have "attention_weights h xb ! t = softmax_x ?row"
    using assms by (simp add: attention_weights_def length_masked masked_row)
  moreover have "sum_list (map exp_x ?row) = Z h xb t"
    using masked_denominator[OF assms(3)] by (simp add: Z_def)
  ultimately show ?thesis
    by (simp add: softmax_x_def comp_def)
qed

lemma length_attention_weights:
  assumes "tril h = tril_ones n" "length xb \<le> n"
  shows "length (attention_weights h xb) = length xb"
  using assms by (simp add: attention_weights_def length_masked)

lemma attention_weights_row_sum:
  assumes "tril h = tril_ones n" "length xb \<le> n" "t < length xb"
  shows "sum_list (attention_weights h xb ! t) = 1"
proof -
  have "sum_list (attention_weights h xb ! t) =
        (\<Sum>s\<leftarrow>[0..<length xb]. if s \<le> t then exp (sc h xb t s) / Z h xb t else 0)"
    by (simp add: attention_weights_row[OF assms])
  also have "\<dots> = (\<Sum>s\<leftarrow>[0..<Suc t]. exp (sc h xb t s) / Z h xb t)"
    by (rule sum_list_upt_if_le[OF assms(3)])
  also have "\<dots> = (\<Sum>s\<leftarrow>[0..<Suc t]. exp (sc h xb t s)) / Z h xb t"
    by (simp only: divide_inverse sum_list_mult_const)
  also have "\<dots> = 1"
    using Z_pos[of h xb t] by (simp add: Z_def)
  finally show ?thesis .
qed

lemma attention_weights_nonneg:
  assumes "tril h = tril_ones n" "length xb \<le> n" "t < length xb" "w \<in> set (attention_weights h xb ! t)"
  shows "0 \<le> w"
  using assms(4) Z_pos[of h xb t] unfolding attention_weights_row[OF assms(1-3)]
  by (auto simp: less_imp_le)

lemma shape3_last_dim: "shape3 B T D x \<Longrightarrow> last_dim_is D x"
  by (auto simp: shape3_def last_dim_is_def is_mat_def list_all_iff)

lemma shape3_length: "shape3 B T D x \<Longrightarrow> xb \<in> set x \<Longrightarrow> length xb = T"
  by (auto simp: shape3_def is_mat_def list_all_iff)

lemma length_tril_ones: "length (tril_ones n) = n"
  by (simp add: tril_ones_def)

lemma Head_forward_ok:
  assumes "wf_Head hs h" "shape3 B T n_embd x" "T \<le> block_size" "0 < hs"
  shows "Head_forward h x =
         Inr (map (\<lambda>xb. matmul hs (attention_weights h xb) (map (Linear_vec (valu h)) xb)) x)"
proof -
  have ld: "last_dim_is n_embd x" using assms(2) by (rule shape3_last_dim)
  have len: "list_all (\<lambda>xb. length xb \<le> length (tril h)) x"
    using assms(1,3) shape3_length[OF assms(2)]
    by (simp add: wf_Head_def length_tril_ones list_all_iff)
  show ?thesis
    using assms(1,4) ld len by (simp add: Head_forward_def wf_Head_def wf_Linear_def)
qed

lemma attention_weights_nth:
  assumes "tril h = tril_ones n" "length xb \<le> n" "t < length xb" "s < length xb"
  shows "attention_weights h xb ! t ! s = (if s \<le> t then exp (sc h xb t s) / Z h xb t else 0)"
  using assms(4) by (simp add: attention_weights_row[OF assms(1-3)])

lemma out_row:
  assumes "tril h = tril_ones n" "length xb \<le> n" "t < length xb"
  shows "matmul c (attention_weights h xb) (map (Linear_vec (valu h)) xb) ! t =
         map (\<lambda>j. \<Sum>s\<leftarrow>[0..<Suc t]. exp (sc h xb t s) / Z h xb t * Linear_vec (valu h) (xb ! s) ! j) [0..<c]"
proof -
  have "\<And>j. (\<Sum>s\<leftarrow>[0..<length xb]. attention_weights h xb ! t ! s * map (Linear_vec (valu h)) xb ! s ! j)
      = (\<Sum>s\<leftarrow>[0..<length xb]. if s \<le> t then exp (sc h xb t s) / Z h xb t * Linear_vec (valu h) (xb ! s) ! j else 0)"
    by (rule arg_cong[where f=sum_list], rule map_cong)
       (simp_all add: attention_weights_nth[OF assms])
  then show ?thesis
    using assms by (simp add: matmul_def length_attention_weights sum_list_upt_if_le)
qed

lemma sc_cong:
  assumes "xb ! t = xb' ! t" "xb ! s = xb' ! s"
  shows "sc h xb t s = sc h xb' t s"
  using assms by (simp add: sc_def)

lemma Z_cong:
  assumes "\<And>s. s \<le> t \<Longrightarrow> xb ! s = xb' ! s"
  shows "Z h xb t = Z h xb' t"
  unfolding Z_def
  by (rule arg_cong[where f=sum_list], rule map_cong) (auto intro!: sc_cong assms)

lemma out_row_cong:
  assumes "tril h = tril_ones n" "length xb \<le> n" "t < length xb"
      "length xb' \<le> n" "t < length xb'"
      "take (Suc t) xb = take (Suc t) xb'"
  shows "matmul c (attention_weights h xb) (map (Linear_vec (valu h)) xb) ! t =
         matmul c (attention_weights h xb') (map (Linear_vec (valu h)) xb') ! t"
proof -
  have eq: "xb ! s = xb' ! s" if "s \<le> t" for s
  proof -
    have "take (Suc t) xb ! s = take (Suc t) xb' ! s" using assms(6) by simp
    then show ?thesis using that by simp
  qed
  have Zeq: "Z h xb t = Z h xb' t" by (rule Z_cong) (rule eq)
  have "\<And>j. (\<Sum>s\<leftarrow>[0..<Suc t]. exp (sc h xb t s) / Z h xb t * Linear_vec (valu h) (xb ! s) ! j) =
        (\<Sum>s\<leftarrow>[0..<Suc t]. exp (sc h xb' t s) / Z h xb' t * Linear_vec (valu h) (xb' ! s) ! j)"
  proof (rule arg_cong[where f=sum_list], rule map_cong)
    fix j s assume "s \<in> set [0..<Suc t]"
    then have st: "s \<le> t" by auto
    have "sc h xb t s = sc h xb' t s"
      by (rule sc_cong) (simp_all add: eq st)
    then show "exp (sc h xb t s) / Z h xb t * Linear_vec (valu h) (xb ! s) ! j =
        exp (sc h xb' t s) / Z h xb' t * Linear_vec (valu h) (xb' ! s) ! j"
      using Zeq eq[OF st] by simp
  qed simp
  then show ?thesis
    by (simp add: out_row[OF assms(1-3)] out_row[OF assms(1) assms(4,5)])
qed

lemma shape3_nth: "shape3 B T D x \<Longrightarrow> b < B \<Longrightarrow> length (x ! b) = T"
  by (auto simp: shape3_def is_mat_def list_all_length)

lemma attention_weights_is_mat:
  assumes "tril h = tril_ones n" "length xb \<le> n"
  shows "is_mat (length xb) (length xb) (attention_weights h xb)"
  unfolding is_mat_def list_all_length
  using assms by (simp add: length_attention_weights attention_weights_row)

text \<open>
  Over the real numbers, where no operation rounds or overflows: in a forward pass of
  an attention head on an input of shape \<open>(B, T, n_embd)\<close> with \<open>T \<le> block_size\<close>, the
  forward pass returns the product of the attention weights with the values, the
  weights after the softmax have shape \<open>(B, T, T)\<close>, every entry is non-negative and
  every row sums to 1.
\<close>

theorem attention_weights_are_distributions:
  assumes "wf_Head hs h" "shape3 B T n_embd x" "T \<le> block_size" "0 < hs"
  shows "Head_forward h x =
           Inr (map (\<lambda>xb. matmul hs (attention_weights h xb) (map (Linear_vec (valu h)) xb)) x) \<and>
         shape3 B T T (map (attention_weights h) x) \<and>
         (\<forall>b<B. \<forall>t<T. sum_list (attention_weights h (x ! b) ! t) = 1 \<and>
                         (\<forall>s<T. 0 \<le> attention_weights h (x ! b) ! t ! s))"
proof (intro conjI allI impI)
  show "Head_forward h x =
           Inr (map (\<lambda>xb. matmul hs (attention_weights h xb) (map (Linear_vec (valu h)) xb)) x)"
    using assms by (rule Head_forward_ok)
  have tr: "tril h = tril_ones block_size" using assms(1) by (simp add: wf_Head_def)
  show "shape3 B T T (map (attention_weights h) x)"
    unfolding shape3_def list_all_length
  proof (intro conjI allI impI)
    show "length (map (attention_weights h) x) = B" using assms(2) by (simp add: shape3_def)
    fix b assume "b < length (map (attention_weights h) x)"
    then have b: "b < B" using assms(2) by (simp add: shape3_def)
    have "length (x ! b) = T" using assms(2) b by (rule shape3_nth)
    then show "is_mat T T (map (attention_weights h) x ! b)"
      using attention_weights_is_mat[OF tr, of "x ! b"] assms(2,3) b by (simp add: shape3_def)
  qed
  fix b t assume b: "b < B" and t: "t < T"
  have len: "length (x ! b) = T" using assms(2) b by (rule shape3_nth)
  show "sum_list (attention_weights h (x ! b) ! t) = 1"
    using attention_weights_row_sum[OF tr, of "x ! b" t] len assms(3) t by simp
  fix s assume s: "s < T"
  show "0 \<le> attention_weights h (x ! b) ! t ! s"
    using attention_weights_nth[OF tr, of "x ! b" t s] Z_pos[of h "x ! b" t] len assms(3) t s
    by (simp add: less_imp_le)
qed

theorem attention_weights_are_distributions_witness:
  "wf_Head 8 (fst (Head_init 8 (\<lambda>k. 0))) \<and>
   shape3 1 2 n_embd [[replicate 32 (0::real), replicate 32 1]] \<and> 2 \<le> block_size \<and> (0::nat) < 8 \<and>
   sum_list (attention_weights (fst (Head_init 8 (\<lambda>k. 0))) [replicate 32 0, replicate 32 1] ! 1) = 1"
proof -
  have a: "wf_Head 8 (fst (Head_init 8 (\<lambda>k. 0)))" by (rule Head_init_wf)
  have b: "shape3 1 2 n_embd [[replicate 32 (0::real), replicate 32 1]]"
    by (simp add: shape3_def is_mat_def n_embd_def)
  have c: "2 \<le> block_size" by (simp add: block_size_def)
  have d: "(0::nat) < 8" by simp
  note th = attention_weights_are_distributions[OF a b c d]
  have "\<forall>t<2. sum_list (attention_weights (fst (Head_init 8 (\<lambda>k. 0)))
            ([[replicate 32 (0::real), replicate 32 1]] ! 0) ! t) = 1 \<and>
          (\<forall>s<2. 0 \<le> attention_weights (fst (Head_init 8 (\<lambda>k. 0)))
            ([[replicate 32 (0::real), replicate 32 1]] ! 0) ! t ! s)"
    using conjunct2[OF conjunct2[OF th]] by simp
  from this[rule_format, of 1]
  have e: "sum_list (attention_weights (fst (Head_init 8 (\<lambda>k. 0)))
       [replicate 32 0, replicate 32 1] ! 1) = 1"
    by simp
  show ?thesis by (intro conjI a b c d e)
qed

text \<open>
  Over the real numbers: for inputs of shape \<open>(B, T, n_embd)\<close> with \<open>T \<le> block_size\<close>, the
  mask the head uses is the first \<open>T\<close> rows and columns of the fixed lower-triangular
  buffer, every strictly-future entry of the attention weights is exactly zero, and the
  outputs of two runs agree at position \<open>t\<close> of batch element \<open>b\<close> whenever the two inputs
  agree there on positions \<open>0\<close> to \<open>t\<close>.
\<close>

theorem causal_mask_and_invariance:
  assumes "wf_Head hs h" "shape3 B T n_embd x" "shape3 B T n_embd x'" "T \<le> block_size" "0 < hs"
  shows "tril_slice h T = map (take T) (take T (tril_ones block_size)) \<and>
         tril_slice h T = tril_ones T \<and>
         (\<forall>b<B. \<forall>t<T. \<forall>s<T. t < s \<longrightarrow> attention_weights h (x ! b) ! t ! s = 0) \<and>
         (\<exists>out out'. Head_forward h x = Inr out \<and> Head_forward h x' = Inr out' \<and>
            (\<forall>b<B. \<forall>t<T. take (Suc t) (x ! b) = take (Suc t) (x' ! b) \<longrightarrow>
                            out ! b ! t = out' ! b ! t))"
proof -
  have tr: "tril h = tril_ones block_size" using assms(1) by (simp add: wf_Head_def)
  have val: "out_features (valu h) = hs" using assms(1) by (simp add: wf_Head_def wf_Linear_def)
  have B: "length x = B" "length x' = B" using assms(2,3) by (simp_all add: shape3_def)
  have p1: "tril_slice h T = map (take T) (take T (tril_ones block_size))"
    by (simp add: tril_slice_def tr)
  have p2: "tril_slice h T = tril_ones T" using tr assms(4) by (rule tril_slice_wf)
  have p3: "\<forall>b<B. \<forall>t<T. \<forall>s<T. t < s \<longrightarrow> attention_weights h (x ! b) ! t ! s = 0"
  proof (intro allI impI)
    fix b t s assume "b < B" "t < T" "s < T" "t < s"
    moreover have "length (x ! b) = T" using assms(2) \<open>b < B\<close> by (rule shape3_nth)
    ultimately show "attention_weights h (x ! b) ! t ! s = 0"
      using attention_weights_nth[OF tr, of "x ! b" t s] assms(4) by simp
  qed
  let ?f = "\<lambda>xb. matmul hs (attention_weights h xb) (map (Linear_vec (valu h)) xb)"
  have o1: "Head_forward h x = Inr (map ?f x)" using assms(1,2,4,5) by (rule Head_forward_ok)
  have o2: "Head_forward h x' = Inr (map ?f x')" using assms(1,3,4,5) by (rule Head_forward_ok)
  have p4: "\<forall>b<B. \<forall>t<T. take (Suc t) (x ! b) = take (Suc t) (x' ! b) \<longrightarrow>
                            map ?f x ! b ! t = map ?f x' ! b ! t"
  proof (intro allI impI)
    fix b t assume b: "b < B" and t: "t < T" and tk: "take (Suc t) (x ! b) = take (Suc t) (x' ! b)"
    have l1: "length (x ! b) = T" using assms(2) b by (rule shape3_nth)
    have l2: "length (x' ! b) = T" using assms(3) b by (rule shape3_nth)
    have "?f (x ! b) ! t = ?f (x' ! b) ! t"
      using out_row_cong[OF tr, of "x ! b" t "x' ! b" hs] l1 l2 t assms(4) tk by simp
    then show "map ?f x ! b ! t = map ?f x' ! b ! t" using b B by simp
  qed
  show ?thesis using p1 p2 p3 o1 o2 p4 by blast
qed

theorem causal_mask_and_invariance_witness:
  "wf_Head 8 (fst (Head_init 8 (\<lambda>k. 1))) \<and>
   shape3 1 2 n_embd [[replicate 32 (1::real), replicate 32 2]] \<and>
   shape3 1 2 n_embd [[replicate 32 (1::real), replicate 32 5]] \<and> 2 \<le> block_size \<and> (0::nat) < 8 \<and>
   tril_slice (fst (Head_init 8 (\<lambda>k. 1))) 2 = [[1, 0], [1, 1]] \<and>
   (\<exists>out out'. Head_forward (fst (Head_init 8 (\<lambda>k. 1))) [[replicate 32 1, replicate 32 2]] = Inr out \<and>
       Head_forward (fst (Head_init 8 (\<lambda>k. 1))) [[replicate 32 1, replicate 32 5]] = Inr out' \<and>
       out ! 0 ! 0 = out' ! 0 ! 0)"
proof -
  have a: "wf_Head 8 (fst (Head_init 8 (\<lambda>k. 1)))" by (rule Head_init_wf)
  have b: "shape3 1 2 n_embd [[replicate 32 (1::real), replicate 32 2]]"
    by (simp add: shape3_def is_mat_def n_embd_def)
  have b': "shape3 1 2 n_embd [[replicate 32 (1::real), replicate 32 5]]"
    by (simp add: shape3_def is_mat_def n_embd_def)
  have c: "2 \<le> block_size" by (simp add: block_size_def)
  have d: "(0::nat) < 8" by simp
  have e: "tril_ones 2 = [[1, 0], [1, 1]]" by (simp add: tril_ones_def upt_rec)
  let ?h = "fst (Head_init 8 (\<lambda>k. 1))"
  let ?x = "[[replicate 32 (1::real), replicate 32 2]]" and ?x' = "[[replicate 32 (1::real), replicate 32 5]]"
  note th = causal_mask_and_invariance[OF a b b' c d]
  have s: "tril_slice ?h 2 = [[1, 0], [1, 1]]" by (rule trans[OF conjunct1[OF conjunct2[OF th]] e])
  note ex = conjunct2[OF conjunct2[OF conjunct2[OF th]]]
  from ex obtain out out' where o: "Head_forward ?h ?x = Inr out" "Head_forward ?h ?x' = Inr out'"
     and inv: "\<forall>ba<1. \<forall>t<2. take (Suc t) (?x ! ba) = take (Suc t) (?x' ! ba) \<longrightarrow>
                            out ! ba ! t = out' ! ba ! t"
    by blast
  have "out ! 0 ! 0 = out' ! 0 ! 0"
    using inv[rule_format, of 0 0] by simp
  then have f: "\<exists>out out'. Head_forward ?h ?x = Inr out \<and> Head_forward ?h ?x' = Inr out' \<and>
       out ! 0 ! 0 = out' ! 0 ! 0"
    using o by blast
  show ?thesis by (intro conjI a b b' c d s f)
qed

section \<open>Shapes through the layers\<close>

lemma bind_e_simps [simp]:
  "bind_e (Inl e) f = Inl e"
  "bind_e (Inr v) f = f v"
  by (simp_all add: bind_e_def)

lemma shape3_iff:
  "shape3 B T D x \<longleftrightarrow>
     length x = B \<and> (\<forall>b<B. length (x ! b) = T \<and> (\<forall>t<T. length (x ! b ! t) = D))"
  by (auto simp: shape3_def is_mat_def list_all_length)

lemma shape3_map_map:
  assumes "shape3 B T D x" "\<And>v. length v = D \<Longrightarrow> length (f v) = D'"
  shows "shape3 B T D' (map (map f) x)"
  using assms by (simp add: shape3_iff)

lemma length_Linear_vec_wf:
  "wf_Linear n_in n_out wb L \<Longrightarrow> length (Linear_vec L v) = n_out"
  by (auto simp: wf_Linear_def Linear_vec_def is_mat_def split: option.splits)

lemma Linear_forward_ok:
  assumes "wf_Linear n_in n_out wb L" "shape3 B T n_in x"
  shows "Linear_forward L x = Inr (map (map (Linear_vec L)) x)"
    and "shape3 B T n_out (map (map (Linear_vec L)) x)"
proof -
  have "in_features L = n_in" using assms(1) by (simp add: wf_Linear_def)
  then show "Linear_forward L x = Inr (map (map (Linear_vec L)) x)"
    using shape3_last_dim[OF assms(2)] by (simp add: Linear_forward_def)
  show "shape3 B T n_out (map (map (Linear_vec L)) x)"
    using assms(2) by (rule shape3_map_map) (rule length_Linear_vec_wf[OF assms(1)])
qed

lemma length_LayerNorm_vec:
  "wf_LayerNorm l \<Longrightarrow> length v = n_embd \<Longrightarrow> length (LayerNorm_vec l v) = n_embd"
  by (simp add: wf_LayerNorm_def LayerNorm_vec_def Let_def)

lemma LayerNorm_forward_ok:
  assumes "wf_LayerNorm l" "shape3 B T n_embd x"
  shows "LayerNorm_forward l x = Inr (map (map (LayerNorm_vec l)) x)"
    and "shape3 B T n_embd (map (map (LayerNorm_vec l)) x)"
proof -
  have "normalized_shape l = n_embd" using assms(1) by (simp add: wf_LayerNorm_def)
  then show "LayerNorm_forward l x = Inr (map (map (LayerNorm_vec l)) x)"
    using shape3_last_dim[OF assms(2)] by (simp add: LayerNorm_forward_def)
  show "shape3 B T n_embd (map (map (LayerNorm_vec l)) x)"
    using assms(2) by (rule shape3_map_map) (rule length_LayerNorm_vec[OF assms(1)])
qed

lemma FeedForward_forward_ok:
  assumes "wf_FeedForward f" "shape3 B T n_embd x"
  shows "FeedForward_forward f x =
           Inr (map (map (Linear_vec (lin2 f))) (map (map (map relu)) (map (map (Linear_vec (lin1 f))) x)))"
    and "shape3 B T n_embd
           (map (map (Linear_vec (lin2 f))) (map (map (map relu)) (map (map (Linear_vec (lin1 f))) x)))"
proof -
  have w1: "wf_Linear n_embd (4 * n_embd) True (lin1 f)"
    and w2: "wf_Linear (4 * n_embd) n_embd True (lin2 f)"
    using assms(1) by (simp_all add: wf_FeedForward_def)
  note a = Linear_forward_ok[OF w1 assms(2)]
  have r: "shape3 B T (4 * n_embd) (map (map (map relu)) (map (map (Linear_vec (lin1 f))) x))"
    using a(2) by (rule shape3_map_map) simp
  note b = Linear_forward_ok[OF w2 r]
  show "FeedForward_forward f x =
           Inr (map (map (Linear_vec (lin2 f))) (map (map (map relu)) (map (map (Linear_vec (lin1 f))) x)))"
    by (simp only: FeedForward_forward_def a(1) bind_e_simps b(1))
  show "shape3 B T n_embd
           (map (map (Linear_vec (lin2 f))) (map (map (map relu)) (map (map (Linear_vec (lin1 f))) x)))"
    by (rule b(2))
qed

lemma tadd_shape:
  assumes "shape3 B T D x" "shape3 B T D y"
  shows "shape3 B T D (tadd x y)"
  using assms by (simp add: shape3_iff tadd_def)

lemma tadd_nth:
  assumes "shape3 B T D x" "shape3 B T D y" "b < B" "t < T" "d < D"
  shows "tadd x y ! b ! t ! d = x ! b ! t ! d + y ! b ! t ! d"
  using assms by (simp add: shape3_iff tadd_def)

lemma Head_forward_out:
  assumes "wf_Head hs h" "shape3 B T n_embd x" "T \<le> block_size" "0 < hs"
  shows "Head_forward h x = Inr (Head_out h x)" and "shape3 B T hs (Head_out h x)"
proof -
  have val: "out_features (valu h) = hs" using assms(1) by (simp add: wf_Head_def wf_Linear_def)
  have tr: "tril h = tril_ones block_size" using assms(1) by (simp add: wf_Head_def)
  show "Head_forward h x = Inr (Head_out h x)"
    using Head_forward_ok[OF assms] by (simp add: Head_out_def val)
  show "shape3 B T hs (Head_out h x)"
    unfolding shape3_iff
  proof (intro conjI allI impI)
    show "length (Head_out h x) = B" using assms(2) by (simp add: Head_out_def shape3_iff)
    fix b assume b: "b < B"
    have len: "length (x ! b) = T" using assms(2) b by (rule shape3_nth)
    have lb: "b < length x" using assms(2) b by (simp add: shape3_iff)
    have la: "length (attention_weights h (x ! b)) = T"
      using length_attention_weights[OF tr, of "x ! b"] len assms(3) by simp
    show "length (Head_out h x ! b) = T"
      using lb la by (simp add: Head_out_def matmul_def)
    fix t assume "t < T"
    then show "length (Head_out h x ! b ! t) = hs"
      using lb la by (simp add: Head_out_def matmul_def val)
  qed
qed

lemma heads_forward_ok:
  assumes "list_all (wf_Head hs) hl" "shape3 B T n_embd x" "T \<le> block_size" "0 < hs"
  shows "heads_forward hl x = Inr (map (\<lambda>h. Head_out h x) hl)"
  using assms(1)
proof (induction hl)
  case Nil
  then show ?case by simp
next
  case (Cons h hl)
  then have "wf_Head hs h" "list_all (wf_Head hs) hl" by simp_all
  then show ?case
    using Head_forward_out(1)[OF _ assms(2,3,4), of h] Cons.IH by simp
qed

lemma cat_last_shape:
  assumes "outs \<noteq> []" "list_all (shape3 B T hs) outs"
  shows "shape3 B T (length outs * hs) (cat_last outs) \<and>
         (\<forall>b<B. \<forall>t<T. cat_last outs ! b ! t = concat (map (\<lambda>out. out ! b ! t) outs))"
  using assms
proof (induction outs rule: cat_last.induct)
  case 1
  then show ?case by simp
next
  case (2 out)
  then show ?case by simp
next
  case (3 out v va)
  have o: "shape3 B T hs out" using "3.prems" by simp
  have IH: "shape3 B T (length (v # va) * hs) (cat_last (v # va))"
     "\<forall>b<B. \<forall>t<T. cat_last (v # va) ! b ! t = concat (map (\<lambda>out. out ! b ! t) (v # va))"
    using "3.IH" "3.prems" by simp_all
  have s: "shape3 B T (length (out # v # va) * hs) (cat_last (out # v # va))"
    using o IH(1) by (simp add: shape3_iff)
  have n: "\<forall>b<B. \<forall>t<T. cat_last (out # v # va) ! b ! t =
             concat (map (\<lambda>out. out ! b ! t) (out # v # va))"
  proof (intro allI impI)
    fix b t assume "b < B" "t < T"
    then show "cat_last (out # v # va) ! b ! t =
             concat (map (\<lambda>out. out ! b ! t) (out # v # va))"
      using o IH by (simp add: shape3_iff)
  qed
  show ?case using s n by blast
qed

lemma MultiHeadAttention_forward_ok:
  assumes "wf_MultiHeadAttention nh hs m" "0 < nh" "0 < hs" "nh * hs = n_embd"
     "shape3 B T n_embd x" "T \<le> block_size"
  shows "MultiHeadAttention_forward m x =
           Inr (map (map (Linear_vec (proj m))) (cat_last (map (\<lambda>h. Head_out h x) (heads m))))"
    and "shape3 B T n_embd (map (map (Linear_vec (proj m))) (cat_last (map (\<lambda>h. Head_out h x) (heads m))))"
    and "shape3 B T n_embd (cat_last (map (\<lambda>h. Head_out h x) (heads m)))"
proof -
  let ?outs = "map (\<lambda>h. Head_out h x) (heads m)"
  have wh: "list_all (wf_Head hs) (heads m)" and len: "length (heads m) = nh"
    and wp: "wf_Linear n_embd n_embd True (proj m)"
    using assms(1) by (simp_all add: wf_MultiHeadAttention_def)
  have hf: "heads_forward (heads m) x = Inr ?outs"
    using wh assms(5,6,3) by (rule heads_forward_ok)
  have ne: "?outs \<noteq> []" using len assms(2) by auto
  have sh: "list_all (shape3 B T hs) ?outs"
    using wh Head_forward_out(2)[OF _ assms(5,6,3)] by (simp add: list_all_iff)
  have cs: "shape3 B T (length ?outs * hs) (cat_last ?outs)"
    using cat_last_shape[OF ne sh] by blast
  then show c: "shape3 B T n_embd (cat_last ?outs)"
    using len assms(4) by simp
  note lf = Linear_forward_ok[OF wp c]
  show "MultiHeadAttention_forward m x = Inr (map (map (Linear_vec (proj m))) (cat_last ?outs))"
    using ne by (simp only: MultiHeadAttention_forward_def hf bind_e_simps lf(1) if_False)
  show "shape3 B T n_embd (map (map (Linear_vec (proj m))) (cat_last ?outs))"
    by (rule lf(2))
qed

section \<open>Constructors and the transformer block\<close>

lemma n_embd_pos: "0 < n_embd" by (simp add: n_embd_def)

lemma dvd_n_embd:
  assumes "nh dvd n_embd"
  shows "0 < nh" "0 < n_embd div nh" "nh * (n_embd div nh) = n_embd"
proof -
  show p: "0 < nh" using assms n_embd_pos by (cases nh) auto
  show m: "nh * (n_embd div nh) = n_embd" using assms by simp
  show "0 < n_embd div nh" using m n_embd_pos by (cases "n_embd div nh") auto
qed

lemma Heads_init_wf:
  "length (fst (Heads_init n hs vals)) = n \<and> list_all (wf_Head hs) (fst (Heads_init n hs vals))"
proof (induction n arbitrary: vals)
  case 0
  then show ?case by simp
next
  case (Suc n)
  obtain h v1 where h: "Head_init hs vals = (h, v1)" by (cases "Head_init hs vals")
  obtain hl v2 where hl: "Heads_init n hs v1 = (hl, v2)" by (cases "Heads_init n hs v1")
  have "wf_Head hs h" using Head_init_wf[of hs vals] h by simp
  moreover have "length hl = n \<and> list_all (wf_Head hs) hl" using Suc[of v1] hl by simp
  ultimately show ?case using h hl by simp
qed

lemma MultiHeadAttention_init_wf:
  "wf_MultiHeadAttention n hs (fst (MultiHeadAttention_init n hs vals))"
proof -
  obtain hl v1 where hl: "Heads_init n hs vals = (hl, v1)" by (cases "Heads_init n hs vals")
  obtain p v2 where p: "Linear_init n_embd n_embd True v1 = (p, v2)"
    by (cases "Linear_init n_embd n_embd True v1")
  have "wf_Linear n_embd n_embd True p" using Linear_init_wf[of n_embd n_embd True v1] p by simp
  moreover have "length hl = n \<and> list_all (wf_Head hs) hl" using Heads_init_wf[of n hs vals] hl by simp
  ultimately show ?thesis
    using hl p by (simp add: MultiHeadAttention_init_def wf_MultiHeadAttention_def)
qed

lemma FeedForward_init_wf: "wf_FeedForward (fst (FeedForward_init n_embd vals))"
proof -
  obtain a v1 where a: "Linear_init n_embd (4 * n_embd) True vals = (a, v1)"
    by (cases "Linear_init n_embd (4 * n_embd) True vals")
  obtain b v2 where b: "Linear_init (4 * n_embd) n_embd True v1 = (b, v2)"
    by (cases "Linear_init (4 * n_embd) n_embd True v1")
  have "wf_Linear n_embd (4 * n_embd) True a"
    using Linear_init_wf[of n_embd "4 * n_embd" True vals] a by simp
  moreover have "wf_Linear (4 * n_embd) n_embd True b"
    using Linear_init_wf[of "4 * n_embd" n_embd True v1] b by simp
  ultimately show ?thesis using a b by (simp add: FeedForward_init_def wf_FeedForward_def)
qed

lemma LayerNorm_init_wf: "wf_LayerNorm (LayerNorm_init n_embd)"
  by (simp add: wf_LayerNorm_def LayerNorm_init_def)

lemma Block_init_ok:
  assumes "0 < nh"
  shows "\<exists>b v. Block_init n_emd nh vals = Inr (b, v) \<and> wf_Block nh b"
proof -
  obtain a v1 where a: "MultiHeadAttention_init nh (n_embd div nh) vals = (a, v1)"
    by (cases "MultiHeadAttention_init nh (n_embd div nh) vals")
  obtain f v2 where f: "FeedForward_init n_embd v1 = (f, v2)"
    by (cases "FeedForward_init n_embd v1")
  have "wf_MultiHeadAttention nh (n_embd div nh) a"
    using MultiHeadAttention_init_wf[of nh "n_embd div nh" vals] a by simp
  moreover have "wf_FeedForward f" using FeedForward_init_wf[of v1] f by simp
  ultimately show ?thesis
    using assms a f by (simp add: Block_init_def wf_Block_def LayerNorm_init_wf)
qed

lemma Block_forward_ok:
  assumes "wf_Block nh b" "nh dvd n_embd" "shape3 B T n_embd x" "T \<le> block_size"
  shows "Block_forward b x = Inr (Block_out b x)" and "shape3 B T n_embd (Block_out b x)"
    and "MultiHeadAttention_forward (sa b) (LayerNorm_out (ln1 b) x) =
           Inr (MultiHeadAttention_out (sa b) (LayerNorm_out (ln1 b) x))"
    and "shape3 B T n_embd (MultiHeadAttention_out (sa b) (LayerNorm_out (ln1 b) x))"
    and "shape3 B T n_embd
           (FeedForward_out (ffwd b) (LayerNorm_out (ln2 b)
              (tadd x (MultiHeadAttention_out (sa b) (LayerNorm_out (ln1 b) x)))))"
proof -
  have wm: "wf_MultiHeadAttention nh (n_embd div nh) (sa b)" and wf: "wf_FeedForward (ffwd b)"
    and w1: "wf_LayerNorm (ln1 b)" and w2: "wf_LayerNorm (ln2 b)"
    using assms(1) by (simp_all add: wf_Block_def)
  note d = dvd_n_embd[OF assms(2)]
  let ?n1 = "LayerNorm_out (ln1 b) x"
  let ?a = "MultiHeadAttention_out (sa b) ?n1"
  let ?x1 = "tadd x ?a"
  let ?n2 = "LayerNorm_out (ln2 b) ?x1"
  let ?f = "FeedForward_out (ffwd b) ?n2"
  note l1 = LayerNorm_forward_ok[OF w1 assms(3), folded LayerNorm_out_def]
  note m = MultiHeadAttention_forward_ok[OF wm d l1(2) assms(4), folded MultiHeadAttention_out_def]
  show m1: "MultiHeadAttention_forward (sa b) ?n1 = Inr ?a" by (rule m(1))
  show m2: "shape3 B T n_embd ?a" by (rule m(2))
  have s1: "shape3 B T n_embd ?x1" using assms(3) m2 by (rule tadd_shape)
  note l2 = LayerNorm_forward_ok[OF w2 s1, folded LayerNorm_out_def]
  note f = FeedForward_forward_ok[OF wf l2(2), folded FeedForward_out_def]
  show "shape3 B T n_embd ?f" by (rule f(2))
  show "Block_forward b x = Inr (Block_out b x)"
    by (simp only: Block_forward_def Block_out_def Let_def l1(1) m1 l2(1) f(1) bind_e_simps)
  show "shape3 B T n_embd (Block_out b x)"
    unfolding Block_out_def Let_def using s1 f(2) by (rule tadd_shape)
qed

lemma Block_forward_eq_spec: "Block_forward b x = Block_spec b x"
  by (simp add: Block_forward_def Block_spec_def residual_def bind_e_def Let_def
           split: sum.splits)

text \<open>
  Claim C5. On every input the block is the composition the specification words: the
  residual of the attention sub-layer behind the first normalisation, then the residual
  of the feed-forward sub-layer behind the second (\<open>Block_spec\<close>), errors included. For a
  block with the shapes its constructor builds, a head count dividing \<open>n_embd\<close> and an
  input of shape \<open>(B, T, n_embd)\<close> with \<open>T \<le> block_size\<close>, the pass returns
  \<open>(x + a) + f\<close> with \<open>a = Attention(Norm1(x))\<close> and \<open>f = FeedForward(Norm2(x + a))\<close>, entry by
  entry, in the shape of the input.
\<close>

theorem Block_forward_prenorm_residual:
  "Block_forward b x = Block_spec b x \<and>
   (wf_Block nh b \<and> nh dvd n_embd \<and> shape3 B T n_embd x \<and> T \<le> block_size \<longrightarrow>
      (\<exists>a f. LayerNorm_forward (ln1 b) x = Inr (LayerNorm_out (ln1 b) x) \<and>
             MultiHeadAttention_forward (sa b) (LayerNorm_out (ln1 b) x) = Inr a \<and>
             LayerNorm_forward (ln2 b) (tadd x a) = Inr (LayerNorm_out (ln2 b) (tadd x a)) \<and>
             FeedForward_forward (ffwd b) (LayerNorm_out (ln2 b) (tadd x a)) = Inr f \<and>
             Block_forward b x = Inr (tadd (tadd x a) f) \<and>
             shape3 B T n_embd (tadd (tadd x a) f) \<and>
             (\<forall>i<B. \<forall>t<T. \<forall>d<n_embd.
                tadd (tadd x a) f ! i ! t ! d = x ! i ! t ! d + a ! i ! t ! d + f ! i ! t ! d)))"
proof (intro conjI impI)
  show "Block_forward b x = Block_spec b x" by (rule Block_forward_eq_spec)
  assume h: "wf_Block nh b \<and> nh dvd n_embd \<and> shape3 B T n_embd x \<and> T \<le> block_size"
  then have wb: "wf_Block nh b" and dv: "nh dvd n_embd" and sx: "shape3 B T n_embd x"
    and T: "T \<le> block_size" by simp_all
  have w1: "wf_LayerNorm (ln1 b)" and w2: "wf_LayerNorm (ln2 b)" and wf: "wf_FeedForward (ffwd b)"
    using wb by (simp_all add: wf_Block_def)
  let ?a = "MultiHeadAttention_out (sa b) (LayerNorm_out (ln1 b) x)"
  let ?x1 = "tadd x ?a"
  let ?f = "FeedForward_out (ffwd b) (LayerNorm_out (ln2 b) ?x1)"
  note bo = Block_forward_ok[OF wb dv sx T]
  have sa: "shape3 B T n_embd ?a" by (rule bo(4))
  have sf: "shape3 B T n_embd ?f" by (rule bo(5))
  have s1: "shape3 B T n_embd ?x1" using sx sa by (rule tadd_shape)
  have c1: "LayerNorm_forward (ln1 b) x = Inr (LayerNorm_out (ln1 b) x)"
    using LayerNorm_forward_ok(1)[OF w1 sx] by (simp add: LayerNorm_out_def)
  have c3: "LayerNorm_forward (ln2 b) ?x1 = Inr (LayerNorm_out (ln2 b) ?x1)"
    using LayerNorm_forward_ok(1)[OF w2 s1] by (simp only: LayerNorm_out_def)
  have s2: "shape3 B T n_embd (LayerNorm_out (ln2 b) ?x1)"
    using LayerNorm_forward_ok(2)[OF w2 s1] by (simp only: LayerNorm_out_def)
  have c4: "FeedForward_forward (ffwd b) (LayerNorm_out (ln2 b) ?x1) = Inr ?f"
    using FeedForward_forward_ok(1)[OF wf s2] by (simp only: FeedForward_out_def)
  have c5: "Block_forward b x = Inr (tadd ?x1 ?f)"
    using bo(1) by (simp only: Block_out_def Let_def)
  have c6: "shape3 B T n_embd (tadd ?x1 ?f)" using s1 sf by (rule tadd_shape)
  have c7: "\<forall>i<B. \<forall>t<T. \<forall>d<n_embd.
                tadd ?x1 ?f ! i ! t ! d = x ! i ! t ! d + ?a ! i ! t ! d + ?f ! i ! t ! d"
  proof (intro allI impI)
    fix i t d assume i: "i < B" and t: "t < T" and d: "d < n_embd"
    show "tadd ?x1 ?f ! i ! t ! d = x ! i ! t ! d + ?a ! i ! t ! d + ?f ! i ! t ! d"
      using tadd_nth[OF s1 sf i t d] tadd_nth[OF sx sa i t d] by simp
  qed
  show "\<exists>a f. LayerNorm_forward (ln1 b) x = Inr (LayerNorm_out (ln1 b) x) \<and>
             MultiHeadAttention_forward (sa b) (LayerNorm_out (ln1 b) x) = Inr a \<and>
             LayerNorm_forward (ln2 b) (tadd x a) = Inr (LayerNorm_out (ln2 b) (tadd x a)) \<and>
             FeedForward_forward (ffwd b) (LayerNorm_out (ln2 b) (tadd x a)) = Inr f \<and>
             Block_forward b x = Inr (tadd (tadd x a) f) \<and>
             shape3 B T n_embd (tadd (tadd x a) f) \<and>
             (\<forall>i<B. \<forall>t<T. \<forall>d<n_embd.
                tadd (tadd x a) f ! i ! t ! d = x ! i ! t ! d + a ! i ! t ! d + f ! i ! t ! d)"
    by (rule exI[of _ ?a], rule exI[of _ ?f]) (intro conjI c1 bo(3) c3 c4 c5 c6 c7)
qed

lemma Block_init_projr:
  assumes "0 < nh"
  shows "\<not> isl (Block_init n_emd nh vals)" and "wf_Block nh (fst (projr (Block_init n_emd nh vals)))"
proof -
  obtain b v where "Block_init n_emd nh vals = Inr (b, v)" "wf_Block nh b"
    using Block_init_ok[OF assms, of n_emd vals] by blast
  then show "\<not> isl (Block_init n_emd nh vals)"
    and "wf_Block nh (fst (projr (Block_init n_emd nh vals)))" by simp_all
qed

theorem Block_forward_prenorm_residual_witness:
  "wf_Block 4 (fst (projr (Block_init n_embd 4 example_vals))) \<and> 4 dvd n_embd \<and>
   shape3 1 2 n_embd [[replicate 32 (1::real), replicate 32 2]] \<and> 2 \<le> block_size \<and>
   Block_forward (fst (projr (Block_init n_embd 4 example_vals))) [[replicate 32 1, replicate 32 2]] =
     Block_spec (fst (projr (Block_init n_embd 4 example_vals))) [[replicate 32 1, replicate 32 2]] \<and>
   \<not> isl (Block_forward (fst (projr (Block_init n_embd 4 example_vals)))
             [[replicate 32 1, replicate 32 2]])"
proof -
  let ?b = "fst (projr (Block_init n_embd 4 example_vals))"
  let ?x = "[[replicate 32 (1::real), replicate 32 2]]"
  have a: "wf_Block 4 ?b" by (rule Block_init_projr) simp
  have b: "4 dvd n_embd" by (simp add: n_embd_def)
  have c: "shape3 1 2 n_embd ?x" by (simp add: shape3_def is_mat_def n_embd_def)
  have d: "2 \<le> block_size" by (simp add: block_size_def)
  note th = Block_forward_prenorm_residual[of ?b ?x 4 1 2]
  have e: "Block_forward ?b ?x = Block_spec ?b ?x" by (rule conjunct1[OF th])
  have "\<exists>y. Block_forward ?b ?x = Inr y"
    using mp[OF conjunct2[OF th]] a b c d by blast
  then have f: "\<not> isl (Block_forward ?b ?x)" by auto
  show ?thesis by (intro conjI a b c d e f)
qed

lemma Head_forward_too_long:
  assumes "wf_Head hs h" "0 < hs" "shape3 B T n_embd x" "0 < B" "block_size < T"
  shows "Head_forward h x = Inl RuntimeError"
proof -
  have ld: "last_dim_is n_embd x" using assms(3) by (rule shape3_last_dim)
  have "x ! 0 \<in> set x" "length (x ! 0) = T"
    using assms(3,4) by (auto simp: shape3_iff)
  then have "\<exists>xb\<in>set x. \<not> length xb \<le> block_size"
    using assms(5) by (intro bexI[of _ "x ! 0"]) simp_all
  then have "\<not> list_all (\<lambda>xb. length xb \<le> length (tril h)) x"
    using assms(1) by (simp add: wf_Head_def length_tril_ones list_all_iff)
  then show ?thesis
    using assms(1,2) ld by (simp add: Head_forward_def wf_Head_def wf_Linear_def)
qed

lemma MultiHeadAttention_forward_too_long:
  assumes "wf_MultiHeadAttention nh hs m" "0 < nh" "0 < hs" "shape3 B T n_embd x" "0 < B"
    "block_size < T"
  shows "MultiHeadAttention_forward m x = Inl RuntimeError"
proof -
  obtain h hl where hh: "heads m = h # hl"
    using assms(1,2) by (cases "heads m") (auto simp: wf_MultiHeadAttention_def)
  then have "wf_Head hs h" using assms(1) by (simp add: wf_MultiHeadAttention_def)
  then have "Head_forward h x = Inl RuntimeError"
    using assms(3-6) by (rule Head_forward_too_long)
  then show ?thesis by (simp add: MultiHeadAttention_forward_def hh)
qed

text \<open>
  Claim C6 as stated, for every input of shape \<open>(B, T, D)\<close>, fails for \<open>T\<close> above
  \<open>block_size\<close>: with four heads and an input of shape \<open>(1, 9, 32)\<close> the pass raises a
  RuntimeError, the mask of the first head staying \<open>(8, 8)\<close>.
\<close>

theorem multi_head_attention_long_input_counterexample:
  "4 dvd n_embd \<and>
   wf_MultiHeadAttention 4 (n_embd div 4) (fst (MultiHeadAttention_init 4 (n_embd div 4) example_vals)) \<and>
   shape3 1 9 n_embd [replicate 9 (replicate 32 (0::real))] \<and>
   MultiHeadAttention_forward (fst (MultiHeadAttention_init 4 (n_embd div 4) example_vals))
     [replicate 9 (replicate 32 0)] = Inl RuntimeError"
proof -
  let ?m = "fst (MultiHeadAttention_init 4 (n_embd div 4) example_vals)"
  let ?x = "[replicate 9 (replicate 32 (0::real))]"
  have a: "4 dvd n_embd" by (simp add: n_embd_def)
  have b: "wf_MultiHeadAttention 4 (n_embd div 4) ?m" by (rule MultiHeadAttention_init_wf)
  have c: "shape3 1 9 n_embd ?x" by (simp add: shape3_def is_mat_def n_embd_def list_all_iff)
  have d: "MultiHeadAttention_forward ?m ?x = Inl RuntimeError"
    using b _ _ c by (rule MultiHeadAttention_forward_too_long) (simp_all add: n_embd_def block_size_def)
  show ?thesis by (intro conjI a b c d)
qed

text \<open>
  Claim C6, amended with \<open>T \<le> block_size\<close>. For a head count dividing \<open>n_embd\<close> and an input
  of shape \<open>(B, T, n_embd)\<close>, every head of the list runs on the same input and returns
  shape \<open>(B, T, n_embd div num_heads)\<close>; the outputs are joined along the feature
  dimension in list order, which restores width \<open>n_embd\<close>; the output projection is
  applied to the result, and the output has the shape of the input.
\<close>

theorem multi_head_attention_concat_project:
  assumes "num_heads dvd n_embd" "wf_MultiHeadAttention num_heads (n_embd div num_heads) m"
    "shape3 B T n_embd x" "T \<le> block_size"
  shows "\<exists>outs out. heads_forward (heads m) x = Inr outs \<and> length outs = num_heads \<and>
           (\<forall>i<num_heads. Head_forward (heads m ! i) x = Inr (outs ! i) \<and>
                           shape3 B T (n_embd div num_heads) (outs ! i)) \<and>
           shape3 B T n_embd (cat_last outs) \<and>
           (\<forall>b<B. \<forall>t<T. cat_last outs ! b ! t = concat (map (\<lambda>out. out ! b ! t) outs)) \<and>
           MultiHeadAttention_forward m x = Inr out \<and>
           out = map (map (Linear_vec (proj m))) (cat_last outs) \<and>
           shape3 B T n_embd out"
proof -
  let ?hs = "n_embd div num_heads"
  let ?outs = "map (\<lambda>h. Head_out h x) (heads m)"
  note d = dvd_n_embd[OF assms(1)]
  have wh: "list_all (wf_Head ?hs) (heads m)" and len: "length (heads m) = num_heads"
    using assms(2) by (simp_all add: wf_MultiHeadAttention_def)
  have c1: "heads_forward (heads m) x = Inr ?outs"
    using wh assms(3,4) d(2) by (rule heads_forward_ok)
  have c2: "length ?outs = num_heads" using len by simp
  have c3: "\<forall>i<num_heads. Head_forward (heads m ! i) x = Inr (?outs ! i) \<and>
                           shape3 B T ?hs (?outs ! i)"
  proof (intro allI impI)
    fix i assume i: "i < num_heads"
    then have w: "wf_Head ?hs (heads m ! i)" using wh len by (simp add: list_all_length)
    show "Head_forward (heads m ! i) x = Inr (?outs ! i) \<and> shape3 B T ?hs (?outs ! i)"
      using Head_forward_out[OF w assms(3,4) d(2)] i len by simp
  qed
  have ne: "?outs \<noteq> []" using len d(1) by auto
  have sh: "list_all (shape3 B T ?hs) ?outs"
    using c3 c2 by (simp add: list_all_length)
  have c5: "\<forall>b<B. \<forall>t<T. cat_last ?outs ! b ! t = concat (map (\<lambda>out. out ! b ! t) ?outs)"
    using cat_last_shape[OF ne sh] by blast
  note mo = MultiHeadAttention_forward_ok[OF assms(2) d assms(3,4)]
  show ?thesis
    by (rule exI[of _ ?outs], rule exI[of _ "map (map (Linear_vec (proj m))) (cat_last ?outs)"])
       (intro conjI c1 c2 c3 mo(3) c5 mo(1) refl mo(2))
qed

theorem multi_head_attention_concat_project_witness:
  "4 dvd n_embd \<and>
   wf_MultiHeadAttention 4 (n_embd div 4) (fst (MultiHeadAttention_init 4 (n_embd div 4) example_vals)) \<and>
   shape3 1 2 n_embd [[replicate 32 (1::real), replicate 32 2]] \<and> 2 \<le> block_size \<and>
   \<not> isl (MultiHeadAttention_forward (fst (MultiHeadAttention_init 4 (n_embd div 4) example_vals))
            [[replicate 32 1, replicate 32 2]]) \<and>
   shape3 1 2 n_embd (projr (MultiHeadAttention_forward
            (fst (MultiHeadAttention_init 4 (n_embd div 4) example_vals))
            [[replicate 32 1, replicate 32 2]]))"
proof -
  let ?m = "fst (MultiHeadAttention_init 4 (n_embd div 4) example_vals)"
  let ?x = "[[replicate 32 (1::real), replicate 32 2]]"
  have a: "4 dvd n_embd" by (simp add: n_embd_def)
  have b: "wf_MultiHeadAttention 4 (n_embd div 4) ?m" by (rule MultiHeadAttention_init_wf)
  have c: "shape3 1 2 n_embd ?x" by (simp add: shape3_def is_mat_def n_embd_def)
  have d: "2 \<le> block_size" by (simp add: block_size_def)
  from multi_head_attention_concat_project[OF a b c d]
  obtain out where o: "MultiHeadAttention_forward ?m ?x = Inr out" "shape3 1 2 n_embd out"
    by blast
  have e: "\<not> isl (MultiHeadAttention_forward ?m ?x)" using o by simp
  have f: "shape3 1 2 n_embd (projr (MultiHeadAttention_forward ?m ?x))" using o by simp
  show ?thesis by (intro conjI a b c d e f)
qed

lemma Head_forward_zero_width:
  assumes "wf_Head 0 h" "shape3 B T n_embd x"
  shows "Head_forward h x = Inl ZeroDivisionError"
  using assms(1) shape3_last_dim[OF assms(2)]
  by (simp add: Head_forward_def wf_Head_def wf_Linear_def)

lemma MultiHeadAttention_forward_zero_width:
  assumes "wf_MultiHeadAttention nh 0 m" "0 < nh" "shape3 B T n_embd x"
  shows "MultiHeadAttention_forward m x = Inl ZeroDivisionError"
proof -
  obtain h hl where hh: "heads m = h # hl"
    using assms(1,2) by (cases "heads m") (auto simp: wf_MultiHeadAttention_def)
  then have "wf_Head 0 h" using assms(1) by (simp add: wf_MultiHeadAttention_def)
  then have "Head_forward h x = Inl ZeroDivisionError"
    using assms(3) by (rule Head_forward_zero_width)
  then show ?thesis by (simp add: MultiHeadAttention_forward_def hh)
qed

lemma MultiHeadAttention_forward_width_mismatch:
  assumes "wf_MultiHeadAttention nh hs m" "0 < nh" "0 < hs" "nh * hs \<noteq> n_embd"
    "shape3 B T n_embd x" "0 < B" "0 < T" "T \<le> block_size"
  shows "MultiHeadAttention_forward m x = Inl RuntimeError"
proof -
  let ?outs = "map (\<lambda>h. Head_out h x) (heads m)"
  have wh: "list_all (wf_Head hs) (heads m)" and len: "length (heads m) = nh"
    and wp: "wf_Linear n_embd n_embd True (proj m)"
    using assms(1) by (simp_all add: wf_MultiHeadAttention_def)
  have hf: "heads_forward (heads m) x = Inr ?outs"
    using wh assms(5,8,3) by (rule heads_forward_ok)
  have ne: "?outs \<noteq> []" using len assms(2) by auto
  have sh: "list_all (shape3 B T hs) ?outs"
    using wh Head_forward_out(2)[OF _ assms(5,8,3)] by (simp add: list_all_iff)
  have cs: "shape3 B T (nh * hs) (cat_last ?outs)"
    using cat_last_shape[OF ne sh] len by simp
  then have r: "cat_last ?outs ! 0 \<in> set (cat_last ?outs)"
      "cat_last ?outs ! 0 ! 0 \<in> set (cat_last ?outs ! 0)"
      "length (cat_last ?outs ! 0 ! 0) = nh * hs"
    using assms(6,7) by (auto simp: shape3_iff)
  have "\<not> last_dim_is n_embd (cat_last ?outs)"
  proof
    assume "last_dim_is n_embd (cat_last ?outs)"
    then have "length (cat_last ?outs ! 0 ! 0) = n_embd"
      using r(1,2) by (simp add: last_dim_is_def list_all_iff)
    then show False using r(3) assms(4) by simp
  qed
  then have "Linear_forward (proj m) (cat_last ?outs) = Inl RuntimeError"
    using wp by (simp add: Linear_forward_def wf_Linear_def)
  then show ?thesis
    using ne by (simp only: MultiHeadAttention_forward_def hf bind_e_simps if_False)
qed

lemma not_dvd_floor_less:
  assumes "0 < (nh::nat)" "\<not> nh dvd n"
  shows "nh * (n div nh) < n"
proof -
  have a: "nh * (n div nh) \<le> n" by simp
  have b: "nh * (n div nh) \<noteq> n"
  proof
    assume "nh * (n div nh) = n"
    then have "nh dvd n" using dvd_triv_left[of nh "n div nh"] by simp
    then show False using assms(2) by simp
  qed
  show ?thesis using a b by linarith
qed

lemma Block_forward_misconfigured:
  assumes "wf_Block nh b" "0 < nh" "\<not> nh dvd n_embd"
    "shape3 B T n_embd x" "0 < B" "0 < T" "T \<le> block_size"
  shows "Block_forward b x = Inl (if nh \<le> n_embd then RuntimeError else ZeroDivisionError)"
proof -
  have wm: "wf_MultiHeadAttention nh (n_embd div nh) (sa b)" and w1: "wf_LayerNorm (ln1 b)"
    using assms(1) by (simp_all add: wf_Block_def)
  note l1 = LayerNorm_forward_ok[OF w1 assms(4)]
  have m: "MultiHeadAttention_forward (sa b) (map (map (LayerNorm_vec (ln1 b))) x) =
        Inl (if nh \<le> n_embd then RuntimeError else ZeroDivisionError)"
  proof (cases "nh \<le> n_embd")
    case True
    then have p: "0 < n_embd div nh" using assms(2) by (simp add: div_greater_zero_iff)
    have "nh * (n_embd div nh) \<noteq> n_embd"
      using not_dvd_floor_less[OF assms(2,3)] by simp
    then show ?thesis
      using MultiHeadAttention_forward_width_mismatch[OF wm assms(2) p _ l1(2) assms(5,6,7)] True
      by simp
  next
    case False
    then have z: "n_embd div nh = 0" by simp
    show ?thesis
      using MultiHeadAttention_forward_zero_width[OF wm[unfolded z] assms(2) l1(2)] False by simp
  qed
  show ?thesis
    by (simp only: Block_forward_def l1(1) bind_e_simps m)
qed

text \<open>
  Claim C9, amended. A head count of 0 raises ZeroDivisionError in the constructor. For
  a positive head count that does not divide \<open>n_embd\<close> the constructor returns a block
  whose heads have the floored width \<open>n_embd div n_head\<close>, so that the joined width is
  below \<open>n_embd\<close>; the error surfaces in the forward pass, on every input of shape
  \<open>(B, T, n_embd)\<close> with \<open>B, T \<ge> 1\<close> and \<open>T \<le> block_size\<close>: a RuntimeError of the output
  projection, or a ZeroDivisionError of the first head when the floored width is 0.
\<close>

theorem Block_init_floors_head_width:
  "(n_head = 0 \<longrightarrow> Block_init n_emd n_head vals = Inl ZeroDivisionError) \<and>
   (0 < n_head \<and> \<not> n_head dvd n_embd \<longrightarrow>
      (\<exists>b v. Block_init n_emd n_head vals = Inr (b, v) \<and>
             length (heads (sa b)) = n_head \<and>
             list_all (wf_Head (n_embd div n_head)) (heads (sa b)) \<and>
             n_head * (n_embd div n_head) < n_embd \<and>
             (\<forall>B T x. shape3 B T n_embd x \<and> 0 < B \<and> 0 < T \<and> T \<le> block_size \<longrightarrow>
                Block_forward b x =
                  Inl (if n_head \<le> n_embd then RuntimeError else ZeroDivisionError))))"
proof (intro conjI impI)
  assume "n_head = 0"
  then show "Block_init n_emd n_head vals = Inl ZeroDivisionError"
    by (simp add: Block_init_def)
next
  assume h: "0 < n_head \<and> \<not> n_head dvd n_embd"
  then have p: "0 < n_head" and nd: "\<not> n_head dvd n_embd" by simp_all
  obtain b v where bi: "Block_init n_emd n_head vals = Inr (b, v)" and wb: "wf_Block n_head b"
    using Block_init_ok[OF p, of n_emd vals] by blast
  have c2: "length (heads (sa b)) = n_head"
    and c3: "list_all (wf_Head (n_embd div n_head)) (heads (sa b))"
    using wb by (simp_all add: wf_Block_def wf_MultiHeadAttention_def)
  have c4: "n_head * (n_embd div n_head) < n_embd" using p nd by (rule not_dvd_floor_less)
  have c5: "\<forall>B T x. shape3 B T n_embd x \<and> 0 < B \<and> 0 < T \<and> T \<le> block_size \<longrightarrow>
                Block_forward b x =
                  Inl (if n_head \<le> n_embd then RuntimeError else ZeroDivisionError)"
  proof (intro allI impI)
    fix B T and x :: tensor3 assume "shape3 B T n_embd x \<and> 0 < B \<and> 0 < T \<and> T \<le> block_size"
    then show "Block_forward b x =
                  Inl (if n_head \<le> n_embd then RuntimeError else ZeroDivisionError)"
      using Block_forward_misconfigured[OF wb p nd, of B T x] by simp
  qed
  show "\<exists>b v. Block_init n_emd n_head vals = Inr (b, v) \<and>
             length (heads (sa b)) = n_head \<and>
             list_all (wf_Head (n_embd div n_head)) (heads (sa b)) \<and>
             n_head * (n_embd div n_head) < n_embd \<and>
             (\<forall>B T x. shape3 B T n_embd x \<and> 0 < B \<and> 0 < T \<and> T \<le> block_size \<longrightarrow>
                Block_forward b x =
                  Inl (if n_head \<le> n_embd then RuntimeError else ZeroDivisionError))"
    by (rule exI[of _ b], rule exI[of _ v]) (intro conjI bi c2 c3 c4 c5)
qed

lemma heads_key_width:
  "list_all (wf_Head hs) hl \<Longrightarrow> map (\<lambda>h. out_features (key h)) hl = replicate (length hl) hs"
  by (induction hl) (simp_all add: wf_Head_def wf_Linear_def)

theorem Block_init_floors_head_width_witness:
  "(0::nat) < 3 \<and> \<not> 3 dvd n_embd \<and> shape3 1 2 n_embd [[replicate 32 (1::real), replicate 32 2]] \<and>
   (0::nat) < 1 \<and> (0::nat) < 2 \<and> 2 \<le> block_size \<and>
   \<not> isl (Block_init n_embd 3 example_vals) \<and>
   Block_forward (fst (projr (Block_init n_embd 3 example_vals)))
     [[replicate 32 1, replicate 32 2]] = Inl RuntimeError"
proof -
  let ?x = "[[replicate 32 (1::real), replicate 32 2]]"
  have a: "(0::nat) < 3" by simp
  have b: "\<not> 3 dvd n_embd" by (simp add: n_embd_def)
  have c: "shape3 1 2 n_embd ?x" by (simp add: shape3_def is_mat_def n_embd_def)
  have d: "2 \<le> block_size" by (simp add: block_size_def)
  note th = conjunct2[OF Block_init_floors_head_width[of 3 n_embd example_vals]]
  from mp[OF th conjI[OF a b]]
  obtain bl v where bi: "Block_init n_embd 3 example_vals = Inr (bl, v)"
    and f: "\<forall>B T x. shape3 B T n_embd x \<and> 0 < B \<and> 0 < T \<and> T \<le> block_size \<longrightarrow>
                Block_forward bl x = Inl (if 3 \<le> n_embd then RuntimeError else ZeroDivisionError)"
    by blast
  have e: "\<not> isl (Block_init n_embd 3 example_vals)" using bi by simp
  have "Block_forward bl ?x = Inl (if 3 \<le> n_embd then RuntimeError else ZeroDivisionError)"
    using f[rule_format, of 1 2 ?x] c d by simp
  then have g: "Block_forward (fst (projr (Block_init n_embd 3 example_vals))) ?x = Inl RuntimeError"
    using bi by (simp add: n_embd_def)
  show ?thesis by (intro conjI a b c d e g) simp_all
qed

text \<open>
  Claim C9 as stated fails: with \<open>n_embd = 32\<close> and three heads the constructor raises
  no error and builds three heads of width 10.
\<close>

theorem Block_init_no_error_counterexample:
  "\<not> 3 dvd n_embd \<and> \<not> isl (Block_init n_embd 3 example_vals) \<and>
   map (\<lambda>h. out_features (key h)) (heads (sa (fst (projr (Block_init n_embd 3 example_vals))))) =
     [10, 10, 10]"
proof -
  have a: "\<not> 3 dvd n_embd" by (simp add: n_embd_def)
  have b: "\<not> isl (Block_init n_embd 3 example_vals)" by (rule Block_init_projr) simp
  have "wf_Block 3 (fst (projr (Block_init n_embd 3 example_vals)))"
    by (rule Block_init_projr) simp
  then have l: "length (heads (sa (fst (projr (Block_init n_embd 3 example_vals))))) = 3"
    and w: "list_all (wf_Head (n_embd div 3)) (heads (sa (fst (projr (Block_init n_embd 3 example_vals)))))"
    by (simp_all add: wf_Block_def wf_MultiHeadAttention_def)
  have d: "n_embd div 3 = 10" by (simp add: n_embd_def)
  have r: "replicate 3 (10::nat) = [10, 10, 10]" by (simp add: numeral_3_eq_3)
  have c: "map (\<lambda>h. out_features (key h)) (heads (sa (fst (projr (Block_init n_embd 3 example_vals))))) =
     [10, 10, 10]"
    using heads_key_width[OF w] by (simp only: l d r)
  show ?thesis by (intro conjI a b c)
qed

section \<open>The forward pass of the language model\<close>

lemma blocks_forward_ok:
  assumes "list_all (wf_Block nh) bs" "nh dvd n_embd" "shape3 B T n_embd x" "T \<le> block_size"
  shows "blocks_forward bs x = Inr (blocks_out bs x) \<and> shape3 B T n_embd (blocks_out bs x)"
  using assms(1,3)
proof (induction bs arbitrary: x)
  case Nil
  then show ?case by (simp add: blocks_out_def)
next
  case (Cons b bs)
  then have wb: "wf_Block nh b" and wbs: "list_all (wf_Block nh) bs" by simp_all
  note bo = Block_forward_ok[OF wb assms(2) Cons.prems(2) assms(4)]
  have "blocks_forward bs (Block_out b x) = Inr (blocks_out bs (Block_out b x)) \<and>
        shape3 B T n_embd (blocks_out bs (Block_out b x))"
    using Cons.IH[OF wbs bo(2)] .
  then show ?case by (simp add: bo(1) blocks_out_def)
qed

lemma is_mat_iff:
  "is_mat r c m \<longleftrightarrow> length m = r \<and> (\<forall>i<r. length (m ! i) = c)"
  by (auto simp: is_mat_def list_all_length)

lemma is_mat_idx_T: "is_mat B T idx \<Longrightarrow> 0 < B \<Longrightarrow> idx_T idx = T"
  by (cases idx) (auto simp: is_mat_def idx_T_def)

lemma is_mat_idx_T_le: "is_mat B T idx \<Longrightarrow> idx_T idx \<le> T"
  by (cases idx) (auto simp: is_mat_def idx_T_def)

lemma shape3_idx_T:
  assumes "is_mat B T idx" "shape3 B (idx_T idx) D y"
  shows "shape3 B T D y"
proof (cases "B = 0")
  case True
  then show ?thesis using assms(2) by (simp add: shape3_iff)
next
  case False
  then show ?thesis using assms is_mat_idx_T[of B T idx] by simp
qed

lemma embed_ok:
  assumes "wf_model V m" "is_mat B T idx" "T \<le> block_size" "tokens_below V idx"
  shows "Embedding_forward2 (token_embedding_table m) idx =
           Inr (map (map (\<lambda>i. emb_weight (token_embedding_table m) ! i)) idx)"
    and "Embedding_forward1 (position_embedding_table m) [0..<idx_T idx] =
           Inr (map (\<lambda>i. emb_weight (position_embedding_table m) ! i) [0..<idx_T idx])"
    and "shape3 B T n_embd (embed m idx)"
proof -
  have wt: "wf_Embedding V n_embd (token_embedding_table m)"
    and wp: "wf_Embedding block_size n_embd (position_embedding_table m)"
    using assms(1) by (simp_all add: wf_model_def)
  show "Embedding_forward2 (token_embedding_table m) idx =
           Inr (map (map (\<lambda>i. emb_weight (token_embedding_table m) ! i)) idx)"
    using wt assms(4) by (simp add: Embedding_forward2_def wf_Embedding_def tokens_below_def)
  have le: "idx_T idx \<le> block_size" using is_mat_idx_T_le[OF assms(2)] assms(3) by simp
  then show "Embedding_forward1 (position_embedding_table m) [0..<idx_T idx] =
           Inr (map (\<lambda>i. emb_weight (position_embedding_table m) ! i) [0..<idx_T idx])"
    using wp by (simp add: Embedding_forward1_def wf_Embedding_def list_all_iff)
  have "shape3 B (idx_T idx) n_embd (embed m idx)"
    unfolding shape3_iff
  proof (intro conjI allI impI)
    show "length (embed m idx) = B" using assms(2) by (simp add: embed_def is_mat_iff)
    fix b assume b: "b < B"
    then have lb: "b < length idx" and lr: "length (idx ! b) = idx_T idx"
      using assms(2) is_mat_idx_T[OF assms(2)] by (simp_all add: is_mat_iff)
    show "length (embed m idx ! b) = idx_T idx"
      using lb lr by (simp add: embed_def)
    fix t assume t: "t < idx_T idx"
    have tok: "idx ! b ! t < V"
      using assms(4) lb lr t by (simp add: tokens_below_def list_all_length)
    have "length (emb_weight (token_embedding_table m) ! (idx ! b ! t)) = n_embd"
      using wt tok by (simp add: wf_Embedding_def is_mat_iff)
    moreover have "length (emb_weight (position_embedding_table m) ! t) = n_embd"
      using wp t le by (simp add: wf_Embedding_def is_mat_iff)
    ultimately show "length (embed m idx ! b ! t) = n_embd"
      using lb lr t by (simp add: embed_def)
  qed
  then show "shape3 B T n_embd (embed m idx)" using assms(2) shape3_idx_T by blast
qed

lemma logits_ok:
  assumes "wf_model V m" "is_mat B T idx" "T \<le> block_size" "tokens_below V idx"
  shows "forward m idx targets =
           (case targets of
              None \<Rightarrow> Inr (Logits3 (logits_out m idx), None)
            | Some tg \<Rightarrow>
                if length (concat tg) \<noteq> length idx * idx_T idx then Inl RuntimeError
                else bind_e (cross_entropy (concat (logits_out m idx)) (concat tg)) (\<lambda>loss.
                     Inr (Logits2 (concat (logits_out m idx)), Some loss)))"
    and "shape3 B T V (logits_out m idx)"
proof -
  have wb: "list_all (wf_Block 4) (blocks m)" and wl: "wf_LayerNorm (blocks_ln m)"
    and wh: "wf_Linear n_embd V True (lm_head m)"
    using assms(1) by (simp_all add: wf_model_def)
  note e = embed_ok[OF assms]
  have d4: "4 dvd n_embd" by (simp add: n_embd_def)
  note b = blocks_forward_ok[OF wb d4 e(3) assms(3)]
  note l = LayerNorm_forward_ok[OF wl conjunct2[OF b], folded LayerNorm_out_def]
  note h = Linear_forward_ok[OF wh l(2), folded logits_out_def]
  show "shape3 B T V (logits_out m idx)" by (rule h(2))
  have x: "map (\<lambda>tb. map2 (map2 (+)) tb
                  (map (\<lambda>i. emb_weight (position_embedding_table m) ! i) [0..<idx_T idx]))
         (map (map (\<lambda>i. emb_weight (token_embedding_table m) ! i)) idx) = embed m idx"
    by (simp only: embed_def)
  show "forward m idx targets =
           (case targets of
              None \<Rightarrow> Inr (Logits3 (logits_out m idx), None)
            | Some tg \<Rightarrow>
                if length (concat tg) \<noteq> length idx * idx_T idx then Inl RuntimeError
                else bind_e (cross_entropy (concat (logits_out m idx)) (concat tg)) (\<lambda>loss.
                     Inr (Logits2 (concat (logits_out m idx)), Some loss)))"
    unfolding forward_def Let_def idx_T_def[symmetric] e(1) e(2) bind_e_simps x
      conjunct1[OF b] l(1) h(1)
    by (rule refl)
qed

lemma Embedding_init_wf: "wf_Embedding n d (fst (Embedding_init n d vals))"
  by (simp add: wf_Embedding_def Embedding_init_def take_mat_is_mat)

lemma BigramLanguageModel_init_ok:
  "\<not> isl (BigramLanguageModel_init V vals) \<and>
   wf_model V (fst (projr (BigramLanguageModel_init V vals))) \<and>
   training (fst (projr (BigramLanguageModel_init V vals)))"
proof -
  obtain te v1 where te: "Embedding_init V n_embd vals = (te, v1)"
    by (cases "Embedding_init V n_embd vals")
  obtain pe v2 where pe: "Embedding_init block_size n_embd v1 = (pe, v2)"
    by (cases "Embedding_init block_size n_embd v1")
  obtain b1 v3 where b1: "Block_init n_embd 4 v2 = Inr (b1, v3)" "wf_Block 4 b1"
    using Block_init_ok[of 4 n_embd v2] by auto
  obtain b2 v4 where b2: "Block_init n_embd 4 v3 = Inr (b2, v4)" "wf_Block 4 b2"
    using Block_init_ok[of 4 n_embd v3] by auto
  obtain b3 v5 where b3: "Block_init n_embd 4 v4 = Inr (b3, v5)" "wf_Block 4 b3"
    using Block_init_ok[of 4 n_embd v4] by auto
  obtain lh v6 where lh: "Linear_init n_embd V True v5 = (lh, v6)"
    by (cases "Linear_init n_embd V True v5")
  have w1: "wf_Embedding V n_embd te" using Embedding_init_wf[of V n_embd vals] te by simp
  have w2: "wf_Embedding block_size n_embd pe"
    using Embedding_init_wf[of block_size n_embd v1] pe by simp
  have w3: "wf_Linear n_embd V True lh" using Linear_init_wf[of n_embd V True v5] lh by simp
  have "BigramLanguageModel_init V vals =
      Inr (\<lparr>token_embedding_table = te, position_embedding_table = pe,
            blocks = [b1, b2, b3], blocks_ln = LayerNorm_init n_embd,
            lm_head = lh, training = True\<rparr>, v6)"
    by (simp add: BigramLanguageModel_init_def te pe b1(1) b2(1) b3(1) lh)
  then show ?thesis
    using w1 w2 w3 b1(2) b2(2) b3(2) by (simp add: wf_model_def LayerNorm_init_wf)
qed

lemma forward_None_loss:
  "forward m idx None = Inr r \<Longrightarrow> snd r = None \<and> (\<exists>l. fst r = Logits3 l)"
  by (auto simp: forward_def bind_e_def Let_def split: sum.splits)

lemma forward_Some_loss:
  "forward m idx (Some tg) = Inr r \<Longrightarrow> \<exists>l s. r = (Logits2 l, Some s)"
  by (auto simp: forward_def bind_e_def Let_def split: sum.splits if_splits)

lemma length_concat_shape3:
  "shape3 B T V L \<Longrightarrow> length (concat L) = B * T"
proof (induction L arbitrary: B)
  case Nil
  then show ?case by (simp add: shape3_def)
next
  case (Cons a L)
  then obtain B' where B': "B = Suc B'" "length a = T" "shape3 B' T V L"
    by (cases B) (auto simp: shape3_def is_mat_def)
  then show ?case using Cons.IH[of B'] by simp
qed

lemma length_concat_is_mat:
  "is_mat B T tg \<Longrightarrow> length (concat tg) = B * T"
proof (induction tg arbitrary: B)
  case Nil
  then show ?case by (simp add: is_mat_def)
next
  case (Cons a tg)
  then obtain B' where B': "B = Suc B'" "length a = T" "is_mat B' T tg"
    by (cases B) (auto simp: is_mat_def)
  then show ?case using Cons.IH[of B'] by simp
qed

lemma list_all2_concat:
  "list_all2 (list_all2 P) xs ys \<Longrightarrow> list_all2 P (concat xs) (concat ys)"
  by (induction rule: list_all2_induct) (auto intro: list_all2_appendI)

lemma sum_list_map2_concat:
  fixes f :: "'a \<Rightarrow> 'b \<Rightarrow> real"
  assumes "list_all2 (\<lambda>x y. length x = length y) xs ys"
  shows "sum_list (map2 f (concat xs) (concat ys)) =
         sum_list (map2 (\<lambda>x y. sum_list (map2 f x y)) xs ys)"
  using assms by (induction rule: list_all2_induct) simp_all

lemma sum_list_map2_nth:
  fixes g :: "'a \<Rightarrow> 'b \<Rightarrow> real"
  assumes "length xs = n" "length ys = n"
  shows "sum_list (map2 g xs ys) = (\<Sum>i<n. g (xs ! i) (ys ! i))"
proof -
  have "sum_list (map2 g xs ys) = (\<Sum>i = 0..<length (map2 g xs ys). map2 g xs ys ! i)"
    by (rule sum_list_sum_nth)
  also have "\<dots> = (\<Sum>i = 0..<n. g (xs ! i) (ys ! i))"
    using assms by (intro sum.cong) simp_all
  finally show ?thesis by (simp add: atLeast0LessThan)
qed

lemma cross_entropy_sum:
  fixes f :: "real list \<Rightarrow> nat \<Rightarrow> real"
  assumes "shape3 B T V L" "is_mat B T tg"
  shows "sum_list (map2 f (concat L) (concat tg)) = (\<Sum>b<B. \<Sum>t<T. f (L ! b ! t) (tg ! b ! t))"
proof -
  have lens: "length L = B" "length tg = B"
    and rows: "\<And>b. b < B \<Longrightarrow> length (L ! b) = T \<and> length (tg ! b) = T"
    using assms by (simp_all add: shape3_iff is_mat_iff)
  have a2: "list_all2 (\<lambda>x y. length x = length y) L tg"
    using lens rows by (simp add: list_all2_conv_all_nth)
  have "sum_list (map2 f (concat L) (concat tg)) =
        sum_list (map2 (\<lambda>x y. sum_list (map2 f x y)) L tg)"
    using a2 by (rule sum_list_map2_concat)
  also have "\<dots> = (\<Sum>b<B. sum_list (map2 f (L ! b) (tg ! b)))"
    using lens by (rule sum_list_map2_nth)
  also have "\<dots> = (\<Sum>b<B. \<Sum>t<T. f (L ! b ! t) (tg ! b ! t))"
  proof (rule sum.cong)
    fix b assume "b \<in> {..<B}"
    then have "length (L ! b) = T" "length (tg ! b) = T" using rows by simp_all
    then show "sum_list (map2 f (L ! b) (tg ! b)) = (\<Sum>t<T. f (L ! b ! t) (tg ! b ! t))"
      by (rule sum_list_map2_nth)
  qed simp
  finally show ?thesis .
qed

lemma cross_entropy_ok:
  assumes "shape3 B T V L" "is_mat B T tg" "tokens_below V tg"
  shows "cross_entropy (concat L) (concat tg) =
           Inr (if B * T = 0 then Nan
                else Val ((\<Sum>b<B. \<Sum>t<T. - ln (softmax (L ! b ! t) ! (tg ! b ! t))) / real (B * T)))"
proof -
  have l1: "length (concat L) = B * T" using assms(1) by (rule length_concat_shape3)
  have l2: "length (concat tg) = B * T" using assms(2) by (rule length_concat_is_mat)
  have lens: "length L = B" "length tg = B"
    and rows: "\<And>b. b < B \<Longrightarrow> length (L ! b) = T \<and> length (tg ! b) = T"
    and cols: "\<And>b t. b < B \<Longrightarrow> t < T \<Longrightarrow> length (L ! b ! t) = V"
    using assms(1,2) by (simp_all add: shape3_iff is_mat_iff)
  have tk: "\<And>b t. b < B \<Longrightarrow> t < T \<Longrightarrow> tg ! b ! t < V"
    using assms(3) lens rows by (simp add: tokens_below_def list_all_length)
  have "list_all2 (list_all2 (\<lambda>row t. t < length row)) L tg"
    using lens rows cols tk by (simp add: list_all2_conv_all_nth)
  then have g: "list_all2 (\<lambda>row t. t < length row) (concat L) (concat tg)"
    by (rule list_all2_concat)
  have e: "(concat L = []) = (B * T = 0)"
    unfolding l1[symmetric] by (rule length_0_conv[symmetric])
  show ?thesis
    using g l1 l2 e cross_entropy_sum[OF assms(1,2), of "\<lambda>row t. - ln (softmax row ! t)"]
    by (simp add: cross_entropy_def)
qed

text \<open>
  Claim C4. Whenever the forward pass returns without targets, the loss is \<^verbatim>\<open>None\<close>
  and the logits have three dimensions; whenever it returns with targets, a loss is
  present, beside the logits flattened to two dimensions. For a model with the shapes
  its constructor builds, indices of shape \<open>(B, T)\<close> below the vocabulary size and
  \<open>T \<le> block_size\<close>, the pass without targets returns logits of shape \<open>(B, T, V)\<close>, and with
  targets of shape \<open>(B, T)\<close> below the vocabulary size it returns the mean, over all
  \<open>B * T\<close> pairs of a position and its target, of minus the logarithm of the softmax
  probability of the target (NaN when there is no pair).
\<close>

theorem forward_returns_logits_and_loss:
  "(\<forall>r. forward m idx None = Inr r \<longrightarrow> snd r = None \<and> (\<exists>l. fst r = Logits3 l)) \<and>
   (\<forall>tg r. forward m idx (Some tg) = Inr r \<longrightarrow> (\<exists>l s. r = (Logits2 l, Some s))) \<and>
   (wf_model V m \<and> is_mat B T idx \<and> T \<le> block_size \<and> tokens_below V idx \<longrightarrow>
      forward m idx None = Inr (Logits3 (logits_out m idx), None) \<and>
      shape3 B T V (logits_out m idx) \<and>
      (\<forall>tg. is_mat B T tg \<and> tokens_below V tg \<longrightarrow>
         forward m idx (Some tg) =
           Inr (Logits2 (concat (logits_out m idx)),
                Some (if B * T = 0 then Nan
                      else Val ((\<Sum>b<B. \<Sum>t<T.
                                   - ln (softmax (logits_out m idx ! b ! t) ! (tg ! b ! t))) /
                                real (B * T))))))"
proof (intro conjI allI impI)
  fix r assume "forward m idx None = Inr r"
  then show "snd r = None" "\<exists>l. fst r = Logits3 l"
    using forward_None_loss by blast+
next
  fix tg r assume "forward m idx (Some tg) = Inr r"
  then show "\<exists>l s. r = (Logits2 l, Some s)" by (rule forward_Some_loss)
next
  assume h: "wf_model V m \<and> is_mat B T idx \<and> T \<le> block_size \<and> tokens_below V idx"
  then have w: "wf_model V m" and i: "is_mat B T idx" and T: "T \<le> block_size"
    and tk: "tokens_below V idx" by simp_all
  show "forward m idx None = Inr (Logits3 (logits_out m idx), None)"
    using logits_ok(1)[OF w i T tk, of None] by simp
  show sh: "shape3 B T V (logits_out m idx)" by (rule logits_ok(2)[OF w i T tk])
  fix tg assume t: "is_mat B T tg \<and> tokens_below V tg"
  then have tm: "is_mat B T tg" and tt: "tokens_below V tg" by simp_all
  have n: "length (concat tg) = length idx * idx_T idx"
  proof (cases "B = 0")
    case True
    then show ?thesis using i tm by (simp add: is_mat_iff)
  next
    case False
    then have "idx_T idx = T" using is_mat_idx_T[OF i] by simp
    moreover have "length idx = B" using i by (simp add: is_mat_iff)
    ultimately show ?thesis using length_concat_is_mat[OF tm] by simp
  qed
  show "forward m idx (Some tg) =
           Inr (Logits2 (concat (logits_out m idx)),
                Some (if B * T = 0 then Nan
                      else Val ((\<Sum>b<B. \<Sum>t<T.
                                   - ln (softmax (logits_out m idx ! b ! t) ! (tg ! b ! t))) /
                                real (B * T))))"
    using logits_ok(1)[OF w i T tk, of "Some tg"] n cross_entropy_ok[OF sh tm tt]
    by (simp del: mult_eq_0_iff)
qed

theorem forward_returns_logits_and_loss_witness:
  "wf_model 3 (fst (projr (BigramLanguageModel_init 3 example_vals))) \<and>
   is_mat 1 2 [[0, 1::nat]] \<and> 2 \<le> block_size \<and> tokens_below 3 [[0, 1]] \<and>
   is_mat 1 2 [[1, 2::nat]] \<and> tokens_below 3 [[1, 2]] \<and>
   forward (fst (projr (BigramLanguageModel_init 3 example_vals))) [[0, 1]] None =
     Inr (Logits3 (logits_out (fst (projr (BigramLanguageModel_init 3 example_vals))) [[0, 1]]), None) \<and>
   \<not> isl (forward (fst (projr (BigramLanguageModel_init 3 example_vals))) [[0, 1]] (Some [[1, 2]]))"
proof -
  let ?m = "fst (projr (BigramLanguageModel_init 3 example_vals))"
  have a: "wf_model 3 ?m" using BigramLanguageModel_init_ok[of 3 example_vals] by simp
  have b: "is_mat 1 2 [[0, 1::nat]]" by (simp add: is_mat_def)
  have c: "2 \<le> block_size" by (simp add: block_size_def)
  have d: "tokens_below 3 [[0, 1]]" by (simp add: tokens_below_def)
  have e: "is_mat 1 2 [[1, 2::nat]]" by (simp add: is_mat_def)
  have f: "tokens_below 3 [[1, 2]]" by (simp add: tokens_below_def)
  note th = forward_returns_logits_and_loss[of ?m "[[0, 1]]" 3 1 2]
  note th3 = mp[OF conjunct2[OF conjunct2[OF th]], OF conjI[OF a conjI[OF b conjI[OF c d]]]]
  have g: "forward ?m [[0, 1]] None = Inr (Logits3 (logits_out ?m [[0, 1]]), None)"
    by (rule conjunct1[OF th3])
  have "\<exists>y. forward ?m [[0, 1]] (Some [[1, 2]]) = Inr y"
    using conjunct2[OF conjunct2[OF th3], rule_format, of "[[1, 2]]"] e f by blast
  then have h: "\<not> isl (forward ?m [[0, 1]] (Some [[1, 2]]))" by auto
  show ?thesis by (intro conjI a b c d e f g h)
qed

section \<open>The batch sampler\<close>

lemma batch_size_pos: "0 < batch_size" by (simp add: batch_size_def)

lemma stack_ok:
  assumes "ts \<noteq> []" "\<And>t. t \<in> set ts \<Longrightarrow> length t = n"
  shows "stack ts = Inr ts"
  using assms by (cases ts) (auto simp: stack_def list_all_iff)

lemma randint_ok:
  assumes "b < L"
  shows "randint (int L - int b) n g = Inr (map (\<lambda>k. g k mod (L - b)) [0..<n], advance n g)"
  using assms by (simp add: randint_def nat_diff_distrib')

lemma randint_fail:
  assumes "L \<le> b"
  shows "randint (int L - int b) n g = Inl RuntimeError"
  using assms by (simp add: randint_def)

lemma offsets_range:
  assumes "block_size < length data" "i \<in> set (offsets data g)"
  shows "i < length data - block_size"
  using assms by (auto simp: offsets_def)

lemma length_offsets: "length (offsets data g) = batch_size"
  by (simp add: offsets_def)

lemma slice_window:
  assumes "i + n \<le> length data"
  shows "length (slice i (i + n) data) = n" and "t < n \<Longrightarrow> slice i (i + n) data ! t = data ! (i + t)"
  using assms by (simp_all add: slice_def)

lemma get_batch_ok:
  assumes "block_size < length (split_data c split)"
  shows "get_batch c split g =
           Inr ((map (\<lambda>i. slice i (i + block_size) (split_data c split))
                     (offsets (split_data c split) g),
                 map (\<lambda>i. slice (i + 1) (i + block_size + 1) (split_data c split))
                     (offsets (split_data c split) g)),
                advance batch_size g)"
proof -
  let ?data = "split_data c split"
  let ?ix = "offsets ?data g"
  let ?x = "map (\<lambda>i. slice i (i + block_size) ?data) ?ix"
  let ?y = "map (\<lambda>i. slice (i + 1) (i + block_size + 1) ?data) ?ix"
  have r: "randint (int (length ?data) - int block_size) batch_size g =
             Inr (?ix, advance batch_size g)"
    using randint_ok[OF assms, of batch_size g] by (simp add: offsets_def)
  have ne: "?ix \<noteq> []" using length_offsets[of ?data g] batch_size_pos by auto
  have sx: "stack ?x = Inr ?x"
  proof (rule stack_ok[where n = block_size])
    show "?x \<noteq> []" using ne by simp
    fix t assume "t \<in> set ?x"
    then obtain i where i: "i \<in> set ?ix" "t = slice i (i + block_size) ?data" by auto
    have "i + block_size \<le> length ?data" using offsets_range[OF assms i(1)] by simp
    then show "length t = block_size" using i(2) slice_window(1) by simp
  qed
  have sy: "stack ?y = Inr ?y"
  proof (rule stack_ok[where n = block_size])
    show "?y \<noteq> []" using ne by simp
    fix t assume "t \<in> set ?y"
    then obtain i where i: "i \<in> set ?ix" "t = slice (i + 1) (i + block_size + 1) ?data" by auto
    have "(i + 1) + block_size \<le> length ?data" using offsets_range[OF assms i(1)] by simp
    then have "length (slice (i + 1) ((i + 1) + block_size) ?data) = block_size"
      by (rule slice_window(1))
    then show "length t = block_size" using i(2) by (simp add: add.commute add.left_commute)
  qed
  show ?thesis
    unfolding get_batch_def Let_def split_data_def[symmetric] r bind_e_simps prod.case sx sy
    by (rule refl)
qed

lemma get_batch_fail:
  assumes "length (split_data c split) \<le> block_size"
  shows "get_batch c split g = Inl RuntimeError"
  using randint_fail[OF assms, of batch_size g]
  by (simp add: get_batch_def split_data_def)

text \<open>
  Claim C3. With \<open>data\<close> the selected split and \<open>L\<close> its length: for \<open>L\<close> above \<open>block_size\<close> the
  call returns inputs and targets of shape \<open>(batch_size, block_size)\<close>, built from
  \<open>batch_size\<close> offsets each below \<open>L - block_size\<close>; input \<open>k\<close> is the slice of the data
  from its offset \<open>i\<close> to \<open>i + block_size\<close>, and target \<open>k\<close> at \<open>t\<close> is \<open>data[i + t + 1]\<close>, the
  input shifted by one. For \<open>L\<close> up to \<open>block_size\<close> the call raises a RuntimeError.
\<close>

theorem get_batch_input_target_windows:
  "(block_size < length (split_data c split) \<longrightarrow>
      (\<exists>x y. get_batch c split g = Inr ((x, y), advance batch_size g) \<and>
         is_mat batch_size block_size x \<and> is_mat batch_size block_size y \<and>
         length (offsets (split_data c split) g) = batch_size \<and>
         (\<forall>k<batch_size.
            offsets (split_data c split) g ! k < length (split_data c split) - block_size \<and>
            x ! k = slice (offsets (split_data c split) g ! k)
                          (offsets (split_data c split) g ! k + block_size) (split_data c split) \<and>
            (\<forall>t<block_size.
               x ! k ! t = split_data c split ! (offsets (split_data c split) g ! k + t) \<and>
               y ! k ! t = split_data c split ! (offsets (split_data c split) g ! k + t + 1))))) \<and>
   (length (split_data c split) \<le> block_size \<longrightarrow> get_batch c split g = Inl RuntimeError)"
proof (intro conjI impI)
  assume "length (split_data c split) \<le> block_size"
  then show "get_batch c split g = Inl RuntimeError" by (rule get_batch_fail)
next
  let ?data = "split_data c split"
  let ?ix = "offsets ?data g"
  let ?x = "map (\<lambda>i. slice i (i + block_size) ?data) ?ix"
  let ?y = "map (\<lambda>i. slice (i + 1) (i + block_size + 1) ?data) ?ix"
  assume L: "block_size < length ?data"
  have c1: "get_batch c split g = Inr ((?x, ?y), advance batch_size g)"
    using L by (rule get_batch_ok)
  have len: "length ?ix = batch_size" by (rule length_offsets)
  have rng: "\<And>k. k < batch_size \<Longrightarrow> ?ix ! k < length ?data - block_size"
    using offsets_range[OF L, of _ g] len by simp
  have xk: "\<And>k. k < batch_size \<Longrightarrow> ?x ! k = slice (?ix ! k) (?ix ! k + block_size) ?data"
    using len by simp
  have c2: "is_mat batch_size block_size ?x"
    unfolding is_mat_iff
  proof (intro conjI allI impI)
    show "length ?x = batch_size" using len by simp
    fix k assume k: "k < batch_size"
    have "?ix ! k + block_size \<le> length ?data" using rng[OF k] by simp
    then show "length (?x ! k) = block_size" using xk[OF k] slice_window(1) by simp
  qed
  have c3: "is_mat batch_size block_size ?y"
    unfolding is_mat_iff
  proof (intro conjI allI impI)
    show "length ?y = batch_size" using len by simp
    fix k assume k: "k < batch_size"
    show "length (?y ! k) = block_size" using rng[OF k] len k by (simp add: slice_def)
  qed
  have c5: "\<forall>k<batch_size.
            ?ix ! k < length ?data - block_size \<and>
            ?x ! k = slice (?ix ! k) (?ix ! k + block_size) ?data \<and>
            (\<forall>t<block_size.
               ?x ! k ! t = ?data ! (?ix ! k + t) \<and> ?y ! k ! t = ?data ! (?ix ! k + t + 1))"
  proof (intro allI impI conjI)
    fix k assume k: "k < batch_size"
    show "?ix ! k < length ?data - block_size" by (rule rng[OF k])
    show "?x ! k = slice (?ix ! k) (?ix ! k + block_size) ?data" by (rule xk[OF k])
    fix t assume t: "t < block_size"
    have a: "?ix ! k + block_size \<le> length ?data" using rng[OF k] by simp
    show "?x ! k ! t = ?data ! (?ix ! k + t)"
      using slice_window(2)[OF a t] xk[OF k] by simp
    show "?y ! k ! t = ?data ! (?ix ! k + t + 1)"
      using rng[OF k] len k t by (simp add: slice_def)
  qed
  show "\<exists>x y. get_batch c split g = Inr ((x, y), advance batch_size g) \<and>
         is_mat batch_size block_size x \<and> is_mat batch_size block_size y \<and>
         length ?ix = batch_size \<and>
         (\<forall>k<batch_size.
            ?ix ! k < length ?data - block_size \<and>
            x ! k = slice (?ix ! k) (?ix ! k + block_size) ?data \<and>
            (\<forall>t<block_size.
               x ! k ! t = ?data ! (?ix ! k + t) \<and> y ! k ! t = ?data ! (?ix ! k + t + 1)))"
    by (rule exI[of _ ?x], rule exI[of _ ?y]) (intro conjI c1 c2 c3 len c5)
qed

lemma example_corpus_lengths:
  "length (train_data example_corpus) = 20" "length (val_data example_corpus) = 10"
  by (simp_all add: example_corpus_def)

theorem get_batch_input_target_windows_witness:
  "block_size < length (split_data example_corpus ''train'') \<and>
   \<not> isl (get_batch example_corpus ''train'' example_rng) \<and>
   is_mat batch_size block_size (fst (fst (projr (get_batch example_corpus ''train'' example_rng)))) \<and>
   length (split_data (example_corpus\<lparr>val_data := [1, 2, 3]\<rparr>) ''val'') \<le> block_size \<and>
   get_batch (example_corpus\<lparr>val_data := [1, 2, 3]\<rparr>) ''val'' example_rng = Inl RuntimeError"
proof -
  have a: "block_size < length (split_data example_corpus ''train'')"
    by (simp add: split_data_def example_corpus_lengths block_size_def)
  from mp[OF conjunct1[OF get_batch_input_target_windows[of example_corpus "''train''" example_rng]] a]
  obtain x y where "get_batch example_corpus ''train'' example_rng = Inr ((x, y), advance batch_size example_rng)"
    "is_mat batch_size block_size x"
    by blast
  then have b: "\<not> isl (get_batch example_corpus ''train'' example_rng)"
    and c: "is_mat batch_size block_size (fst (fst (projr (get_batch example_corpus ''train'' example_rng))))"
    by simp_all
  have d: "length (split_data (example_corpus\<lparr>val_data := [1, 2, 3]\<rparr>) ''val'') \<le> block_size"
    by (simp add: split_data_def block_size_def)
  have e: "get_batch (example_corpus\<lparr>val_data := [1, 2, 3]\<rparr>) ''val'' example_rng = Inl RuntimeError"
    by (rule mp[OF conjunct2[OF get_batch_input_target_windows[of
            "example_corpus\<lparr>val_data := [1, 2, 3]\<rparr>" "''val''" example_rng]] d])
  show ?thesis by (intro conjI a b c d e)
qed

text \<open>
  Claim C10. Only the exact name \<^verbatim>\<open>train\<close> selects the training split. Every other
  name gives the result of the name \<^verbatim>\<open>val\<close>, which does not depend on the training
  data, and returns whenever the validation split is longer than \<open>block_size\<close>. The only
  error of the call is the RuntimeError of a split that is too short: no name is
  rejected.
\<close>

theorem get_batch_split_name:
  "split_data c ''train'' = train_data c \<and>
   (split \<noteq> ''train'' \<longrightarrow>
      split_data c split = val_data c \<and>
      get_batch c split g = get_batch c ''val'' g \<and>
      get_batch (c\<lparr>train_data := d\<rparr>) split g = get_batch c split g \<and>
      (block_size < length (val_data c) \<longrightarrow> \<not> isl (get_batch c split g))) \<and>
   (\<forall>e. get_batch c split g = Inl e \<longrightarrow>
      e = RuntimeError \<and> length (split_data c split) \<le> block_size)"
proof (intro conjI impI allI)
  show "split_data c ''train'' = train_data c" by (simp add: split_data_def)
next
  assume s: "split \<noteq> ''train''"
  show v: "split_data c split = val_data c" using s by (simp add: split_data_def)
  show "get_batch c split g = get_batch c ''val'' g" using s by (simp add: get_batch_def)
  show "get_batch (c\<lparr>train_data := d\<rparr>) split g = get_batch c split g"
    using s by (simp add: get_batch_def)
  assume "block_size < length (val_data c)"
  then have "block_size < length (split_data c split)" using v by simp
  then show "\<not> isl (get_batch c split g)" using get_batch_ok[of c split g] by simp
next
  fix e assume e: "get_batch c split g = Inl e"
  have le: "length (split_data c split) \<le> block_size"
  proof (rule ccontr)
    assume "\<not> length (split_data c split) \<le> block_size"
    then have "block_size < length (split_data c split)" by simp
    then show False using get_batch_ok[of c split g] e by simp
  qed
  then show "length (split_data c split) \<le> block_size" .
  show "e = RuntimeError" using get_batch_fail[OF le, of g] e by simp
qed

theorem get_batch_split_name_witness:
  "''validation'' \<noteq> ''train'' \<and> ''tran'' \<noteq> ''train'' \<and>
   block_size < length (val_data example_corpus) \<and>
   get_batch example_corpus ''validation'' example_rng = get_batch example_corpus ''val'' example_rng \<and>
   get_batch example_corpus ''tran'' example_rng = get_batch example_corpus ''val'' example_rng \<and>
   \<not> isl (get_batch example_corpus ''validation'' example_rng)"
proof -
  have a: "''validation'' \<noteq> ''train''" by simp
  have a': "''tran'' \<noteq> ''train''" by simp
  have b: "block_size < length (val_data example_corpus)"
    by (simp add: example_corpus_lengths block_size_def)
  note th = mp[OF conjunct1[OF conjunct2[OF
         get_batch_split_name[of example_corpus "''validation''" example_rng "[]"]]] a]
  note th' = mp[OF conjunct1[OF conjunct2[OF
         get_batch_split_name[of example_corpus "''tran''" example_rng "[]"]]] a']
  have c: "get_batch example_corpus ''validation'' example_rng = get_batch example_corpus ''val'' example_rng"
    by (rule conjunct1[OF conjunct2[OF th]])
  have c': "get_batch example_corpus ''tran'' example_rng = get_batch example_corpus ''val'' example_rng"
    by (rule conjunct1[OF conjunct2[OF th']])
  have d: "\<not> isl (get_batch example_corpus ''validation'' example_rng)"
    by (rule mp[OF conjunct2[OF conjunct2[OF conjunct2[OF th]]] b])
  show ?thesis by (intro conjI a a' b c c' d)
qed

section \<open>Generation: properties\<close>

lemma block_size_pos: "0 < block_size" by (simp add: block_size_def)

lemma crop_eq: "crop row = drop (length row - min (length row) block_size) row"
  using block_size_pos by (simp add: crop_def min_def)

lemma length_crop: "length (crop row) = min (length row) block_size"
  using block_size_pos by (simp add: crop_def)

lemma is_mat_crop:
  assumes "is_mat B T idx"
  shows "is_mat B (min T block_size) (map crop idx)"
  using assms by (simp add: is_mat_iff length_crop)

lemma tokens_below_iff:
  "tokens_below V idx \<longleftrightarrow> (\<forall>row\<in>set idx. \<forall>i\<in>set row. i < V)"
  by (simp add: tokens_below_def list_all_iff)

lemma tokens_below_crop:
  assumes "tokens_below V idx"
  shows "tokens_below V (map crop idx)"
proof -
  have "set (crop row) \<subseteq> set row" for row
    by (simp add: crop_def set_drop_subset)
  then show ?thesis using assms by (auto simp: tokens_below_iff)
qed

lemma sample_index_less: "p \<noteq> [] \<Longrightarrow> sample_index u p < length p"
  by (induction u p rule: sample_index.induct) auto

lemma length_softmax: "length (softmax row) = length row"
  by (simp add: softmax_def)

lemma vocab_pos:
  assumes "is_mat B T idx" "tokens_below V idx" "0 < B" "0 < T"
  shows "0 < V"
proof -
  have "idx ! 0 \<in> set idx" "idx ! 0 ! 0 \<in> set (idx ! 0)"
    using assms(1,3,4) by (auto simp: is_mat_iff)
  then have "idx ! 0 ! 0 < V" using assms(2) by (auto simp: tokens_below_iff)
  then show ?thesis by simp
qed

lemma shape3_last:
  assumes "shape3 B T D x" "b < B" "0 < T"
  shows "x ! b \<noteq> []" and "length (last (x ! b)) = D"
proof -
  have l: "length (x ! b) = T" using assms(1,2) by (simp add: shape3_iff)
  then show n: "x ! b \<noteq> []" using assms(3) by auto
  have t: "T - 1 < T" using assms(3) by simp
  have "last (x ! b) = x ! b ! (T - 1)" using last_conv_nth[OF n] l by simp
  moreover have "length (x ! b ! (T - 1)) = D"
    using assms(1,2) t by (simp only: shape3_iff)
  ultimately show "length (last (x ! b)) = D" by simp
qed

lemma generate_step:
  assumes "wf_model V m" "is_mat B T idx" "tokens_below V idx" "0 < T"
  shows "generate m idx (Suc n) g =
           generate m (extend idx (map (next_symbol m idx g) [0..<B])) n (advance B g)"
    and "forward m (map crop idx) None = Inr (Logits3 (logits_out m (map crop idx)), None)"
    and "\<forall>b<B. next_symbol m idx g b < V"
proof -
  let ?c = "map crop idx"
  let ?T = "min T block_size"
  let ?L = "logits_out m ?c"
  have ic: "is_mat B ?T ?c" using assms(2) by (rule is_mat_crop)
  have tc: "tokens_below V ?c" using assms(3) by (rule tokens_below_crop)
  have Tp: "0 < ?T" using assms(4) block_size_pos by simp
  note lo = logits_ok[OF assms(1) ic _ tc]
  show f: "forward m ?c None = Inr (Logits3 ?L, None)"
    using lo(1)[of None] by simp
  have sh: "shape3 B ?T V ?L" using lo(2) by simp
  have lenL: "length ?L = B" using sh by (simp add: shape3_iff)
  have ne: "list_all (\<lambda>lb. lb \<noteq> []) ?L"
    unfolding list_all_length using sh Tp by (auto simp: shape3_iff)
  have lastlen: "\<And>b. b < B \<Longrightarrow> length (last (?L ! b)) = V"
    using shape3_last(2)[OF sh _ Tp] by simp
  have Vp: "0 < B \<Longrightarrow> 0 < V" using vocab_pos[OF assms(2,3) _ assms(4)] by simp
  have pne: "list_all (\<lambda>p. p \<noteq> []) (map (\<lambda>lb. softmax (last lb)) ?L)"
    unfolding list_all_length
  proof (intro allI impI)
    fix b assume "b < length (map (\<lambda>lb. softmax (last lb)) ?L)"
    then have b: "b < B" using lenL by simp
    then have "length (softmax (last (?L ! b))) = V" using lastlen by (simp add: length_softmax)
    then show "map (\<lambda>lb. softmax (last lb)) ?L ! b \<noteq> []" using Vp b lenL by auto
  qed
  have mn: "multinomial (map (\<lambda>lb. softmax (last lb)) ?L) g =
          Inr (map (next_symbol m idx g) [0..<B], advance B g)"
    using pne lenL by (simp add: multinomial_def next_symbol_def)
  show "generate m idx (Suc n) g =
           generate m (extend idx (map (next_symbol m idx g) [0..<B])) n (advance B g)"
    using ne by (simp add: f mn extend_def)
  show "\<forall>b<B. next_symbol m idx g b < V"
  proof (intro allI impI)
    fix b assume b: "b < B"
    have "length (softmax (last (?L ! b))) = V" using lastlen[OF b] by (simp add: length_softmax)
    moreover have "0 < V" using Vp b by simp
    ultimately show "next_symbol m idx g b < V"
      using sample_index_less[of "softmax (last (?L ! b))" "uniform01 (g b)"]
      by (auto simp: next_symbol_def)
  qed
qed

lemma extend_props:
  assumes "is_mat B T idx" "length nxt = B"
  shows "is_mat B (Suc T) (extend idx nxt)"
    and "\<forall>b<B. extend idx nxt ! b = idx ! b @ [nxt ! b]"
  using assms by (simp_all add: extend_def is_mat_iff)

lemma tokens_below_extend:
  assumes "is_mat B T idx" "length nxt = B" "tokens_below V idx" "\<forall>b<B. nxt ! b < V"
  shows "tokens_below V (extend idx nxt)"
  unfolding tokens_below_def list_all_length
proof (intro allI impI)
  fix b i assume b: "b < length (extend idx nxt)" and i: "i < length (extend idx nxt ! b)"
  have bB: "b < B" using b assms(1,2) by (simp add: extend_def is_mat_iff)
  have e: "extend idx nxt ! b = idx ! b @ [nxt ! b]" using extend_props(2)[OF assms(1,2)] bB by simp
  have lb: "length (idx ! b) = T" "b < length idx" using assms(1) bB by (simp_all add: is_mat_iff)
  show "extend idx nxt ! b ! i < V"
  proof (cases "i < T")
    case True
    then have "idx ! b ! i < V"
      using assms(3) lb by (simp add: tokens_below_def list_all_length)
    then show ?thesis using e True lb by (simp add: nth_append)
  next
    case False
    then have "i = T" using i e lb by simp
    then show ?thesis using e lb assms(4) bB by (simp add: nth_append)
  qed
qed

lemma advance_0: "advance 0 g = g"
  by (simp add: advance_def)

lemma advance_advance: "advance a (advance b g) = advance (a + b) g"
  by (simp add: advance_def add.assoc)

lemma generate_ok:
  assumes "wf_model V m"
  shows "is_mat B T idx \<Longrightarrow> tokens_below V idx \<Longrightarrow> 0 < T \<Longrightarrow>
     \<exists>res. generate m idx n g = Inr (res, advance (n * B) g) \<and>
           is_mat B (T + n) res \<and> tokens_below V res \<and>
           (\<forall>b<B. take T (res ! b) = idx ! b) \<and>
           (\<forall>k<n. \<forall>b<B. res ! b ! (T + k) =
                            next_symbol m (map (take (T + k)) res) (advance (k * B) g) b)"
proof (induction n arbitrary: idx T g)
  case 0
  then show ?case by (simp add: advance_0 is_mat_iff)
next
  case (Suc n)
  let ?nxt = "map (next_symbol m idx g) [0..<B]"
  let ?idx1 = "extend idx ?nxt"
  let ?g1 = "advance B g"
  note st = generate_step[OF assms Suc.prems(1,2,3)]
  have ln: "length ?nxt = B" by simp
  note ex = extend_props[OF Suc.prems(1) ln]
  have nv: "\<forall>b<B. ?nxt ! b < V" using st(3)[of g] by simp
  have tk: "tokens_below V ?idx1"
    using Suc.prems(1) ln Suc.prems(2) nv by (rule tokens_below_extend)
  from Suc.IH[OF ex(1) tk, of ?g1]
  obtain res where r: "generate m ?idx1 n ?g1 = Inr (res, advance (n * B) ?g1)"
    and rm: "is_mat B (Suc T + n) res" and rt: "tokens_below V res"
    and rp: "\<forall>b<B. take (Suc T) (res ! b) = ?idx1 ! b"
    and rs: "\<forall>k<n. \<forall>b<B. res ! b ! (Suc T + k) =
                next_symbol m (map (take (Suc T + k)) res) (advance (k * B) ?g1) b"
    by auto
  have lens: "length res = B" "length idx = B"
    and rowT: "\<And>b. b < B \<Longrightarrow> length (idx ! b) = T"
    using rm Suc.prems(1) by (simp_all add: is_mat_iff)
  have c1: "generate m idx (Suc n) g = Inr (res, advance (Suc n * B) g)"
    using st(1)[of n g] r by (simp add: advance_advance add.commute)
  have c2: "is_mat B (T + Suc n) res" using rm by simp
  have pre: "\<And>b. b < B \<Longrightarrow> res ! b = idx ! b @ drop T (res ! b) \<and> res ! b ! T = ?nxt ! b"
  proof -
    fix b assume b: "b < B"
    have e: "take (Suc T) (res ! b) = idx ! b @ [?nxt ! b]" using rp ex(2) b by simp
    have "take T (res ! b) = take T (take (Suc T) (res ! b))" by simp
    also have "\<dots> = idx ! b" unfolding e using rowT[OF b] by simp
    finally have t: "take T (res ! b) = idx ! b" .
    have "res ! b ! T = take (Suc T) (res ! b) ! T" by simp
    also have "\<dots> = ?nxt ! b" unfolding e using rowT[OF b] by (simp add: nth_append)
    finally have n: "res ! b ! T = ?nxt ! b" .
    have "res ! b = take T (res ! b) @ drop T (res ! b)" by simp
    then show "res ! b = idx ! b @ drop T (res ! b) \<and> res ! b ! T = ?nxt ! b"
      using t n by simp
  qed
  have c4: "\<forall>b<B. take T (res ! b) = idx ! b"
  proof (intro allI impI)
    fix b assume b: "b < B"
    have "take T (res ! b) = take T (idx ! b @ drop T (res ! b))" using pre[OF b] by simp
    then show "take T (res ! b) = idx ! b" using rowT[OF b] by simp
  qed
  have ctx0: "map (take T) res = idx"
    using lens c4 by (intro nth_equalityI) simp_all
  have c5: "\<forall>k<Suc n. \<forall>b<B. res ! b ! (T + k) =
                next_symbol m (map (take (T + k)) res) (advance (k * B) g) b"
  proof (intro allI impI)
    fix k b assume k: "k < Suc n" and b: "b < B"
    show "res ! b ! (T + k) = next_symbol m (map (take (T + k)) res) (advance (k * B) g) b"
    proof (cases k)
      case 0
      then show ?thesis using pre[OF b] b ctx0 by (simp add: advance_0)
    next
      case (Suc k')
      then have "k' < n" using k by simp
      then have "res ! b ! (Suc T + k') =
                next_symbol m (map (take (Suc T + k')) res) (advance (k' * B) ?g1) b"
        using rs b by simp
      then show ?thesis using Suc by (simp add: advance_advance add.commute)
    qed
  qed
  show ?case using c1 c2 rt c4 c5 by blast
qed

lemma tokens_below_take:
  assumes "tokens_below V res"
  shows "tokens_below V (map (take n) res)"
proof -
  have "set (take n row) \<subseteq> set row" for row :: "nat list" by (rule set_take_subset)
  then show ?thesis using assms by (auto simp: tokens_below_iff)
qed

lemma sample_index_follows_draw:
  "sample_index (1 / 10) [6 / 10, 4 / 10] = 0" "sample_index (7 / 10) [6 / 10, 4 / 10] = 1"
  by simp_all

lemma sample_index_interval:
  "p \<noteq> [] \<Longrightarrow> 0 \<le> u \<Longrightarrow> u < sum_list p \<Longrightarrow>
     sum_list (take (sample_index u p) p) \<le> u \<and> u < sum_list (take (Suc (sample_index u p)) p)"
proof (induction u p rule: sample_index.induct)
  case (1 u)
  then show ?case by simp
next
  case (2 u p)
  then show ?case by simp
next
  case (3 u p q ps)
  show ?case
  proof (cases "u < p")
    case True
    then show ?thesis using 3(3) by simp
  next
    case False
    have a: "0 \<le> u - p" using False by simp
    have b: "u - p < sum_list (q # ps)" using 3(4) by simp
    have "q # ps \<noteq> []" by simp
    from 3(1)[OF False this a b] show ?thesis using False by simp
  qed
qed

lemma sum_list_take_nonneg:
  "list_all (\<lambda>q. 0 \<le> q) p \<Longrightarrow> 0 \<le> sum_list (take i (p :: real list))"
proof -
  assume "list_all (\<lambda>q. 0 \<le> q) p"
  then have "\<And>x. x \<in> set (take i p) \<Longrightarrow> 0 \<le> x"
    using set_take_subset[of i p] by (auto simp: list_all_iff)
  then show ?thesis by (rule sum_list_nonneg)
qed

lemma sample_index_unique:
  "list_all (\<lambda>q. 0 \<le> q) p \<Longrightarrow> i < length p \<Longrightarrow> sum_list (take i p) \<le> u \<Longrightarrow>
     u < sum_list (take (Suc i) p) \<Longrightarrow> sample_index u p = i"
proof (induction u p arbitrary: i rule: sample_index.induct)
  case (1 u)
  then show ?case by simp
next
  case (2 u p)
  then show ?case by simp
next
  case (3 u p q ps)
  show ?case
  proof (cases i)
    case 0
    then show ?thesis using 3(5) by simp
  next
    case (Suc j)
    have nn: "list_all (\<lambda>q. 0 \<le> q) (q # ps)" using 3(2) by simp
    have "0 \<le> sum_list (take j (q # ps))" using nn by (rule sum_list_take_nonneg)
    moreover have le: "p + sum_list (take j (q # ps)) \<le> u" using 3(4) Suc by simp
    ultimately have F: "\<not> u < p" by simp
    have j: "j < length (q # ps)" using 3(3) Suc by simp
    have a: "sum_list (take j (q # ps)) \<le> u - p" using le by simp
    have b: "u - p < sum_list (take (Suc j) (q # ps))" using 3(5) Suc by simp
    from 3(1)[OF F nn j a b] show ?thesis using F Suc by simp
  qed
qed

lemma sum_list_take_Suc:
  "i < length p \<Longrightarrow> sum_list (take (Suc i) p) = sum_list (take i p) + (p ! i :: real)"
  by (simp add: take_Suc_conv_app_nth)

lemma softmax_distribution:
  assumes "row \<noteq> []"
  shows "list_all (\<lambda>q. 0 < q) (softmax row)" "sum_list (softmax row) = 1"
proof -
  let ?S = "sum_list (map exp row)"
  have "0 < ?S"
  proof -
    obtain a rest where r: "row = a # rest" using assms by (cases row) auto
    have "0 \<le> sum_list (map exp rest)" by (rule sum_list_nonneg) auto
    then show ?thesis using r by (simp add: add_pos_nonneg)
  qed
  then show "list_all (\<lambda>q. 0 < q) (softmax row)"
    by (simp add: softmax_def list_all_iff)
  have "sum_list (softmax row) = (\<Sum>e\<leftarrow>row. exp e / ?S)"
    by (simp add: softmax_def comp_def)
  also have "\<dots> = (\<Sum>e\<leftarrow>row. exp e) / ?S"
    by (simp only: divide_inverse sum_list_mult_const)
  finally show "sum_list (softmax row) = 1" using \<open>0 < ?S\<close> by simp
qed

lemma uniform01_range: "0 \<le> uniform01 r" "uniform01 r < 1"
proof -
  show "0 \<le> uniform01 r" by (simp add: uniform01_def)
  have "r mod 2 ^ 24 < 2 ^ 24" by simp
  then have "real (r mod 2 ^ 24) < 2 ^ 24" by (metis of_nat_less_iff of_nat_numeral of_nat_power)
  then show "uniform01 r < 1" by (simp add: uniform01_def)
qed

lemma last_logits_length:
  assumes "wf_model V m" "is_mat B T idx" "tokens_below V idx" "0 < T" "b < B"
  shows "length (last (logits_out m (map crop idx) ! b)) = V" "0 < V"
proof -
  let ?c = "map crop idx"
  let ?T = "min T block_size"
  have ic: "is_mat B ?T ?c" using assms(2) by (rule is_mat_crop)
  have tc: "tokens_below V ?c" using assms(3) by (rule tokens_below_crop)
  have Tp: "0 < ?T" using assms(4) block_size_pos by simp
  note lo = logits_ok[OF assms(1) ic _ tc]
  have sh: "shape3 B ?T V (logits_out m ?c)" using lo(2) by simp
  show "length (last (logits_out m ?c ! b)) = V" using shape3_last(2)[OF sh assms(5) Tp] .
  have "0 < B" using assms(5) by simp
  then show "0 < V" using vocab_pos[OF assms(2,3) _ assms(4)] by simp
qed

lemma sample_index_iff:
  assumes "list_all (\<lambda>q. 0 < q) p" "sum_list p = 1" "i < length p" "0 \<le> u" "u < 1"
  shows "sample_index u p = i \<longleftrightarrow> sum_list (take i p) \<le> u \<and> u < sum_list (take i p) + p ! i"
proof -
  have ne: "p \<noteq> []" using assms(3) by auto
  have nn: "list_all (\<lambda>q. 0 \<le> q) p" using assms(1) by (auto simp: list_all_iff less_imp_le)
  have u: "u < sum_list p" using assms(2,5) by simp
  note iv = sample_index_interval[OF ne assms(4) u]
  show ?thesis
  proof
    assume e: "sample_index u p = i"
    show "sum_list (take i p) \<le> u \<and> u < sum_list (take i p) + p ! i"
      using iv sum_list_take_Suc[OF assms(3)] unfolding e by simp
  next
    assume h: "sum_list (take i p) \<le> u \<and> u < sum_list (take i p) + p ! i"
    then have "u < sum_list (take (Suc i) p)" using sum_list_take_Suc[OF assms(3)] by simp
    with sample_index_unique[OF nn assms(3)] h show "sample_index u p = i" by blast
  qed
qed


text \<open>
  Claim C2. For a model with the shapes its constructor builds and a seed of shape
  \<open>(B, T0)\<close> with \<open>T0 \<ge> 1\<close> and symbols below the vocabulary size, \<^verbatim>\<open>generate\<close> returns, for
  every count of new symbols, a sequence of shape \<open>(B, T0 + max_new_tokens)\<close> whose first
  \<open>T0\<close> columns are the seed. The symbol appended at step \<open>k\<close> to row \<open>b\<close> is drawn from the
  softmax of the last time step of the logits of a forward pass without targets; the
  input of that pass is the running context (the first \<open>T0 + k\<close> columns of the result)
  cropped to the last \<open>min (T0 + k) block_size\<close> symbols of every row. Drawn means: the
  softmax is a distribution over the \<open>V\<close> symbols (positive entries of sum 1), the
  generator's draw \<open>u\<close> lies in \<open>[0, 1)\<close>, and the appended symbol is the one whose
  interval of cumulative probability holds \<open>u\<close>; as a function of the draw, symbol \<open>i\<close> is
  chosen exactly on an interval whose length is its probability, so every symbol is
  chosen by some draw and the choice is not the most probable symbol.
\<close>

theorem generate_appends_sampled_symbols:
  assumes "wf_model V m" "is_mat B T0 idx" "tokens_below V idx" "1 \<le> T0"
  shows "\<exists>res. generate m idx max_new_tokens g = Inr (res, advance (max_new_tokens * B) g) \<and>
           is_mat B (T0 + max_new_tokens) res \<and>
           (\<forall>b<B. take T0 (res ! b) = idx ! b) \<and>
           (\<forall>k<max_new_tokens.
              forward m (map crop (map (take (T0 + k)) res)) None =
                Inr (Logits3 (logits_out m (map crop (map (take (T0 + k)) res))), None) \<and>
              (\<forall>b<B.
                 crop (take (T0 + k) (res ! b)) =
                   drop (T0 + k - min (T0 + k) block_size) (take (T0 + k) (res ! b)) \<and>
                 length (crop (take (T0 + k) (res ! b))) = min (T0 + k) block_size \<and>
                 res ! b ! (T0 + k) =
                   sample_index (uniform01 (advance (k * B) g b))
                     (softmax (last (logits_out m (map crop (map (take (T0 + k)) res)) ! b))) \<and>
                 length (softmax (last (logits_out m (map crop (map (take (T0 + k)) res)) ! b))) = V \<and>
                 list_all (\<lambda>q. 0 < q)
                   (softmax (last (logits_out m (map crop (map (take (T0 + k)) res)) ! b))) \<and>
                 sum_list (softmax (last (logits_out m (map crop (map (take (T0 + k)) res)) ! b))) = 1 \<and>
                 0 \<le> uniform01 (advance (k * B) g b) \<and> uniform01 (advance (k * B) g b) < 1 \<and>
                 res ! b ! (T0 + k) < V \<and>
                 sum_list (take (res ! b ! (T0 + k))
                   (softmax (last (logits_out m (map crop (map (take (T0 + k)) res)) ! b))))
                   \<le> uniform01 (advance (k * B) g b) \<and>
                 uniform01 (advance (k * B) g b) <
                   sum_list (take (res ! b ! (T0 + k))
                     (softmax (last (logits_out m (map crop (map (take (T0 + k)) res)) ! b)))) +
                   softmax (last (logits_out m (map crop (map (take (T0 + k)) res)) ! b)) !
                     (res ! b ! (T0 + k)) \<and>
                 (\<forall>i<V. \<forall>u. 0 \<le> u \<and> u < 1 \<longrightarrow>
                    (sample_index u
                       (softmax (last (logits_out m (map crop (map (take (T0 + k)) res)) ! b))) = i
                     \<longleftrightarrow>
                     sum_list (take i
                       (softmax (last (logits_out m (map crop (map (take (T0 + k)) res)) ! b)))) \<le> u \<and>
                     u < sum_list (take i
                           (softmax (last (logits_out m (map crop (map (take (T0 + k)) res)) ! b)))) +
                         softmax (last (logits_out m (map crop (map (take (T0 + k)) res)) ! b)) ! i))))"
proof -
  have T: "0 < T0" using assms(4) by simp
  from generate_ok[OF assms(1,2,3) T, of max_new_tokens g]
  obtain res where r: "generate m idx max_new_tokens g = Inr (res, advance (max_new_tokens * B) g)"
    and rm: "is_mat B (T0 + max_new_tokens) res" and rt: "tokens_below V res"
    and rp: "\<forall>b<B. take T0 (res ! b) = idx ! b"
    and rs: "\<forall>k<max_new_tokens. \<forall>b<B. res ! b ! (T0 + k) =
                next_symbol m (map (take (T0 + k)) res) (advance (k * B) g) b"
    by blast
  have c4: "forward m (map crop (map (take (T0 + k)) res)) None =
                Inr (Logits3 (logits_out m (map crop (map (take (T0 + k)) res))), None) \<and>
              (\<forall>b<B.
                 crop (take (T0 + k) (res ! b)) =
                   drop (T0 + k - min (T0 + k) block_size) (take (T0 + k) (res ! b)) \<and>
                 length (crop (take (T0 + k) (res ! b))) = min (T0 + k) block_size \<and>
                 res ! b ! (T0 + k) =
                   sample_index (uniform01 (advance (k * B) g b))
                     (softmax (last (logits_out m (map crop (map (take (T0 + k)) res)) ! b))) \<and>
                 length (softmax (last (logits_out m (map crop (map (take (T0 + k)) res)) ! b))) = V \<and>
                 list_all (\<lambda>q. 0 < q)
                   (softmax (last (logits_out m (map crop (map (take (T0 + k)) res)) ! b))) \<and>
                 sum_list (softmax (last (logits_out m (map crop (map (take (T0 + k)) res)) ! b))) = 1 \<and>
                 0 \<le> uniform01 (advance (k * B) g b) \<and> uniform01 (advance (k * B) g b) < 1 \<and>
                 res ! b ! (T0 + k) < V \<and>
                 sum_list (take (res ! b ! (T0 + k))
                   (softmax (last (logits_out m (map crop (map (take (T0 + k)) res)) ! b))))
                   \<le> uniform01 (advance (k * B) g b) \<and>
                 uniform01 (advance (k * B) g b) <
                   sum_list (take (res ! b ! (T0 + k))
                     (softmax (last (logits_out m (map crop (map (take (T0 + k)) res)) ! b)))) +
                   softmax (last (logits_out m (map crop (map (take (T0 + k)) res)) ! b)) !
                     (res ! b ! (T0 + k)) \<and>
                 (\<forall>i<V. \<forall>u. 0 \<le> u \<and> u < 1 \<longrightarrow>
                    (sample_index u
                       (softmax (last (logits_out m (map crop (map (take (T0 + k)) res)) ! b))) = i
                     \<longleftrightarrow>
                     sum_list (take i
                       (softmax (last (logits_out m (map crop (map (take (T0 + k)) res)) ! b)))) \<le> u \<and>
                     u < sum_list (take i
                           (softmax (last (logits_out m (map crop (map (take (T0 + k)) res)) ! b)))) +
                         softmax (last (logits_out m (map crop (map (take (T0 + k)) res)) ! b)) ! i)))"
    if k: "k < max_new_tokens" for k
  proof -
    let ?ctx = "map (take (T0 + k)) res"
    have cm: "is_mat B (T0 + k) ?ctx" using rm k by (simp add: is_mat_iff)
    have ct: "tokens_below V ?ctx" using rt by (rule tokens_below_take)
    have cp: "0 < T0 + k" using T by simp
    have fw: "forward m (map crop ?ctx) None = Inr (Logits3 (logits_out m (map crop ?ctx)), None)"
      by (rule generate_step(2)[OF assms(1) cm ct cp])
    have row: "crop (take (T0 + k) (res ! b)) =
                   drop (T0 + k - min (T0 + k) block_size) (take (T0 + k) (res ! b)) \<and>
                 length (crop (take (T0 + k) (res ! b))) = min (T0 + k) block_size \<and>
                 res ! b ! (T0 + k) =
                   sample_index (uniform01 (advance (k * B) g b))
                     (softmax (last (logits_out m (map crop ?ctx) ! b))) \<and>
                 length (softmax (last (logits_out m (map crop ?ctx) ! b))) = V \<and>
                 list_all (\<lambda>q. 0 < q) (softmax (last (logits_out m (map crop ?ctx) ! b))) \<and>
                 sum_list (softmax (last (logits_out m (map crop ?ctx) ! b))) = 1 \<and>
                 0 \<le> uniform01 (advance (k * B) g b) \<and> uniform01 (advance (k * B) g b) < 1 \<and>
                 res ! b ! (T0 + k) < V \<and>
                 sum_list (take (res ! b ! (T0 + k)) (softmax (last (logits_out m (map crop ?ctx) ! b))))
                   \<le> uniform01 (advance (k * B) g b) \<and>
                 uniform01 (advance (k * B) g b) <
                   sum_list (take (res ! b ! (T0 + k)) (softmax (last (logits_out m (map crop ?ctx) ! b)))) +
                   softmax (last (logits_out m (map crop ?ctx) ! b)) ! (res ! b ! (T0 + k)) \<and>
                 (\<forall>i<V. \<forall>u. 0 \<le> u \<and> u < 1 \<longrightarrow>
                    (sample_index u (softmax (last (logits_out m (map crop ?ctx) ! b))) = i
                     \<longleftrightarrow>
                     sum_list (take i (softmax (last (logits_out m (map crop ?ctx) ! b)))) \<le> u \<and>
                     u < sum_list (take i (softmax (last (logits_out m (map crop ?ctx) ! b)))) +
                         softmax (last (logits_out m (map crop ?ctx) ! b)) ! i))"
      if b: "b < B" for b
    proof -
      let ?P = "softmax (last (logits_out m (map crop ?ctx) ! b))"
      let ?u = "uniform01 (advance (k * B) g b)"
      let ?y = "res ! b ! (T0 + k)"
      have len: "length (take (T0 + k) (res ! b)) = T0 + k"
        using rm k b by (simp add: is_mat_iff)
      have r1: "crop (take (T0 + k) (res ! b)) =
            drop (T0 + k - min (T0 + k) block_size) (take (T0 + k) (res ! b))"
        using crop_eq[of "take (T0 + k) (res ! b)"] len by simp
      have r2: "length (crop (take (T0 + k) (res ! b))) = min (T0 + k) block_size"
        using length_crop[of "take (T0 + k) (res ! b)"] len by simp
      have r3: "?y = sample_index ?u ?P"
        using rs k b by (simp add: next_symbol_def)
      note ll = last_logits_length[OF assms(1) cm ct cp b]
      have r4: "length ?P = V" using ll(1) by (simp add: length_softmax)
      have ne: "last (logits_out m (map crop ?ctx) ! b) \<noteq> []" using ll by auto
      note sd = softmax_distribution[OF ne]
      note ur = uniform01_range[of "advance (k * B) g b"]
      have yV: "?y < length ?P" unfolding r3 by (rule sample_index_less) (use r4 ll(2) in auto)
      have r9: "?y < V" using yV r4 by simp
      have iv: "sum_list (take ?y ?P) \<le> ?u \<and> ?u < sum_list (take ?y ?P) + ?P ! ?y"
        using sample_index_iff[OF sd yV ur] r3 by simp
      have all: "\<forall>i<V. \<forall>u. 0 \<le> u \<and> u < 1 \<longrightarrow>
                    (sample_index u ?P = i \<longleftrightarrow>
                     sum_list (take i ?P) \<le> u \<and> u < sum_list (take i ?P) + ?P ! i)"
      proof (intro allI impI)
        fix i and u :: real assume i: "i < V" and u: "0 \<le> u \<and> u < 1"
        have i': "i < length ?P" using i r4 by simp
        show "sample_index u ?P = i \<longleftrightarrow>
                     sum_list (take i ?P) \<le> u \<and> u < sum_list (take i ?P) + ?P ! i"
          by (rule sample_index_iff[OF sd i' conjunct1[OF u] conjunct2[OF u]])
      qed
      show ?thesis
        by (intro conjI r1 r2 r3 r4 sd ur r9 conjunct1[OF iv] conjunct2[OF iv] all)
    qed
    show ?thesis by (intro conjI allI impI fw row)
  qed
  show ?thesis
    by (rule exI[of _ res]) (intro conjI r rm rp allI impI c4)
qed

theorem generate_appends_sampled_symbols_witness:
  "wf_model 3 (fst (projr (BigramLanguageModel_init 3 example_vals))) \<and>
   is_mat 1 1 [[0::nat]] \<and> tokens_below 3 [[0]] \<and> (1::nat) \<le> 1 \<and>
   \<not> isl (generate (fst (projr (BigramLanguageModel_init 3 example_vals))) [[0]] 2 example_rng) \<and>
   is_mat 1 3 (fst (projr (generate (fst (projr (BigramLanguageModel_init 3 example_vals)))
                              [[0]] 2 example_rng))) \<and>
   take 1 (fst (projr (generate (fst (projr (BigramLanguageModel_init 3 example_vals)))
                         [[0]] 2 example_rng)) ! 0) = [0] \<and>
   fst (projr (generate (fst (projr (BigramLanguageModel_init 3 example_vals)))
                         [[0]] 2 example_rng)) ! 0 ! 1 < 3 \<and>
   sum_list (softmax (last (logits_out (fst (projr (BigramLanguageModel_init 3 example_vals)))
       (map crop (map (take 1) (fst (projr (generate
          (fst (projr (BigramLanguageModel_init 3 example_vals))) [[0]] 2 example_rng))))) ! 0))) = 1 \<and>
   sum_list (take (fst (projr (generate (fst (projr (BigramLanguageModel_init 3 example_vals)))
                         [[0]] 2 example_rng)) ! 0 ! 1)
     (softmax (last (logits_out (fst (projr (BigramLanguageModel_init 3 example_vals)))
       (map crop (map (take 1) (fst (projr (generate
          (fst (projr (BigramLanguageModel_init 3 example_vals))) [[0]] 2 example_rng))))) ! 0))))
     \<le> uniform01 (example_rng 0) \<and>
   uniform01 (example_rng 0) <
     sum_list (take (fst (projr (generate (fst (projr (BigramLanguageModel_init 3 example_vals)))
                         [[0]] 2 example_rng)) ! 0 ! 1)
     (softmax (last (logits_out (fst (projr (BigramLanguageModel_init 3 example_vals)))
       (map crop (map (take 1) (fst (projr (generate
          (fst (projr (BigramLanguageModel_init 3 example_vals))) [[0]] 2 example_rng))))) ! 0)))) +
     softmax (last (logits_out (fst (projr (BigramLanguageModel_init 3 example_vals)))
       (map crop (map (take 1) (fst (projr (generate
          (fst (projr (BigramLanguageModel_init 3 example_vals))) [[0]] 2 example_rng))))) ! 0)) !
       (fst (projr (generate (fst (projr (BigramLanguageModel_init 3 example_vals)))
                         [[0]] 2 example_rng)) ! 0 ! 1) \<and>
   ((sample_index (1 / 2)
      (softmax (last (logits_out (fst (projr (BigramLanguageModel_init 3 example_vals)))
       (map crop (map (take 1) (fst (projr (generate
          (fst (projr (BigramLanguageModel_init 3 example_vals))) [[0]] 2 example_rng))))) ! 0))) = 1) =
    (sum_list (take 1
      (softmax (last (logits_out (fst (projr (BigramLanguageModel_init 3 example_vals)))
       (map crop (map (take 1) (fst (projr (generate
          (fst (projr (BigramLanguageModel_init 3 example_vals))) [[0]] 2 example_rng))))) ! 0))))
      \<le> 1 / 2 \<and>
     1 / 2 < sum_list (take 1
      (softmax (last (logits_out (fst (projr (BigramLanguageModel_init 3 example_vals)))
       (map crop (map (take 1) (fst (projr (generate
          (fst (projr (BigramLanguageModel_init 3 example_vals))) [[0]] 2 example_rng))))) ! 0)))) +
      softmax (last (logits_out (fst (projr (BigramLanguageModel_init 3 example_vals)))
       (map crop (map (take 1) (fst (projr (generate
          (fst (projr (BigramLanguageModel_init 3 example_vals))) [[0]] 2 example_rng))))) ! 0)) ! 1))"
proof -
  let ?m = "fst (projr (BigramLanguageModel_init 3 example_vals))"
  let ?P = "\<lambda>res k b. softmax (last (logits_out ?m (map crop (map (take (1 + k)) res)) ! b))"
  let ?u = "\<lambda>k b. uniform01 (advance (k * 1) example_rng b)"
  have a: "wf_model 3 ?m" using BigramLanguageModel_init_ok[of 3 example_vals] by simp
  have b: "is_mat 1 1 [[0::nat]]" by (simp add: is_mat_def)
  have c: "tokens_below 3 [[0]]" by (simp add: tokens_below_def)
  have d: "(1::nat) \<le> 1" by simp
  from generate_appends_sampled_symbols[OF a b c d, of 2 example_rng]
  obtain res where r: "generate ?m [[0]] 2 example_rng = Inr (res, advance (2 * 1) example_rng)"
    and rm: "is_mat 1 (1 + 2) res" and rp: "\<forall>b<1. take 1 (res ! b) = [[0]] ! b"
    and rk: "\<forall>k<2.
              forward ?m (map crop (map (take (1 + k)) res)) None =
                Inr (Logits3 (logits_out ?m (map crop (map (take (1 + k)) res))), None) \<and>
              (\<forall>b<1.
                 crop (take (1 + k) (res ! b)) =
                   drop (1 + k - min (1 + k) block_size) (take (1 + k) (res ! b)) \<and>
                 length (crop (take (1 + k) (res ! b))) = min (1 + k) block_size \<and>
                 res ! b ! (1 + k) = sample_index (?u k b) (?P res k b) \<and>
                 length (?P res k b) = 3 \<and>
                 list_all (\<lambda>q. 0 < q) (?P res k b) \<and>
                 sum_list (?P res k b) = 1 \<and>
                 0 \<le> ?u k b \<and> ?u k b < 1 \<and>
                 res ! b ! (1 + k) < 3 \<and>
                 sum_list (take (res ! b ! (1 + k)) (?P res k b)) \<le> ?u k b \<and>
                 ?u k b < sum_list (take (res ! b ! (1 + k)) (?P res k b)) +
                   ?P res k b ! (res ! b ! (1 + k)) \<and>
                 (\<forall>i<3. \<forall>u. 0 \<le> u \<and> u < 1 \<longrightarrow>
                    (sample_index u (?P res k b) = i \<longleftrightarrow>
                     sum_list (take i (?P res k b)) \<le> u \<and>
                     u < sum_list (take i (?P res k b)) + ?P res k b ! i)))"
    by blast
  have pr: "fst (projr (generate ?m [[0]] 2 example_rng)) = res" using r by simp
  have e: "\<not> isl (generate ?m [[0]] 2 example_rng)" using r by simp
  have "(1::nat) + 2 = 3" by simp
  then have rm3: "is_mat 1 3 res" using rm by (simp only:)
  have f: "is_mat 1 3 (fst (projr (generate ?m [[0]] 2 example_rng)))" using r rm3 by simp
  have g: "take 1 (fst (projr (generate ?m [[0]] 2 example_rng)) ! 0) = [0]"
    using r rp by simp
  have k0: "(0::nat) < 2" and b0: "(0::nat) < 1" by simp_all
  note row = conjunct2[OF rk[rule_format, OF k0], rule_format, OF b0]
  have u0: "?u 0 0 = uniform01 (example_rng 0)" by (simp add: advance_def)
  have t0: "(1::nat) + 0 = 1" by simp
  note row' = row[unfolded u0 t0]
  note c5 = row'[THEN conjunct2, THEN conjunct2, THEN conjunct2, THEN conjunct2, THEN conjunct2]
  have h1: "fst (projr (generate ?m [[0]] 2 example_rng)) ! 0 ! 1 < 3"
    unfolding pr using c5[THEN conjunct2, THEN conjunct2, THEN conjunct2, THEN conjunct1] .
  have h2: "sum_list (?P (fst (projr (generate ?m [[0]] 2 example_rng))) 0 0) = 1"
    unfolding pr t0 using c5[THEN conjunct1] .
  note c9 = c5[THEN conjunct2, THEN conjunct2, THEN conjunct2, THEN conjunct2]
  have h3: "sum_list (take (fst (projr (generate ?m [[0]] 2 example_rng)) ! 0 ! 1)
               (?P (fst (projr (generate ?m [[0]] 2 example_rng))) 0 0)) \<le> uniform01 (example_rng 0)"
    unfolding pr t0 using c9[THEN conjunct1] .
  have h4: "uniform01 (example_rng 0) <
     sum_list (take (fst (projr (generate ?m [[0]] 2 example_rng)) ! 0 ! 1)
               (?P (fst (projr (generate ?m [[0]] 2 example_rng))) 0 0)) +
     ?P (fst (projr (generate ?m [[0]] 2 example_rng))) 0 0 !
       (fst (projr (generate ?m [[0]] 2 example_rng)) ! 0 ! 1)"
    unfolding pr t0 using c9[THEN conjunct2, THEN conjunct1] .
  have i1: "(1::nat) < 3" by simp
  have uh: "(0::real) \<le> 1 / 2 \<and> (1::real) / 2 < 1" by simp
  have h5: "(sample_index (1 / 2) (?P (fst (projr (generate ?m [[0]] 2 example_rng))) 0 0) = 1) =
    (sum_list (take 1 (?P (fst (projr (generate ?m [[0]] 2 example_rng))) 0 0)) \<le> 1 / 2 \<and>
     1 / 2 < sum_list (take 1 (?P (fst (projr (generate ?m [[0]] 2 example_rng))) 0 0)) +
      ?P (fst (projr (generate ?m [[0]] 2 example_rng))) 0 0 ! 1)"
    unfolding pr t0 using c9[THEN conjunct2, THEN conjunct2, rule_format, OF i1 uh] .
  show ?thesis
    using h2 h3 h4 h5 unfolding t0 by (intro conjI a b c d e f g h1)
qed

section \<open>Loss estimation and the training loop: properties\<close>

lemma corpus_ok_split:
  assumes "corpus_ok V c"
  shows "block_size < length (split_data c split)" "list_all (\<lambda>i. i < V) (split_data c split)"
  using assms by (simp_all add: corpus_ok_def split_data_def)

lemma set_slice: "set (slice i j xs) \<subseteq> set xs"
proof -
  have "set (take (j - i) (drop i xs)) \<subseteq> set (drop i xs)" by (rule set_take_subset)
  also have "\<dots> \<subseteq> set xs" by (rule set_drop_subset)
  finally show ?thesis by (simp add: slice_def)
qed

lemma get_batch_valid:
  assumes "block_size < length (split_data c split)" "list_all (\<lambda>i. i < V) (split_data c split)"
  shows "\<exists>X Y. get_batch c split g = Inr ((X, Y), advance batch_size g) \<and>
           is_mat batch_size block_size X \<and> is_mat batch_size block_size Y \<and>
           tokens_below V X \<and> tokens_below V Y"
proof -
  let ?data = "split_data c split"
  let ?ix = "offsets ?data g"
  let ?x = "map (\<lambda>i. slice i (i + block_size) ?data) ?ix"
  let ?y = "map (\<lambda>i. slice (i + 1) (i + block_size + 1) ?data) ?ix"
  have gb: "get_batch c split g = Inr ((?x, ?y), advance batch_size g)"
    using assms(1) by (rule get_batch_ok)
  have len: "length ?ix = batch_size" by (rule length_offsets)
  have rng: "\<And>k. k < batch_size \<Longrightarrow> ?ix ! k < length ?data - block_size"
    using offsets_range[OF assms(1), of _ g] len by simp
  have mx: "is_mat batch_size block_size ?x"
    unfolding is_mat_iff
  proof (intro conjI allI impI)
    show "length ?x = batch_size" using len by simp
    fix k assume k: "k < batch_size"
    show "length (?x ! k) = block_size" using rng[OF k] len k by (simp add: slice_def)
  qed
  have my: "is_mat batch_size block_size ?y"
    unfolding is_mat_iff
  proof (intro conjI allI impI)
    show "length ?y = batch_size" using len by simp
    fix k assume k: "k < batch_size"
    show "length (?y ! k) = block_size" using rng[OF k] len k by (simp add: slice_def)
  qed
  have d: "\<And>i. i \<in> set ?data \<Longrightarrow> i < V" using assms(2) by (simp add: list_all_iff)
  have tx: "tokens_below V ?x"
    unfolding tokens_below_iff using set_slice[of _ _ ?data] d by fastforce
  have ty: "tokens_below V ?y"
    unfolding tokens_below_iff using set_slice[of _ _ ?data] d by fastforce
  show ?thesis using gb mx my tx ty by blast
qed

lemma batch_forward_ok:
  assumes "wf_model V m" "block_size < length (split_data c split)"
    "list_all (\<lambda>i. i < V) (split_data c split)"
  shows "\<exists>X Y l r. get_batch c split g = Inr ((X, Y), advance batch_size g) \<and>
           forward m X (Some Y) = Inr (l, Some (Val r)) \<and> batch_loss m c split g = Val r"
proof -
  obtain X Y where gb: "get_batch c split g = Inr ((X, Y), advance batch_size g)"
    and mx: "is_mat batch_size block_size X" and my: "is_mat batch_size block_size Y"
    and tx: "tokens_below V X" and ty: "tokens_below V Y"
    using get_batch_valid[OF assms(2,3), of g] by blast
  have nz: "batch_size * block_size \<noteq> 0" by (simp add: batch_size_def block_size_def)
  have "forward m X (Some Y) =
           Inr (Logits2 (concat (logits_out m X)),
                Some (Val ((\<Sum>b<batch_size. \<Sum>t<block_size.
                              - ln (softmax (logits_out m X ! b ! t) ! (Y ! b ! t))) /
                           real (batch_size * block_size))))"
  proof -
    have n: "length (concat Y) = length X * idx_T X"
      using is_mat_idx_T[OF mx batch_size_pos] length_concat_is_mat[OF my] mx
      by (simp add: is_mat_iff)
    note lo = logits_ok[OF assms(1) mx order_refl tx]
    show ?thesis
      using lo(1)[of "Some Y"] n cross_entropy_ok[OF lo(2) my ty] nz
      by (simp del: mult_eq_0_iff)
  qed
  then show ?thesis using gb by (auto simp: batch_loss_def)
qed

lemma eval_iterations_frame:
  "eval_iterations c split k st = Inr (ls, st') \<Longrightarrow>
     model st' = model st \<and> opt st' = opt st \<and> printed st' = printed st \<and> length ls = k"
proof (induction k arbitrary: ls st')
  case 0
  then show ?case by simp
next
  case (Suc k)
  from Suc.prems obtain ls1 st1 where
    a: "eval_iterations c split k st = Inr (ls1, st1)"
    by (cases "eval_iterations c split k st") auto
  from Suc.prems a obtain X Y g' where
    b: "get_batch c split (gen st1) = Inr ((X, Y), g')"
    by (cases "get_batch c split (gen st1)") auto
  from Suc.prems a b obtain lg loss where
    d: "forward (model st1) X (Some Y) = Inr (lg, loss)"
    by (cases "forward (model st1) X (Some Y)") auto
  from Suc.prems a b d obtain l where
    e: "loss = Some l" "ls = ls1 @ [l]" "st' = st1\<lparr>gen := g'\<rparr>"
    by (cases loss) auto
  show ?case using Suc.IH[OF a] e by simp
qed

lemma eval_iterations_ok:
  assumes "wf_model V (model st)" "block_size < length (split_data c split)"
    "list_all (\<lambda>i. i < V) (split_data c split)"
  shows "eval_iterations c split k st =
           Inr (map (\<lambda>j. batch_loss (model st) c split (advance (j * batch_size) (gen st))) [0..<k],
                st\<lparr>gen := advance (k * batch_size) (gen st)\<rparr>)"
proof (induction k)
  case 0
  then show ?case by (simp add: advance_0)
next
  case (Suc k)
  let ?g = "advance (k * batch_size) (gen st)"
  obtain X Y l r where gb: "get_batch c split ?g = Inr ((X, Y), advance batch_size ?g)"
    and fw: "forward (model st) X (Some Y) = Inr (l, Some (Val r))"
    and bl: "batch_loss (model st) c split ?g = Val r"
    using batch_forward_ok[OF assms, of ?g] by blast
  show ?case
    by (simp add: Suc.IH gb fw bl advance_advance add.commute)
qed

lemma wf_model_training [simp]: "wf_model V (m\<lparr>training := b\<rparr>) = wf_model V m"
  by (simp add: wf_model_def)

lemma estimate_loss_unfold:
  "estimate_loss c st =
     bind_e (eval_iterations c ''train'' eval_iters (eval_mode st)) (\<lambda>(lt, st1).
     bind_e (eval_iterations c ''val'' eval_iters st1) (\<lambda>(lv, st2).
     Inr ([''train'' \<mapsto> scalar_mean lt, ''val'' \<mapsto> scalar_mean lv], train_mode st2)))"
  by (simp add: estimate_loss_def eval_mode_def train_mode_def bind_e_def Let_def
           split: sum.splits prod.splits)

lemma estimate_loss_frame:
  assumes "estimate_loss c st = Inr (out, st')"
  shows "model st' = (model st)\<lparr>training := True\<rparr> \<and> opt st' = opt st \<and>
         printed st' = printed st \<and>
         (\<exists>a b. out ''train'' = Some a \<and> out ''val'' = Some b)"
proof -
  from assms obtain lt st1 where
    a: "eval_iterations c ''train'' eval_iters (eval_mode st) = Inr (lt, st1)"
    unfolding estimate_loss_unfold
    by (cases "eval_iterations c ''train'' eval_iters (eval_mode st)") auto
  from assms a obtain lv st2 where
    b: "eval_iterations c ''val'' eval_iters st1 = Inr (lv, st2)"
    unfolding estimate_loss_unfold
    by (cases "eval_iterations c ''val'' eval_iters st1") auto
  have r: "out = [''train'' \<mapsto> scalar_mean lt, ''val'' \<mapsto> scalar_mean lv]" "st' = train_mode st2"
    using assms a b unfolding estimate_loss_unfold by simp_all
  note fa = eval_iterations_frame[OF a]
  note fb = eval_iterations_frame[OF b]
  show ?thesis using fa fb r by (simp add: train_mode_def eval_mode_def)
qed

lemma eval_iterations_mode:
  assumes "eval_iterations c split k s0 = Inr (ls, s)" "model s0 = (model st)\<lparr>training := False\<rparr>"
  shows "model s = (model st)\<lparr>training := False\<rparr>" "training (model s) = False"
  using eval_iterations_frame[OF assms(1)] assms(2) by simp_all

lemma scalar_mean_vals:
  assumes "0 < n"
  shows "scalar_mean (map (\<lambda>j. Val (f j)) [0..<n]) = Val ((\<Sum>j<n. f j) / real n)"
proof -
  have a: "map (\<lambda>j. Val (f j)) [0..<n] \<noteq> []" using assms by simp
  have b: "Nan \<notin> set (map (\<lambda>j. Val (f j)) [0..<n])" by auto
  have "sum_list (map the_val (map (\<lambda>j. Val (f j)) [0..<n])) = sum_list (map f [0..<n])"
    by (simp add: comp_def)
  also have "\<dots> = (\<Sum>j<n. f j)"
    by (simp add: interv_sum_list_conv_sum_set_nat atLeast0LessThan)
  finally show ?thesis using a b by (simp add: scalar_mean_def del: map_map)
qed

lemma batch_loss_val:
  assumes "wf_model V m" "block_size < length (split_data c split)"
    "list_all (\<lambda>i. i < V) (split_data c split)"
  shows "batch_loss m c split g = Val (the_val (batch_loss m c split g))"
  using batch_forward_ok[OF assms, of g] by auto

lemma eval_iterations_vals:
  assumes "wf_model V (model st)" "block_size < length (split_data c split)"
    "list_all (\<lambda>i. i < V) (split_data c split)"
  shows "eval_iterations c split k st =
           Inr (map (\<lambda>j. Val (the_val (batch_loss (model st) c split
                                         (advance (j * batch_size) (gen st))))) [0..<k],
                st\<lparr>gen := advance (k * batch_size) (gen st)\<rparr>)"
proof -
  have "map (\<lambda>j. batch_loss (model st) c split (advance (j * batch_size) (gen st))) [0..<k] =
        map (\<lambda>j. Val (the_val (batch_loss (model st) c split
                                         (advance (j * batch_size) (gen st))))) [0..<k]"
    by (rule map_cong[OF refl]) (rule batch_loss_val[OF assms])
  then show ?thesis using eval_iterations_ok[OF assms, of k] by simp
qed

lemma eval_iters_pos: "0 < eval_iters" by (simp add: eval_iters_def)

lemma estimate_loss_ok:
  assumes "wf_model V (model st)" "corpus_ok V c"
  shows "\<exists>out st'. estimate_loss c st = Inr (out, st') \<and>
           gen st' = advance (2 * eval_iters * batch_size) (gen st) \<and>
           out ''train'' = Some (Val ((\<Sum>j<eval_iters. the_val (batch_loss (model (eval_mode st)) c ''train''
                (advance (j * batch_size) (gen st)))) / real eval_iters)) \<and>
           out ''val'' = Some (Val ((\<Sum>j<eval_iters. the_val (batch_loss (model (eval_mode st)) c ''val''
                (advance (j * batch_size) (advance (eval_iters * batch_size) (gen st))))) / real eval_iters))"
proof -
  let ?s0 = "eval_mode st"
  have w0: "wf_model V (model ?s0)" using assms(1) by (simp add: eval_mode_def)
  have g0: "gen ?s0 = gen st" by (simp add: eval_mode_def)
  note ct = corpus_ok_split[OF assms(2), of "''train''"]
  note cv = corpus_ok_split[OF assms(2), of "''val''"]
  let ?s1 = "?s0\<lparr>gen := advance (eval_iters * batch_size) (gen ?s0)\<rparr>"
  note e1 = eval_iterations_vals[OF w0 ct, of eval_iters]
  have w1: "wf_model V (model ?s1)" using w0 by simp
  have m1: "model ?s1 = model ?s0" by simp
  note e2 = eval_iterations_vals[OF w1 cv, of eval_iters]
  let ?s2 = "?s1\<lparr>gen := advance (eval_iters * batch_size) (gen ?s1)\<rparr>"
  have "estimate_loss c st =
     Inr ([''train'' \<mapsto> scalar_mean (map (\<lambda>j. Val (the_val (batch_loss (model ?s0) c ''train''
                                         (advance (j * batch_size) (gen ?s0))))) [0..<eval_iters]),
           ''val'' \<mapsto> scalar_mean (map (\<lambda>j. Val (the_val (batch_loss (model ?s1) c ''val''
                                         (advance (j * batch_size) (gen ?s1))))) [0..<eval_iters])],
          train_mode ?s2)"
    unfolding estimate_loss_unfold e1 bind_e_simps prod.case e2 by (rule refl)
  moreover have "gen (train_mode ?s2) = advance (2 * eval_iters * batch_size) (gen st)"
    by (simp add: train_mode_def eval_mode_def advance_advance mult_2 add_mult_distrib)
  ultimately show ?thesis
    unfolding scalar_mean_vals[OF eval_iters_pos] m1
    by (simp add: g0)
qed

lemma eval_interval_nz: "eval_interval \<noteq> 0" by (simp add: eval_interval_def)

lemma train_iteration_printed:
  assumes "train_iteration step c iter st = Inr st'"
  shows "map fst (printed st') =
         map fst (printed st) @ (if iter mod eval_interval = 0 then [iter] else [])"
proof -
  let ?pre = "if eval_interval = 0 then Inl ZeroDivisionError
             else if iter mod eval_interval = 0
             then bind_e (estimate_loss c st) (\<lambda>(losses, st1).
                  Inr (st1\<lparr>printed := printed st1 @ [(iter, losses ''train'', losses ''val'')]\<rparr>))
             else Inr st"
  from assms obtain st1 where p: "?pre = Inr st1"
    unfolding train_iteration_def by (cases ?pre) auto
  from assms p obtain xb yb g' where
    b: "get_batch c ''train'' (gen st1) = Inr ((xb, yb), g')"
    unfolding train_iteration_def by (cases "get_batch c ''train'' (gen st1)") auto
  from assms p b obtain lg loss where
    d: "forward (model st1) xb (Some yb) = Inr (lg, loss)"
    unfolding train_iteration_def by (cases "forward (model st1) xb (Some yb)") auto
  from assms p b d obtain l where l: "loss = Some l"
    unfolding train_iteration_def by (cases loss) auto
  have e: "printed st' = printed st1"
    using assms p b d l unfolding train_iteration_def
    by (auto simp: Let_def split: prod.splits)
  have "map fst (printed st1) =
         map fst (printed st) @ (if iter mod eval_interval = 0 then [iter] else [])"
  proof (cases "iter mod eval_interval = 0")
    case False
    then show ?thesis using p eval_interval_nz by simp
  next
    case True
    from p True obtain out s where es: "estimate_loss c st = Inr (out, s)"
      and s1: "st1 = s\<lparr>printed := printed s @ [(iter, out ''train'', out ''val'')]\<rparr>"
      using eval_interval_nz by (cases "estimate_loss c st") auto
    show ?thesis using estimate_loss_frame[OF es] s1 True by simp
  qed
  then show ?thesis using e by simp
qed

lemma train_iterations_printed:
  "train_iterations step c n st = Inr st' \<Longrightarrow>
     map fst (printed st') = map fst (printed st) @ filter (\<lambda>i. i mod eval_interval = 0) [0..<n]"
proof (induction n arbitrary: st')
  case 0
  then show ?case by simp
next
  case (Suc n)
  from Suc.prems obtain s where a: "train_iterations step c n st = Inr s"
    and b: "train_iteration step c n s = Inr st'"
    by (cases "train_iterations step c n st") auto
  show ?case using Suc.IH[OF a] train_iteration_printed[OF b] by simp
qed

lemma train_iteration_ok:
  assumes "wf_model V (model st)" "corpus_ok V c"
    "\<And>os m x y. wf_model V m \<Longrightarrow> wf_model V (snd (step os m x y))"
  shows "\<exists>st'. train_iteration step c iter st = Inr st' \<and> wf_model V (model st')"
proof -
  let ?pre = "if eval_interval = 0 then Inl ZeroDivisionError
             else if iter mod eval_interval = 0
             then bind_e (estimate_loss c st) (\<lambda>(losses, st1).
                  Inr (st1\<lparr>printed := printed st1 @ [(iter, losses ''train'', losses ''val'')]\<rparr>))
             else Inr st"
  have "\<exists>st1. ?pre = Inr st1 \<and> wf_model V (model st1)"
  proof (cases "iter mod eval_interval = 0")
    case False
    then show ?thesis using assms(1) eval_interval_nz by simp
  next
    case True
    obtain out s where es: "estimate_loss c st = Inr (out, s)"
      using estimate_loss_ok[OF assms(1,2)] by blast
    have "wf_model V (model s)" using estimate_loss_frame[OF es] assms(1) by simp
    then show ?thesis using es True eval_interval_nz by simp
  qed
  then obtain st1 where p: "?pre = Inr st1" and w1: "wf_model V (model st1)" by blast
  note ct = corpus_ok_split[OF assms(2), of "''train''"]
  obtain X Y l r where gb: "get_batch c ''train'' (gen st1) = Inr ((X, Y), advance batch_size (gen st1))"
    and fw: "forward (model st1) X (Some Y) = Inr (l, Some (Val r))"
    using batch_forward_ok[OF w1 ct, of "gen st1"] by blast
  obtain o' m' where sp: "step (opt st1) (model st1) X Y = (o', m')"
    by (cases "step (opt st1) (model st1) X Y")
  have wm: "wf_model V m'" using assms(3)[OF w1, of "opt st1" X Y] sp by simp
  have "train_iteration step c iter st =
          Inr (st1\<lparr>model := m', gen := advance batch_size (gen st1), opt := o'\<rparr>)"
    unfolding train_iteration_def p bind_e_simps gb prod.case fw option.case sp Let_def
    by (rule refl)
  then show ?thesis using wm by simp
qed

lemma train_iterations_ok:
  assumes "wf_model V (model st)" "corpus_ok V c"
    "\<And>os m x y. wf_model V m \<Longrightarrow> wf_model V (snd (step os m x y))"
  shows "\<exists>st'. train_iterations step c n st = Inr st' \<and> wf_model V (model st')"
proof (induction n)
  case 0
  then show ?case using assms(1) by simp
next
  case (Suc n)
  then obtain s where a: "train_iterations step c n st = Inr s" and w: "wf_model V (model s)"
    by blast
  have "\<exists>st'. train_iteration step c n s = Inr st' \<and> wf_model V (model st')"
    by (rule train_iteration_ok[OF w assms(2)]) (rule assms(3))
  then show ?case using a by simp
qed

lemma train_iteration_inv:
  assumes "train_iteration step c iter st = Inr st'"
  shows "\<exists>s1 xb yb g' lg l.
           (if iter mod eval_interval = 0
            then \<exists>out s. estimate_loss c st = Inr (out, s) \<and>
                   s1 = s\<lparr>printed := printed s @ [(iter, out ''train'', out ''val'')]\<rparr>
            else s1 = st) \<and>
           get_batch c ''train'' (gen s1) = Inr ((xb, yb), g') \<and>
           forward (model s1) xb (Some yb) = Inr (lg, Some l) \<and>
           st' = s1\<lparr>model := snd (step (opt s1) (model s1) xb yb), gen := g',
                    opt := fst (step (opt s1) (model s1) xb yb)\<rparr>"
proof -
  let ?pre = "if eval_interval = 0 then Inl ZeroDivisionError
             else if iter mod eval_interval = 0
             then bind_e (estimate_loss c st) (\<lambda>(losses, st1).
                  Inr (st1\<lparr>printed := printed st1 @ [(iter, losses ''train'', losses ''val'')]\<rparr>))
             else Inr st"
  from assms obtain st1 where p: "?pre = Inr st1"
    unfolding train_iteration_def by (cases ?pre) auto
  from assms p obtain xb yb g' where
    b: "get_batch c ''train'' (gen st1) = Inr ((xb, yb), g')"
    unfolding train_iteration_def by (cases "get_batch c ''train'' (gen st1)") auto
  from assms p b obtain lg loss where
    d: "forward (model st1) xb (Some yb) = Inr (lg, loss)"
    unfolding train_iteration_def by (cases "forward (model st1) xb (Some yb)") auto
  from assms p b d obtain l where l: "loss = Some l"
    unfolding train_iteration_def by (cases loss) auto
  have e: "st' = st1\<lparr>model := snd (step (opt st1) (model st1) xb yb), gen := g',
                    opt := fst (step (opt st1) (model st1) xb yb)\<rparr>"
    using assms p b d l unfolding train_iteration_def
    by (auto simp: Let_def split: prod.splits)
  have pre: "if iter mod eval_interval = 0
            then \<exists>out s. estimate_loss c st = Inr (out, s) \<and>
                   st1 = s\<lparr>printed := printed s @ [(iter, out ''train'', out ''val'')]\<rparr>
            else st1 = st"
  proof (cases "iter mod eval_interval = 0")
    case False
    then show ?thesis using p eval_interval_nz by simp
  next
    case True
    from p True obtain out s where es: "estimate_loss c st = Inr (out, s)"
      and s1: "st1 = s\<lparr>printed := printed s @ [(iter, out ''train'', out ''val'')]\<rparr>"
      using eval_interval_nz by (cases "estimate_loss c st") auto
    show ?thesis using es s1 True by simp
  qed
  show ?thesis using pre b d[unfolded l] e by blast
qed

lemma train_iteration_eval:
  assumes "train_iteration step c iter st = Inr st'" "iter mod eval_interval = 0"
  shows "\<exists>out s1 xb yb g' lg l.
           estimate_loss c st = Inr (out, s1) \<and>
           printed st' = printed st @ [(iter, out ''train'', out ''val'')] \<and>
           get_batch c ''train'' (gen s1) = Inr ((xb, yb), g') \<and>
           forward (model s1) xb (Some yb) = Inr (lg, Some l) \<and>
           model st' = snd (step (opt s1) (model s1) xb yb) \<and>
           opt st' = fst (step (opt s1) (model s1) xb yb) \<and> gen st' = g'"
proof -
  from train_iteration_inv[OF assms(1)] assms(2)
  obtain s1 xb yb g' lg l out s where
    es: "estimate_loss c st = Inr (out, s)"
    and s1: "s1 = s\<lparr>printed := printed s @ [(iter, out ''train'', out ''val'')]\<rparr>"
    and gb: "get_batch c ''train'' (gen s1) = Inr ((xb, yb), g')"
    and fw: "forward (model s1) xb (Some yb) = Inr (lg, Some l)"
    and st': "st' = s1\<lparr>model := snd (step (opt s1) (model s1) xb yb), gen := g',
                    opt := fst (step (opt s1) (model s1) xb yb)\<rparr>"
    by auto
  have pr: "printed s = printed st" using estimate_loss_frame[OF es] by simp
  have a: "printed st' = printed st @ [(iter, out ''train'', out ''val'')]"
    using st' s1 pr by simp
  have b: "get_batch c ''train'' (gen s) = Inr ((xb, yb), g')" using gb s1 by simp
  have d: "forward (model s) xb (Some yb) = Inr (lg, Some l)" using fw s1 by simp
  have e: "model st' = snd (step (opt s) (model s) xb yb)"
    "opt st' = fst (step (opt s) (model s) xb yb)" "gen st' = g'"
    using st' s1 by simp_all
  show ?thesis using es a b d e by blast
qed

lemma train_iteration_no_eval:
  assumes "train_iteration step c iter st = Inr st'" "iter mod eval_interval \<noteq> 0"
  shows "\<exists>xb yb g' lg l.
           printed st' = printed st \<and>
           get_batch c ''train'' (gen st) = Inr ((xb, yb), g') \<and>
           forward (model st) xb (Some yb) = Inr (lg, Some l) \<and>
           model st' = snd (step (opt st) (model st) xb yb) \<and>
           opt st' = fst (step (opt st) (model st) xb yb) \<and> gen st' = g'"
proof -
  from train_iteration_inv[OF assms(1)] assms(2)
  obtain s1 xb yb g' lg l where
    s1: "s1 = st"
    and gb: "get_batch c ''train'' (gen s1) = Inr ((xb, yb), g')"
    and fw: "forward (model s1) xb (Some yb) = Inr (lg, Some l)"
    and st': "st' = s1\<lparr>model := snd (step (opt s1) (model s1) xb yb), gen := g',
                    opt := fst (step (opt s1) (model s1) xb yb)\<rparr>"
    by auto
  have a: "printed st' = printed st" using st' s1 by simp
  have e: "model st' = snd (step (opt st) (model st) xb yb)"
    "opt st' = fst (step (opt st) (model st) xb yb)" "gen st' = g'"
    using st' s1 by simp_all
  show ?thesis using a gb[unfolded s1] fw[unfolded s1] e by blast
qed

lemma train_iteration_eval_fails:
  assumes "iter mod eval_interval = 0" "estimate_loss c st = Inl e"
  shows "train_iteration step c iter st = Inl e"
  using assms eval_interval_nz by (simp add: train_iteration_def bind_e_def)

lemma train_iterations_prefix:
  assumes "train_iterations step c n st = Inr st'" "i \<le> n"
  shows "\<not> isl (train_iterations step c i st)"
  using assms
proof (induction n arbitrary: st')
  case 0
  then show ?case by simp
next
  case (Suc n)
  from Suc.prems(1) obtain s where a: "train_iterations step c n st = Inr s"
    by (cases "train_iterations step c n st") auto
  show ?case
  proof (cases "i = Suc n")
    case True
    then show ?thesis using Suc.prems(1) by simp
  next
    case False
    then have "i \<le> n" using Suc.prems(2) by simp
    then show ?thesis using Suc.IH[OF a] by simp
  qed
qed

lemma train_iterations_records:
  "train_iterations step c n st = Inr st' \<Longrightarrow>
     printed st' = printed st @
       map (\<lambda>i. (i, fst (projr (estimate_loss c (projr (train_iterations step c i st)))) ''train'',
                   fst (projr (estimate_loss c (projr (train_iterations step c i st)))) ''val''))
         (filter (\<lambda>i. i mod eval_interval = 0) [0..<n]) \<and>
     (\<forall>i<n. i mod eval_interval = 0 \<longrightarrow>
        \<not> isl (estimate_loss c (projr (train_iterations step c i st))))"
proof (induction n arbitrary: st')
  case 0
  then show ?case by simp
next
  case (Suc n)
  from Suc.prems obtain s where a: "train_iterations step c n st = Inr s"
    and b: "train_iteration step c n s = Inr st'"
    by (cases "train_iterations step c n st") auto
  note ih = Suc.IH[OF a]
  have ps: "projr (train_iterations step c n st) = s" using a by simp
  show ?case
  proof (cases "n mod eval_interval = 0")
    case True
    from train_iteration_eval[OF b True] obtain out s1 where
      es: "estimate_loss c s = Inr (out, s1)"
      and pr: "printed st' = printed s @ [(n, out ''train'', out ''val'')]"
      by blast
    have o: "fst (projr (estimate_loss c s)) = out" "\<not> isl (estimate_loss c s)"
      using es by simp_all
    have 1: "printed st' = printed st @
       map (\<lambda>i. (i, fst (projr (estimate_loss c (projr (train_iterations step c i st)))) ''train'',
                   fst (projr (estimate_loss c (projr (train_iterations step c i st)))) ''val''))
         (filter (\<lambda>i. i mod eval_interval = 0) [0..<Suc n])"
      using conjunct1[OF ih] pr True o ps by simp
    have 2: "\<forall>i<Suc n. i mod eval_interval = 0 \<longrightarrow>
        \<not> isl (estimate_loss c (projr (train_iterations step c i st)))"
    proof (intro allI impI)
      fix i assume i: "i < Suc n" and m: "i mod eval_interval = 0"
      show "\<not> isl (estimate_loss c (projr (train_iterations step c i st)))"
      proof (cases "i = n")
        case True
        then show ?thesis using o ps by simp
      next
        case False
        then have "i < n" using i by simp
        then show ?thesis using conjunct2[OF ih] m by simp
      qed
    qed
    show ?thesis using 1 2 by simp
  next
    case False
    from train_iteration_no_eval[OF b False] have pr: "printed st' = printed s" by blast
    have 1: "printed st' = printed st @
       map (\<lambda>i. (i, fst (projr (estimate_loss c (projr (train_iterations step c i st)))) ''train'',
                   fst (projr (estimate_loss c (projr (train_iterations step c i st)))) ''val''))
         (filter (\<lambda>i. i mod eval_interval = 0) [0..<Suc n])"
      using conjunct1[OF ih] pr False by simp
    have 2: "\<forall>i<Suc n. i mod eval_interval = 0 \<longrightarrow>
        \<not> isl (estimate_loss c (projr (train_iterations step c i st)))"
    proof (intro allI impI)
      fix i assume i: "i < Suc n" and m: "i mod eval_interval = 0"
      have "i \<noteq> n" using m False by auto
      then have "i < n" using i by simp
      then show "\<not> isl (estimate_loss c (projr (train_iterations step c i st)))"
        using conjunct2[OF ih] m by simp
    qed
    show ?thesis using 1 2 by simp
  qed
qed

lemma train_iterations_means:
  assumes "wf_model V (model st)" "corpus_ok V c"
    "\<And>os m x y. wf_model V m \<Longrightarrow> wf_model V (snd (step os m x y))"
  shows "\<exists>st'. train_iterations step c n st = Inr st' \<and>
     printed st' = printed st @
       map (\<lambda>i. (i,
              Some (Val ((\<Sum>j<eval_iters. the_val (batch_loss
                     (model (eval_mode (projr (train_iterations step c i st)))) c ''train''
                     (advance (j * batch_size) (gen (projr (train_iterations step c i st)))))) /
                   real eval_iters)),
              Some (Val ((\<Sum>j<eval_iters. the_val (batch_loss
                     (model (eval_mode (projr (train_iterations step c i st)))) c ''val''
                     (advance (j * batch_size) (advance (eval_iters * batch_size)
                        (gen (projr (train_iterations step c i st))))))) /
                   real eval_iters))))
         (filter (\<lambda>i. i mod eval_interval = 0) [0..<n])"
proof -
  have ok: "\<exists>s. train_iterations step c i st = Inr s \<and> wf_model V (model s)" for i
    by (rule train_iterations_ok[OF assms(1,2)]) (rule assms(3))
  obtain st' where t: "train_iterations step c n st = Inr st'" using ok[of n] by blast
  note rec = conjunct1[OF train_iterations_records[OF t]]
  have "map (\<lambda>i. (i, fst (projr (estimate_loss c (projr (train_iterations step c i st)))) ''train'',
                   fst (projr (estimate_loss c (projr (train_iterations step c i st)))) ''val''))
         (filter (\<lambda>i. i mod eval_interval = 0) [0..<n]) =
       map (\<lambda>i. (i,
              Some (Val ((\<Sum>j<eval_iters. the_val (batch_loss
                     (model (eval_mode (projr (train_iterations step c i st)))) c ''train''
                     (advance (j * batch_size) (gen (projr (train_iterations step c i st)))))) /
                   real eval_iters)),
              Some (Val ((\<Sum>j<eval_iters. the_val (batch_loss
                     (model (eval_mode (projr (train_iterations step c i st)))) c ''val''
                     (advance (j * batch_size) (advance (eval_iters * batch_size)
                        (gen (projr (train_iterations step c i st))))))) /
                   real eval_iters))))
         (filter (\<lambda>i. i mod eval_interval = 0) [0..<n])"
  proof (rule map_cong[OF refl])
    fix i
    obtain s where s: "train_iterations step c i st = Inr s" and w: "wf_model V (model s)"
      using ok[of i] by blast
    have ps: "projr (train_iterations step c i st) = s" using s by simp
    from estimate_loss_ok[OF w assms(2)] obtain out s' where
      e: "estimate_loss c s = Inr (out, s')"
      and tr: "out ''train'' = Some (Val ((\<Sum>j<eval_iters. the_val (batch_loss (model (eval_mode s)) c ''train''
                (advance (j * batch_size) (gen s)))) / real eval_iters))"
      and va: "out ''val'' = Some (Val ((\<Sum>j<eval_iters. the_val (batch_loss (model (eval_mode s)) c ''val''
                (advance (j * batch_size) (advance (eval_iters * batch_size) (gen s))))) / real eval_iters))"
      by blast
    have o: "fst (projr (estimate_loss c s)) = out" using e by simp
    show "(i, fst (projr (estimate_loss c (projr (train_iterations step c i st)))) ''train'',
                   fst (projr (estimate_loss c (projr (train_iterations step c i st)))) ''val'') =
       (i,
              Some (Val ((\<Sum>j<eval_iters. the_val (batch_loss
                     (model (eval_mode (projr (train_iterations step c i st)))) c ''train''
                     (advance (j * batch_size) (gen (projr (train_iterations step c i st)))))) /
                   real eval_iters)),
              Some (Val ((\<Sum>j<eval_iters. the_val (batch_loss
                     (model (eval_mode (projr (train_iterations step c i st)))) c ''val''
                     (advance (j * batch_size) (advance (eval_iters * batch_size)
                        (gen (projr (train_iterations step c i st))))))) /
                   real eval_iters)))"
      unfolding ps o tr va by (rule refl)
  qed
  then show ?thesis using t rec by simp
qed

text \<open>
  Claim C8. \<^verbatim>\<open>estimate_loss\<close> puts the model in evaluation mode, runs \<open>eval_iters\<close> rounds
  on the training split and then \<open>eval_iters\<close> rounds on the validation split, each
  round one fresh batch and one forward pass with targets, stores the mean of the
  losses of each split, and puts the model back in training mode. No round of either
  loop changes the model, the optimizer state or the printed records, so every state
  the loops pass through holds the input's parameters with the training flag off; the
  state returned holds the input's model with the flag on. For a model with the shapes
  its constructor builds and splits longer than \<open>block_size\<close> with symbols below the
  vocabulary size the routine returns, and each entry is the mean of \<open>eval_iters\<close> batch
  losses. In the training loop the iterations of the printed records are exactly the
  iterations below \<open>n\<close> divisible by \<open>eval_interval\<close>, and the loop returns whenever the
  optimizer step keeps the shapes of the parameters.

  The loop calls the routine: a round at an iteration divisible by \<open>eval_interval\<close> that
  returns has run \<^verbatim>\<open>estimate_loss\<close> on the state it started from, printed one record
  holding the iteration and the two entries of the dictionary the routine returned, and
  then taken its training batch and its optimizer step from the state the routine
  returned; when the routine raises there, so does the round. A round at any other
  iteration prints nothing and takes its batch and step from the state it started from.
  Over \<open>n\<close> rounds the printed records are those of the input followed, for every
  iteration \<open>i < n\<close> divisible by \<open>eval_interval\<close> in increasing order, by the record of
  what \<^verbatim>\<open>estimate_loss\<close> returned on the state after \<open>i\<close> rounds; for well-shaped models
  these entries are the means of \<open>eval_iters\<close> batch losses on that state.
\<close>

theorem estimate_loss_frame_and_schedule:
  "estimate_loss c st =
     bind_e (eval_iterations c ''train'' eval_iters (eval_mode st)) (\<lambda>(lt, st1).
     bind_e (eval_iterations c ''val'' eval_iters st1) (\<lambda>(lv, st2).
     Inr ([''train'' \<mapsto> scalar_mean lt, ''val'' \<mapsto> scalar_mean lv], train_mode st2))) \<and>
   (\<forall>split k s0 ls s. eval_iterations c split k s0 = Inr (ls, s) \<longrightarrow>
      model s = model s0 \<and> opt s = opt s0 \<and> printed s = printed s0 \<and> length ls = k) \<and>
   model (eval_mode st) = (model st)\<lparr>training := False\<rparr> \<and>
   (\<forall>k ls s. eval_iterations c ''train'' k (eval_mode st) = Inr (ls, s) \<longrightarrow>
      model s = (model st)\<lparr>training := False\<rparr> \<and> \<not> training (model s)) \<and>
   (\<forall>lt st1 k ls s.
      eval_iterations c ''train'' eval_iters (eval_mode st) = Inr (lt, st1) \<and>
      eval_iterations c ''val'' k st1 = Inr (ls, s) \<longrightarrow>
      model s = (model st)\<lparr>training := False\<rparr> \<and> \<not> training (model s)) \<and>
   (\<forall>out st'. estimate_loss c st = Inr (out, st') \<longrightarrow>
      model st' = (model st)\<lparr>training := True\<rparr> \<and> training (model st') \<and>
      opt st' = opt st \<and> printed st' = printed st) \<and>
   (wf_model V (model st) \<and> corpus_ok V c \<longrightarrow>
      (\<exists>out st'. estimate_loss c st = Inr (out, st') \<and>
         gen st' = advance (2 * eval_iters * batch_size) (gen st) \<and>
         out ''train'' =
           Some (Val ((\<Sum>j<eval_iters. the_val (batch_loss (model (eval_mode st)) c ''train''
                         (advance (j * batch_size) (gen st)))) / real eval_iters)) \<and>
         out ''val'' =
           Some (Val ((\<Sum>j<eval_iters. the_val (batch_loss (model (eval_mode st)) c ''val''
                         (advance (j * batch_size) (advance (eval_iters * batch_size) (gen st))))) /
                      real eval_iters)))) \<and>
   (\<forall>n st'. train_iterations step c n st = Inr st' \<longrightarrow>
      map fst (printed st') =
        map fst (printed st) @ filter (\<lambda>i. i mod eval_interval = 0) [0..<n]) \<and>
   (wf_model V (model st) \<and> corpus_ok V c \<and>
    (\<forall>os m x y. wf_model V m \<longrightarrow> wf_model V (snd (step os m x y))) \<longrightarrow>
      (\<forall>n. \<exists>st'. train_iterations step c n st = Inr st')) \<and>
   (\<forall>iter s s'. train_iteration step c iter s = Inr s' \<and> iter mod eval_interval = 0 \<longrightarrow>
      (\<exists>out s1 xb yb g' lg l.
         estimate_loss c s = Inr (out, s1) \<and>
         printed s' = printed s @ [(iter, out ''train'', out ''val'')] \<and>
         get_batch c ''train'' (gen s1) = Inr ((xb, yb), g') \<and>
         forward (model s1) xb (Some yb) = Inr (lg, Some l) \<and>
         model s' = snd (step (opt s1) (model s1) xb yb) \<and>
         opt s' = fst (step (opt s1) (model s1) xb yb) \<and> gen s' = g')) \<and>
   (\<forall>iter s s'. train_iteration step c iter s = Inr s' \<and> iter mod eval_interval \<noteq> 0 \<longrightarrow>
      (\<exists>xb yb g' lg l.
         printed s' = printed s \<and>
         get_batch c ''train'' (gen s) = Inr ((xb, yb), g') \<and>
         forward (model s) xb (Some yb) = Inr (lg, Some l) \<and>
         model s' = snd (step (opt s) (model s) xb yb) \<and>
         opt s' = fst (step (opt s) (model s) xb yb) \<and> gen s' = g')) \<and>
   (\<forall>iter s e. iter mod eval_interval = 0 \<and> estimate_loss c s = Inl e \<longrightarrow>
      train_iteration step c iter s = Inl e) \<and>
   (\<forall>n st'. train_iterations step c n st = Inr st' \<longrightarrow>
      printed st' = printed st @
         map (\<lambda>i. (i, fst (projr (estimate_loss c (projr (train_iterations step c i st)))) ''train'',
                     fst (projr (estimate_loss c (projr (train_iterations step c i st)))) ''val''))
           (filter (\<lambda>i. i mod eval_interval = 0) [0..<n]) \<and>
      (\<forall>i<n. i mod eval_interval = 0 \<longrightarrow>
         \<not> isl (train_iterations step c i st) \<and>
         \<not> isl (estimate_loss c (projr (train_iterations step c i st))))) \<and>
   (wf_model V (model st) \<and> corpus_ok V c \<and>
    (\<forall>os m x y. wf_model V m \<longrightarrow> wf_model V (snd (step os m x y))) \<longrightarrow>
      (\<forall>n. \<exists>st'. train_iterations step c n st = Inr st' \<and>
         printed st' = printed st @
           map (\<lambda>i. (i,
                Some (Val ((\<Sum>j<eval_iters. the_val (batch_loss
                       (model (eval_mode (projr (train_iterations step c i st)))) c ''train''
                       (advance (j * batch_size) (gen (projr (train_iterations step c i st)))))) /
                     real eval_iters)),
                Some (Val ((\<Sum>j<eval_iters. the_val (batch_loss
                       (model (eval_mode (projr (train_iterations step c i st)))) c ''val''
                       (advance (j * batch_size) (advance (eval_iters * batch_size)
                          (gen (projr (train_iterations step c i st))))))) /
                     real eval_iters))))
           (filter (\<lambda>i. i mod eval_interval = 0) [0..<n])))"
proof (intro conjI allI impI)
  show "estimate_loss c st =
     bind_e (eval_iterations c ''train'' eval_iters (eval_mode st)) (\<lambda>(lt, st1).
     bind_e (eval_iterations c ''val'' eval_iters st1) (\<lambda>(lv, st2).
     Inr ([''train'' \<mapsto> scalar_mean lt, ''val'' \<mapsto> scalar_mean lv], train_mode st2)))"
    by (rule estimate_loss_unfold)
next
  show "model (eval_mode st) = (model st)\<lparr>training := False\<rparr>"
    by (simp add: eval_mode_def)
next
    fix split k ls s0 s
    assume "eval_iterations c split k s0 = Inr (ls, s)"
    note f = eval_iterations_frame[OF this]
    show "model s = model s0" "opt s = opt s0" "printed s = printed s0" "length ls = k"
      using f by simp_all
next
    fix k ls s
    assume "eval_iterations c ''train'' k (eval_mode st) = Inr (ls, s)"
    have m0: "model (eval_mode st) = (model st)\<lparr>training := False\<rparr>"
      by (simp add: eval_mode_def)
    note f = eval_iterations_mode[OF \<open>eval_iterations c ''train'' k (eval_mode st) = Inr (ls, s)\<close> m0]
    show "model s = (model st)\<lparr>training := False\<rparr>" "\<not> training (model s)"
      using f by simp_all
next
    fix lt k ls st1 s
    assume h: "eval_iterations c ''train'' eval_iters (eval_mode st) = Inr (lt, st1) \<and>
      eval_iterations c ''val'' k st1 = Inr (ls, s)"
    have m0: "model (eval_mode st) = (model st)\<lparr>training := False\<rparr>"
      by (simp add: eval_mode_def)
    have m1: "model st1 = (model st)\<lparr>training := False\<rparr>"
      using eval_iterations_mode(1)[OF conjunct1[OF h] m0] .
    note f = eval_iterations_mode[OF conjunct2[OF h] m1]
    show "model s = (model st)\<lparr>training := False\<rparr>" "\<not> training (model s)"
      using f by simp_all
next
    fix out st'
    assume "estimate_loss c st = Inr (out, st')"
    note f = estimate_loss_frame[OF this]
    show "model st' = (model st)\<lparr>training := True\<rparr>" "training (model st')"
      "opt st' = opt st" "printed st' = printed st"
      using f by simp_all
next
    assume "wf_model V (model st) \<and> corpus_ok V c"
    then show "\<exists>out st'. estimate_loss c st = Inr (out, st') \<and>
         gen st' = advance (2 * eval_iters * batch_size) (gen st) \<and>
         out ''train'' =
           Some (Val ((\<Sum>j<eval_iters. the_val (batch_loss (model (eval_mode st)) c ''train''
                         (advance (j * batch_size) (gen st)))) / real eval_iters)) \<and>
         out ''val'' =
           Some (Val ((\<Sum>j<eval_iters. the_val (batch_loss (model (eval_mode st)) c ''val''
                         (advance (j * batch_size) (advance (eval_iters * batch_size) (gen st))))) /
                      real eval_iters))"
      using estimate_loss_ok[of V st c] by simp
next
    fix n st'
    assume "train_iterations step c n st = Inr st'"
    then show "map fst (printed st') =
        map fst (printed st) @ filter (\<lambda>i. i mod eval_interval = 0) [0..<n]"
      by (rule train_iterations_printed)
next
    fix n
    assume h: "wf_model V (model st) \<and> corpus_ok V c \<and>
      (\<forall>os m x y. wf_model V m \<longrightarrow> wf_model V (snd (step os m x y)))"
    then have w: "wf_model V (model st)" and ck: "corpus_ok V c"
      and sp: "\<And>os m x y. wf_model V m \<Longrightarrow> wf_model V (snd (step os m x y))"
      by simp_all
    have "\<exists>st'. train_iterations step c n st = Inr st' \<and> wf_model V (model st')"
      by (rule train_iterations_ok[OF w ck]) (rule sp)
    then show "\<exists>st'. train_iterations step c n st = Inr st'" by blast
next
    fix iter s s'
    assume h: "train_iteration step c iter s = Inr s' \<and> iter mod eval_interval = 0"
    show "(\<exists>out s1 xb yb g' lg l.
   estimate_loss c s = Inr (out, s1) \<and>
   printed s' = printed s @ [(iter, out ''train'', out ''val'')] \<and>
   get_batch c ''train'' (gen s1) = Inr ((xb, yb), g') \<and>
   forward (model s1) xb (Some yb) = Inr (lg, Some l) \<and>
   model s' = snd (step (opt s1) (model s1) xb yb) \<and>
   opt s' = fst (step (opt s1) (model s1) xb yb) \<and> gen s' = g')"
      by (rule train_iteration_eval[OF conjunct1[OF h] conjunct2[OF h]])
next
    fix iter s s'
    assume h: "train_iteration step c iter s = Inr s' \<and> iter mod eval_interval \<noteq> 0"
    show "(\<exists>xb yb g' lg l.
         printed s' = printed s \<and>
         get_batch c ''train'' (gen s) = Inr ((xb, yb), g') \<and>
         forward (model s) xb (Some yb) = Inr (lg, Some l) \<and>
         model s' = snd (step (opt s) (model s) xb yb) \<and>
         opt s' = fst (step (opt s) (model s) xb yb) \<and> gen s' = g')"
      by (rule train_iteration_no_eval[OF conjunct1[OF h] conjunct2[OF h]])
next
    fix iter s e
    assume h: "iter mod eval_interval = 0 \<and> estimate_loss c (s :: 'a train_state) = Inl e"
    show "train_iteration step c iter s = Inl e"
      by (rule train_iteration_eval_fails[OF conjunct1[OF h] conjunct2[OF h]])
next
    fix n st'
    assume t: "train_iterations step c n st = Inr st'"
    show "printed st' = printed st @
         map (\<lambda>i. (i, fst (projr (estimate_loss c (projr (train_iterations step c i st)))) ''train'',
                     fst (projr (estimate_loss c (projr (train_iterations step c i st)))) ''val''))
           (filter (\<lambda>i. i mod eval_interval = 0) [0..<n])"
      by (rule conjunct1[OF train_iterations_records[OF t]])
    fix i
    assume i: "i < n" and m: "i mod eval_interval = 0"
    show "\<not> isl (train_iterations step c i st)"
      by (rule train_iterations_prefix[OF t]) (use i in simp)
    show "\<not> isl (estimate_loss c (projr (train_iterations step c i st)))"
      using conjunct2[OF train_iterations_records[OF t]] i m by simp
next
    fix n
    assume h: "wf_model V (model st) \<and> corpus_ok V c \<and>
      (\<forall>os m x y. wf_model V m \<longrightarrow> wf_model V (snd (step os m x y)))"
    then have w: "wf_model V (model st)" and ck: "corpus_ok V c"
      and sp: "\<And>os m x y. wf_model V m \<Longrightarrow> wf_model V (snd (step os m x y))"
      by simp_all
    show "\<exists>st'. train_iterations step c n st = Inr st' \<and>
         printed st' = printed st @
           map (\<lambda>i. (i,
                Some (Val ((\<Sum>j<eval_iters. the_val (batch_loss
                       (model (eval_mode (projr (train_iterations step c i st)))) c ''train''
                       (advance (j * batch_size) (gen (projr (train_iterations step c i st)))))) /
                     real eval_iters)),
                Some (Val ((\<Sum>j<eval_iters. the_val (batch_loss
                       (model (eval_mode (projr (train_iterations step c i st)))) c ''val''
                       (advance (j * batch_size) (advance (eval_iters * batch_size)
                          (gen (projr (train_iterations step c i st))))))) /
                     real eval_iters))))
           (filter (\<lambda>i. i mod eval_interval = 0) [0..<n])"
      by (rule train_iterations_means[OF w ck]) (rule sp)
qed

lemma example_state_wf: "wf_model 30 (model example_state)"
  using BigramLanguageModel_init_ok[of 30 example_vals] by (simp add: example_state_def)

lemma example_corpus_ok: "corpus_ok 30 example_corpus"
  by (simp add: corpus_ok_def example_corpus_def block_size_def list_all_iff)

theorem estimate_loss_frame_and_schedule_witness:
  "wf_model 30 (model example_state) \<and> corpus_ok 30 example_corpus \<and>
   \<not> isl (estimate_loss example_corpus example_state) \<and>
   training (model (snd (projr (estimate_loss example_corpus example_state)))) \<and>
   \<not> isl (train_iterations example_step example_corpus 2 example_state) \<and>
   map fst (printed (projr (train_iterations example_step example_corpus 2 example_state))) = [0] \<and>
   printed (projr (train_iterations example_step example_corpus 2 example_state)) =
     [(0, fst (projr (estimate_loss example_corpus example_state)) ''train'',
          fst (projr (estimate_loss example_corpus example_state)) ''val'')]"
proof -
  note th = estimate_loss_frame_and_schedule[of example_corpus example_state 30 example_step]
  note a = example_state_wf
  note b = example_corpus_ok
  have sp: "\<forall>os m x y. wf_model 30 m \<longrightarrow> wf_model 30 (snd (example_step os m x y))"
    by (simp add: example_step_def)
  note t5 = th[THEN conjunct2, THEN conjunct2, THEN conjunct2, THEN conjunct2, THEN conjunct2]
  note frame = t5[THEN conjunct1]
  note total = t5[THEN conjunct2, THEN conjunct1]
  note sched = t5[THEN conjunct2, THEN conjunct2, THEN conjunct1]
  note loop = t5[THEN conjunct2, THEN conjunct2, THEN conjunct2, THEN conjunct1]
  note t9 = t5[THEN conjunct2, THEN conjunct2, THEN conjunct2, THEN conjunct2]
  note recs = t9[THEN conjunct2, THEN conjunct2, THEN conjunct2, THEN conjunct1]
  obtain out st' where e: "estimate_loss example_corpus example_state = Inr (out, st')"
    using mp[OF total conjI[OF a b]] by blast
  have c: "\<not> isl (estimate_loss example_corpus example_state)" using e by simp
  have d: "training (model (snd (projr (estimate_loss example_corpus example_state))))"
    using frame[rule_format, OF e] e by simp
  obtain s where t: "train_iterations example_step example_corpus 2 example_state = Inr s"
    using mp[OF loop conjI[OF a conjI[OF b sp]], rule_format, of 2] by blast
  have f: "\<not> isl (train_iterations example_step example_corpus 2 example_state)" using t by simp
  have fl: "filter (\<lambda>i. i mod eval_interval = 0) [0..<2] = [0]"
    by (simp add: eval_interval_def upt_rec)
  have g: "map fst (printed (projr (train_iterations example_step example_corpus 2 example_state))) = [0]"
    using sched[rule_format, OF t] t fl by (simp add: example_state_def)
  have p0: "printed example_state = []" by (simp add: example_state_def)
  have h: "printed (projr (train_iterations example_step example_corpus 2 example_state)) =
     [(0, fst (projr (estimate_loss example_corpus example_state)) ''train'',
          fst (projr (estimate_loss example_corpus example_state)) ''val'')]"
    using conjunct1[OF recs[rule_format, OF t]] t unfolding fl p0 by simp
  show ?thesis by (intro conjI a b c d f g h)
qed

end
